(* ===== verification/Prelude.thy ===== *)
theory Prelude
  imports Complex_Main "HOL-Library.Multiset"
begin

text \<open>
  What every component of the dashboard shares: Python exceptions and results that may
  raise, insertion-ordered dictionaries, the stable sorts and the first-minimum selection
  of the standard library, and the severity scale of warnings. The interfaces of these
  data structures are the locales \<open>py_dict\<close>, \<open>stable_sort\<close> and \<open>threshold_scale\<close>; each is
  interpreted on the definitions that the components use.
\<close>

section \<open>Collections of facts\<close>

named_theorems res_simps \<open>evaluation of results that may raise\<close>
named_theorems dict_simps \<open>lookups and updates of dictionaries\<close>

section \<open>Exceptions\<close>

text \<open>
  The exception classes the sources raise or catch. \<open>is_exception\<close> is
  \<open>isinstance(e, Exception)\<close>: cancellation and interpreter exit derive from
  \<open>BaseException\<close> only. \<open>is_value_error\<close> is the class a
  \<open>except ValueError\<close> clause catches: JSON, Unicode and validation errors are its subclasses.
\<close>

datatype exn_class =
    ValueError | TypeError | KeyError | IndexError | AttributeError | OverflowError
  | FileNotFoundError | PermissionError | OSError | JSONDecodeError | UnicodeDecodeError | UnicodeEncodeError
  | ValidationError | HTTPError | OtherException
  | CancelledError | KeyboardInterrupt | SystemExit

datatype exn = Exn exn_class string

fun exn_cls :: "exn \<Rightarrow> exn_class" where
  "exn_cls (Exn c m) = c"

fun str_exn :: "exn \<Rightarrow> string" where
  "str_exn (Exn c m) = m"

definition is_exception :: "exn \<Rightarrow> bool" where
  "is_exception e = (exn_cls e \<notin> {CancelledError, KeyboardInterrupt, SystemExit})"

definition is_value_error :: "exn \<Rightarrow> bool" where
  "is_value_error e =
     (exn_cls e \<in> {ValueError, JSONDecodeError, UnicodeDecodeError, UnicodeEncodeError, ValidationError})"

definition is_os_error :: "exn \<Rightarrow> bool" where
  "is_os_error e = (exn_cls e \<in> {OSError, FileNotFoundError, PermissionError})"

section \<open>Results\<close>

type_synonym 'a result = "exn + 'a"

definition rbind :: "'a result \<Rightarrow> ('a \<Rightarrow> 'b result) \<Rightarrow> 'b result" where
  "rbind m f = (case m of Inl e \<Rightarrow> Inl e | Inr x \<Rightarrow> f x)"

lemma rbind_simps [simp, res_simps]:
  "rbind (Inl e) f = Inl e"
  "rbind (Inr x) f = f x"
  by (simp_all add: rbind_def)

lemma rbind_Inr_iff:
  "rbind m f = Inr y \<longleftrightarrow> (\<exists>x. m = Inr x \<and> f x = Inr y)"
  by (cases m) auto

lemma rbindE:
  assumes "rbind m f = Inr y"
  obtains x where "m = Inr x" "f x = Inr y"
  using assms by (cases m) auto

text \<open>A loop that appends one result per element and stops at the first exception.\<close>

fun rmap :: "('a \<Rightarrow> 'b result) \<Rightarrow> 'a list \<Rightarrow> 'b list result" where
  "rmap f [] = Inr []"
| "rmap f (x # xs) = rbind (f x) (\<lambda>y. rbind (rmap f xs) (\<lambda>ys. Inr (y # ys)))"

lemma rmap_Inr_length: "rmap f xs = Inr ys \<Longrightarrow> length ys = length xs"
  by (induction xs arbitrary: ys) (auto simp: rbind_Inr_iff)

lemma rmap_Inr_nth:
  "rmap f xs = Inr ys \<Longrightarrow> i < length xs \<Longrightarrow> f (xs ! i) = Inr (ys ! i)"
  by (induction xs arbitrary: ys i) (auto simp: rbind_Inr_iff nth_Cons split: nat.splits)

lemma rmap_total: "(\<And>x. x \<in> set xs \<Longrightarrow> f x = Inr (g x)) \<Longrightarrow> rmap f xs = Inr (map g xs)"
  by (induction xs) auto

lemma rmap_in: "rmap f xs = Inr ys \<Longrightarrow> y \<in> set ys \<Longrightarrow> \<exists>x \<in> set xs. f x = Inr y"
  by (induction xs arbitrary: ys) (auto simp: rbind_Inr_iff)

text \<open>\<open>a or b\<close> on optional values, and \<open>x if x is not None else d\<close>.\<close>

definition opt_or :: "'a option \<Rightarrow> 'a option \<Rightarrow> 'a option" where
  "opt_or a b = (case a of None \<Rightarrow> b | Some x \<Rightarrow> Some x)"

definition opt_default :: "'a \<Rightarrow> 'a option \<Rightarrow> 'a" where
  "opt_default d a = (case a of None \<Rightarrow> d | Some x \<Rightarrow> x)"

lemma opt_default_simps [simp]: "opt_default d None = d" "opt_default d (Some x) = x"
  by (simp_all add: opt_default_def)

section \<open>Dictionaries\<close>

text \<open>
  A Python dict keeps its keys in insertion order and an assignment to a present key keeps
  that key's position. It is an association list with distinct keys.
\<close>

type_synonym ('k, 'v) dict = "('k \<times> 'v) list"

definition dget :: "('k, 'v) dict \<Rightarrow> 'k \<Rightarrow> 'v option" where
  "dget d k = map_of d k"

fun dset :: "'k \<Rightarrow> 'v \<Rightarrow> ('k, 'v) dict \<Rightarrow> ('k, 'v) dict" where
  "dset k v [] = [(k, v)]"
| "dset k v ((k', v') # d) = (if k = k' then (k, v) # d else (k', v') # dset k v d)"

definition dpop :: "'k \<Rightarrow> ('k, 'v) dict \<Rightarrow> ('k, 'v) dict" where
  "dpop k d = filter (\<lambda>p. fst p \<noteq> k) d"

definition dkeys :: "('k, 'v) dict \<Rightarrow> 'k list" where
  "dkeys d = map fst d"

definition dwf :: "('k, 'v) dict \<Rightarrow> bool" where
  "dwf d = distinct (map fst d)"

definition dsetdefault :: "'k \<Rightarrow> 'v \<Rightarrow> ('k, 'v) dict \<Rightarrow> ('k, 'v) dict" where
  "dsetdefault k v d = (case dget d k of None \<Rightarrow> dset k v d | Some _ \<Rightarrow> d)"

definition dget_or :: "('k, 'v) dict \<Rightarrow> 'k \<Rightarrow> 'v \<Rightarrow> 'v" where
  "dget_or d k v = opt_default v (dget d k)"

text \<open>The interface: what a client may rely on.\<close>

locale py_dict =
  fixes get :: "'d \<Rightarrow> 'k \<Rightarrow> 'v option"
    and put :: "'k \<Rightarrow> 'v \<Rightarrow> 'd \<Rightarrow> 'd"
    and pop :: "'k \<Rightarrow> 'd \<Rightarrow> 'd"
    and keys :: "'d \<Rightarrow> 'k list"
    and ok :: "'d \<Rightarrow> bool"
    and empty :: "'d"
  assumes ok_empty: "ok empty"
    and ok_put: "ok d \<Longrightarrow> ok (put k v d)"
    and ok_pop: "ok d \<Longrightarrow> ok (pop k d)"
    and get_empty: "get empty k = None"
    and get_put: "get (put k v d) k' = (if k' = k then Some v else get d k')"
    and get_pop: "get (pop k d) k' = (if k' = k then None else get d k')"
    and keys_get: "k \<in> set (keys d) \<longleftrightarrow> get d k \<noteq> None"
    and keys_distinct: "ok d \<Longrightarrow> distinct (keys d)"
begin

lemma get_in_keys: "get d k = Some v \<Longrightarrow> k \<in> set (keys d)"
  by (simp add: keys_get)

lemma set_keys_put: "set (keys (put k v d)) = insert k (set (keys d))"
  by (auto simp: keys_get get_put split: if_splits)

lemma set_keys_pop: "set (keys (pop k d)) = set (keys d) - {k}"
  by (auto simp: keys_get get_pop split: if_splits)

lemma keys_empty: "keys empty = []"
proof -
  have "k \<notin> set (keys empty)" for k by (simp add: keys_get get_empty)
  then show ?thesis by (cases "keys empty") auto
qed

lemma length_keys: "ok d \<Longrightarrow> length (keys d) = card (set (keys d))"
  by (simp add: keys_distinct distinct_card)

lemma length_put:
  assumes "ok d"
  shows "length (keys (put k v d)) =
    (if k \<in> set (keys d) then length (keys d) else Suc (length (keys d)))"
  using length_keys [OF assms] length_keys [OF ok_put [OF assms, of k v]]
  by (simp add: set_keys_put insert_absorb)

lemma length_put_le: "ok d \<Longrightarrow> length (keys (put k v d)) \<le> Suc (length (keys d))"
  by (simp add: length_put)

lemma length_pop:
  assumes "ok d"
  shows "length (keys (pop k d)) =
    (if k \<in> set (keys d) then length (keys d) - 1 else length (keys d))"
  using length_keys [OF assms] length_keys [OF ok_pop [OF assms, of k]]
  by (simp add: set_keys_pop card_Diff_singleton)

text \<open>Storing under a bound and then dropping one present key stays within the bound.\<close>

lemma put_evict_bound:
  assumes "ok d" "length (keys d) \<le> m" "k' \<in> set (keys (put k v d))"
    "m < length (keys (put k v d))"
  shows "length (keys (pop k' (put k v d))) \<le> m"
  using assms length_put_le [OF assms(1), of k v] length_pop [OF ok_put [OF assms(1)], of k']
  by simp

lemma length_bounded_by_universe:
  assumes "ok d" "set (keys d) \<subseteq> K" "finite K" "card K \<le> m"
  shows "length (keys d) \<le> m"
proof -
  have "card (set (keys d)) \<le> card K" using assms(2,3) by (rule card_mono [rotated])
  then show ?thesis using assms(1,4) by (simp add: length_keys)
qed

end

lemma dget_Nil [simp, dict_simps]: "dget [] k = None"
  by (simp add: dget_def)

lemma dget_Cons [simp, dict_simps]:
  "dget ((k', v) # d) k = (if k = k' then Some v else dget d k)"
  by (simp add: dget_def)

lemma dget_dset [simp, dict_simps]:
  "dget (dset k v d) k' = (if k' = k then Some v else dget d k')"
  by (induction k v d rule: dset.induct) auto

lemma dget_dpop [simp, dict_simps]:
  "dget (dpop k d) k' = (if k' = k then None else dget d k')"
  by (induction d) (auto simp: dpop_def)

lemma dkeys_iff: "k \<in> set (dkeys d) \<longleftrightarrow> dget d k \<noteq> None"
  by (induction d) (auto simp: dkeys_def)

lemma dwf_Nil [simp]: "dwf []"
  by (simp add: dwf_def)

lemma fst_set_dset: "fst ` set (dset k v d) = insert k (fst ` set d)"
  by (induction k v d rule: dset.induct) auto

lemma dwf_dset [intro, simp]: "dwf d \<Longrightarrow> dwf (dset k v d)"
  by (induction k v d rule: dset.induct) (auto simp: dwf_def fst_set_dset)

lemma dwf_dpop [intro, simp]: "dwf d \<Longrightarrow> dwf (dpop k d)"
  by (induction d) (auto simp: dwf_def dpop_def)

interpretation dict: py_dict dget dset dpop dkeys dwf "[]"
  by unfold_locales (auto simp: dkeys_iff, auto simp: dkeys_def dwf_def)

lemma dwf_dsetdefault [intro, simp]: "dwf d \<Longrightarrow> dwf (dsetdefault k v d)"
  by (simp add: dsetdefault_def split: option.splits)

lemma dget_dsetdefault [dict_simps]:
  "dget (dsetdefault k v d) k' =
     (if k' = k then Some (opt_default v (dget d k)) else dget d k')"
  by (simp add: dsetdefault_def split: option.splits)

lemma length_dkeys [simp]: "length (dkeys d) = length d"
  by (simp add: dkeys_def)

lemma dget_mem: "dget d k = Some v \<Longrightarrow> (k, v) \<in> set d"
  by (auto simp: dget_def dest: map_of_SomeD)

lemma mem_dget: "dwf d \<Longrightarrow> (k, v) \<in> set d \<Longrightarrow> dget d k = Some v"
  by (simp add: dget_def dwf_def)

lemma length_dset_le: "length (dset k v d) \<le> Suc (length d)"
  by (induction k v d rule: dset.induct) auto

lemma length_dpop_le: "length (dpop k d) \<le> length d"
  by (simp add: dpop_def)

section \<open>Selecting and sorting\<close>

text \<open>\<open>min(xs, key=f)\<close>: the first element with the least key.\<close>

fun argmin :: "('a \<Rightarrow> 'b::linorder) \<Rightarrow> 'a list \<Rightarrow> 'a option" where
  "argmin f [] = None"
| "argmin f (x # xs) =
     (case argmin f xs of None \<Rightarrow> Some x | Some y \<Rightarrow> if f y < f x then Some y else Some x)"

lemma argmin_None [simp]: "argmin f xs = None \<longleftrightarrow> xs = []"
  by (cases xs) (auto split: option.splits)

lemma argmin_in: "argmin f xs = Some x \<Longrightarrow> x \<in> set xs"
  by (induction xs arbitrary: x) (auto split: option.splits if_splits)

lemma argmin_le: "argmin f xs = Some x \<Longrightarrow> y \<in> set xs \<Longrightarrow> f x \<le> f y"
  by (induction xs arbitrary: x y) (force split: option.splits if_splits)+

text \<open>
  \<open>sorted\<close> is stable, also with \<open>reverse=True\<close>, where elements with equal keys keep
  their order. The interface of both: a permutation, ordered by the key, equal keys in order.
\<close>

definition sort_asc :: "('a \<Rightarrow> 'b::linorder) \<Rightarrow> 'a list \<Rightarrow> 'a list" where
  "sort_asc f xs = sort_key f xs"

definition sort_desc :: "('a \<Rightarrow> 'b::linorder) \<Rightarrow> 'a list \<Rightarrow> 'a list" where
  "sort_desc f xs = rev (sort_key f (rev xs))"

locale stable_sort =
  fixes srt :: "'a list \<Rightarrow> 'a list"
    and key :: "'a \<Rightarrow> 'b"
    and le :: "'b \<Rightarrow> 'b \<Rightarrow> bool"
  assumes srt_mset: "mset (srt xs) = mset xs"
    and srt_sorted: "sorted_wrt (\<lambda>x y. le (key x) (key y)) (srt xs)"
    and srt_stable: "filter (\<lambda>x. key x = k) (srt xs) = filter (\<lambda>x. key x = k) xs"
begin

lemma srt_set: "set (srt xs) = set xs"
  by (metis srt_mset set_mset_mset)

lemma srt_length: "length (srt xs) = length xs"
  by (metis srt_mset size_mset)

lemma srt_distinct: "distinct (srt xs) \<longleftrightarrow> distinct xs"
  by (metis srt_mset mset_eq_imp_distinct_iff)

text \<open>A cut of the sorted list keeps the first by key: nothing dropped precedes a kept one.\<close>

lemma srt_take_drop:
  assumes "x \<in> set (take n (srt xs))" "y \<in> set (drop n (srt xs))"
  shows "le (key x) (key y)"
proof -
  have "sorted_wrt (\<lambda>x y. le (key x) (key y)) (take n (srt xs) @ drop n (srt xs))"
    using srt_sorted [of xs] by simp
  then show ?thesis using assms unfolding sorted_wrt_append by blast
qed

lemma srt_dropped:
  assumes "y \<in> set xs" "y \<notin> set (take n (srt xs))"
  shows "y \<in> set (drop n (srt xs))"
proof -
  have "set (srt xs) = set (take n (srt xs)) \<union> set (drop n (srt xs))"
    by (metis append_take_drop_id set_append)
  then show ?thesis using assms srt_set by blast
qed

end

lemma filter_sort_key_eq: "filter (\<lambda>x. f x = k) (sort_key f xs) = filter (\<lambda>x. f x = k) xs"
  by (simp add: sort_key_stable)

interpretation asc: stable_sort "sort_asc f" f "(\<le>)" for f :: "'a \<Rightarrow> 'b::linorder"
proof
  fix xs :: "'a list" and k :: 'b
  show "mset (sort_asc f xs) = mset xs"
    by (simp add: sort_asc_def)
  show "sorted_wrt (\<lambda>x y. f x \<le> f y) (sort_asc f xs)"
    using sorted_sort_key [of f xs] by (simp add: sort_asc_def sorted_wrt_map)
  show "filter (\<lambda>x. f x = k) (sort_asc f xs) = filter (\<lambda>x. f x = k) xs"
    by (simp add: sort_asc_def filter_sort_key_eq)
qed

interpretation desc: stable_sort "sort_desc f" f "(\<ge>)" for f :: "'a \<Rightarrow> 'b::linorder"
proof
  fix xs :: "'a list" and k :: 'b
  show "mset (sort_desc f xs) = mset xs"
    by (simp add: sort_desc_def)
  show "sorted_wrt (\<lambda>x y. f y \<le> f x) (sort_desc f xs)"
    using sorted_sort_key [of f "rev xs"] by (simp add: sort_desc_def sorted_wrt_map sorted_wrt_rev)
  show "filter (\<lambda>x. f x = k) (sort_desc f xs) = filter (\<lambda>x. f x = k) xs"
    by (simp add: sort_desc_def rev_filter [symmetric] filter_sort_key_eq)
qed

section \<open>Severities\<close>

text \<open>
  The sources write severities as the strings \<open>ok\<close>, \<open>info\<close>, \<open>warning\<close> and
  \<open>critical\<close>; no other value is ever assigned. They are ordered by how urgent they are.
\<close>

datatype severity = SevOk | SevInfo | SevWarning | SevCritical

fun sev_rank :: "severity \<Rightarrow> nat" where
  "sev_rank SevOk = 0"
| "sev_rank SevInfo = 1"
| "sev_rank SevWarning = 2"
| "sev_rank SevCritical = 3"

lemma sev_rank_inj: "sev_rank s = sev_rank t \<Longrightarrow> s = t"
  by (cases s; cases t) auto

instantiation severity :: linorder
begin

definition less_eq_severity :: "severity \<Rightarrow> severity \<Rightarrow> bool" where
  "less_eq_severity s t = (sev_rank s \<le> sev_rank t)"

definition less_severity :: "severity \<Rightarrow> severity \<Rightarrow> bool" where
  "less_severity s t = (sev_rank s < sev_rank t)"

instance
  by intro_classes (auto simp: less_eq_severity_def less_severity_def intro: sev_rank_inj)

end

lemmas severity_order = less_eq_severity_def less_severity_def

text \<open>
  A classification of measurements: \<open>urg\<close> orders the measurements by urgency, and a more
  urgent measurement never gets a lesser severity.
\<close>

locale threshold_scale =
  fixes classify :: "'a \<Rightarrow> severity"
    and urg :: "'a \<Rightarrow> 'a \<Rightarrow> bool"
  assumes classify_mono: "urg x y \<Longrightarrow> classify x \<le> classify y"
begin

lemma critical_upward: "urg x y \<Longrightarrow> classify x = SevCritical \<Longrightarrow> classify y = SevCritical"
  using classify_mono [of x y] by (cases "classify y") (auto simp: severity_order)

lemma ok_downward: "urg x y \<Longrightarrow> classify y = SevOk \<Longrightarrow> classify x = SevOk"
  using classify_mono [of x y] by (cases "classify x") (auto simp: severity_order)

lemma raised_upward: "urg x y \<Longrightarrow> classify x \<noteq> SevOk \<Longrightarrow> classify y \<noteq> SevOk"
  using ok_downward by blast

end

section \<open>Lists\<close>

lemma takeWhile_append_stop:
  "(\<And>x. x \<in> set xs \<Longrightarrow> P x) \<Longrightarrow> \<not> P y \<Longrightarrow> takeWhile P (xs @ y # ys) = xs"
  by (induction xs) auto

lemma dropWhile_append_stop:
  "(\<And>x. x \<in> set xs \<Longrightarrow> P x) \<Longrightarrow> \<not> P y \<Longrightarrow> dropWhile P (xs @ y # ys) = y # ys"
  by (induction xs) auto

lemma takeWhile_all [simp]: "(\<And>x. x \<in> set xs \<Longrightarrow> P x) \<Longrightarrow> takeWhile P xs = xs"
  by (induction xs) auto

lemma length_dropWhile_Cons: "\<not> P x \<Longrightarrow> length (dropWhile P xs) \<le> length xs"
  by (rule length_dropWhile_le)

lemma map_filter_names:
  assumes "\<And>x. x \<in> set xs \<Longrightarrow> f x \<noteq> None \<longleftrightarrow> P x" "\<And>x y. x \<in> set xs \<Longrightarrow> f x = Some y \<Longrightarrow> g y = x"
  shows "map g (List.map_filter f xs) = filter P xs"
  using assms by (induction xs) (auto simp: List.map_filter_def)

lemma map_filter_cong:
  "(\<And>x. x \<in> set xs \<Longrightarrow> f x = g x) \<Longrightarrow> List.map_filter f xs = List.map_filter g xs"
  by (induction xs) (auto simp: List.map_filter_def)

lemma find_SomeD: "List.find P xs = Some x \<Longrightarrow> x \<in> set xs \<and> P x"
  by (induction xs) (auto split: if_splits)

end
