(* ===== verification/PyStr.thy ===== *)
theory PyStr
  imports Prelude
begin

text \<open>
  Python's \<open>str\<close> on the code points 0 to 255 (Latin-1): a \<open>char\<close> is one code point.
  The predicates are those of the interpreter's Unicode tables on that range, so \<open>isdigit\<close>
  holds of the superscripts and \<open>isspace\<close> of the no-break space, as in Python. The
  standard library's splitting, stripping, joining and number conversions are defined here.
\<close>

section \<open>Characters\<close>

definition cp :: "char \<Rightarrow> nat" where
  "cp c = of_char c"

lemma cp_less [simp]: "cp c < 256"
  by (simp add: cp_def)

definition nl :: char where "nl = CHR 0x0A"
definition tab :: char where "tab = CHR 0x09"
definition bslash :: char where "bslash = CHR 0x5C"
definition nul :: char where "nul = CHR 0x00"
definition dquote :: char where "dquote = CHR 0x22"
definition squote :: char where "squote = CHR 0x27"
definition degree :: char where "degree = CHR 0xB0"

lemmas char_defs = nl_def tab_def bslash_def nul_def dquote_def squote_def degree_def

text \<open>U+2014 lies above the modelled range; it only occurs inside two message templates
  and stands here as the bytes of its UTF-8 encoding, which is how the API sends it.\<close>

definition em_dash :: string where
  "em_dash = [CHR 0xE2, CHR 0x80, CHR 0x94]"

definition is_space :: "char \<Rightarrow> bool" where
  "is_space c = (let n = cp c in (9 \<le> n \<and> n \<le> 13) \<or> (28 \<le> n \<and> n \<le> 32) \<or> n = 133 \<or> n = 160)"

definition is_linebreak :: "char \<Rightarrow> bool" where
  "is_linebreak c = (let n = cp c in (10 \<le> n \<and> n \<le> 13) \<or> (28 \<le> n \<and> n \<le> 30) \<or> n = 133)"

definition is_decimal :: "char \<Rightarrow> bool" where
  "is_decimal c = (let n = cp c in 48 \<le> n \<and> n \<le> 57)"

definition is_digit :: "char \<Rightarrow> bool" where
  "is_digit c = (let n = cp c in is_decimal c \<or> n = 178 \<or> n = 179 \<or> n = 185)"

definition is_letter :: "char \<Rightarrow> bool" where
  "is_letter c = (let n = cp c in (65 \<le> n \<and> n \<le> 90) \<or> (97 \<le> n \<and> n \<le> 122) \<or> n = 170
     \<or> n = 181 \<or> n = 186 \<or> (192 \<le> n \<and> n \<le> 255 \<and> n \<noteq> 215 \<and> n \<noteq> 247))"

definition is_alnum :: "char \<Rightarrow> bool" where
  "is_alnum c = (let n = cp c in is_letter c \<or> is_digit c \<or> n = 188 \<or> n = 189 \<or> n = 190)"

definition is_word :: "char \<Rightarrow> bool" where
  "is_word c = (is_alnum c \<or> cp c = 95)"

definition lower_char :: "char \<Rightarrow> char" where
  "lower_char c = (let n = cp c in
     if (65 \<le> n \<and> n \<le> 90) \<or> (192 \<le> n \<and> n \<le> 222 \<and> n \<noteq> 215) then char_of (n + 32) else c)"

definition lower :: "string \<Rightarrow> string" where
  "lower s = map lower_char s"

definition str_isdigit :: "string \<Rightarrow> bool" where
  "str_isdigit s = (s \<noteq> [] \<and> list_all is_digit s)"

definition str_isalnum :: "string \<Rightarrow> bool" where
  "str_isalnum s = (s \<noteq> [] \<and> list_all is_alnum s)"

lemma is_space_not_word: "is_space c \<Longrightarrow> \<not> is_word c"
  by (auto simp: is_space_def is_word_def is_alnum_def is_letter_def is_digit_def is_decimal_def
      Let_def)

lemma is_linebreak_space: "is_linebreak c \<Longrightarrow> is_space c"
  by (auto simp: is_space_def is_linebreak_def Let_def)

lemma lower_append [simp]: "lower (s @ t) = lower s @ lower t"
  by (simp add: lower_def)

lemma length_lower [simp]: "length (lower s) = length s"
  by (simp add: lower_def)

lemma cp_char_of: "n < 256 \<Longrightarrow> cp (char_of n) = n"
  by (simp add: cp_def)

lemma lower_char_idem [simp]: "lower_char (lower_char c) = lower_char c"
proof -
  have "cp c < 256" by simp
  then show ?thesis
    by (auto simp: lower_char_def Let_def cp_char_of)
qed

lemma lower_idem [simp]: "lower (lower s) = lower s"
  by (simp add: lower_def)

section \<open>Prefixes and stripping\<close>

fun startswith :: "string \<Rightarrow> string \<Rightarrow> bool" where
  "startswith s [] = True"
| "startswith [] (p # ps) = False"
| "startswith (c # s) (p # ps) = (c = p \<and> startswith s ps)"

definition startswith_any :: "string \<Rightarrow> string list \<Rightarrow> bool" where
  "startswith_any s ps = list_ex (startswith s) ps"

lemma startswith_iff: "startswith s p \<longleftrightarrow> (\<exists>t. s = p @ t)"
  by (induction s p rule: startswith.induct) auto

lemma startswith_append [simp]: "startswith (p @ t) p"
  by (auto simp: startswith_iff)

definition lstrip :: "string \<Rightarrow> string" where
  "lstrip s = dropWhile is_space s"

definition rstrip :: "string \<Rightarrow> string" where
  "rstrip s = rev (dropWhile is_space (rev s))"

definition strip :: "string \<Rightarrow> string" where
  "strip s = rstrip (lstrip s)"

definition strip_chars :: "(char \<Rightarrow> bool) \<Rightarrow> string \<Rightarrow> string" where
  "strip_chars P s = rev (dropWhile P (rev (dropWhile P s)))"

definition is_stripped :: "string \<Rightarrow> bool" where
  "is_stripped s = (s = [] \<or> (\<not> is_space (hd s) \<and> \<not> is_space (last s)))"

lemma strip_stripped: "is_stripped s \<Longrightarrow> strip s = s"
proof (cases s)
  case (Cons c t)
  moreover assume "is_stripped s"
  ultimately have "lstrip s = s" and last: "\<not> is_space (last s)"
    by (auto simp: is_stripped_def lstrip_def)
  moreover have "rstrip s = s"
    using last Cons by (metis append_butlast_last_id dropWhile.simps(2) list.distinct(1)
        rev.simps(2) rev_append rev_rev_ident rstrip_def append_Cons append_Nil)
  ultimately show ?thesis by (simp add: strip_def)
qed (simp add: strip_def lstrip_def rstrip_def)

lemma is_stripped_strip: "is_stripped (strip s)"
proof -
  have last_rstrip: "rstrip t = [] \<or> \<not> is_space (last (rstrip t))" for t
    using hd_dropWhile [of is_space "rev t"] by (auto simp: rstrip_def last_rev)
  have "hd (rstrip t) = hd t" if "rstrip t \<noteq> []" for t
  proof -
    have "t = rstrip t @ rev (takeWhile is_space (rev t))"
      unfolding rstrip_def by (metis rev_append rev_rev_ident takeWhile_dropWhile_id)
    then show ?thesis using that by (metis hd_append2)
  qed
  moreover have "lstrip s \<noteq> [] \<Longrightarrow> \<not> is_space (hd (lstrip s))"
    using hd_dropWhile [of is_space s] by (auto simp: lstrip_def)
  moreover have "rstrip (lstrip s) \<noteq> [] \<Longrightarrow> lstrip s \<noteq> []"
    by (auto simp: rstrip_def)
  ultimately show ?thesis
    using last_rstrip [of "lstrip s"] by (auto simp: is_stripped_def strip_def)
qed

lemma strip_strip [simp]: "strip (strip s) = strip s"
  by (rule strip_stripped) (rule is_stripped_strip)

lemma strip_Nil [simp]: "strip [] = []"
  by (simp add: strip_def lstrip_def rstrip_def)

lemma no_space_stripped: "list_all (\<lambda>c. \<not> is_space c) s \<Longrightarrow> is_stripped s"
  by (auto simp: is_stripped_def list_all_iff)

section \<open>Splitting\<close>

definition nonspace :: "char \<Rightarrow> bool" where
  "nonspace c = (\<not> is_space c)"

text \<open>\<open>s.split()\<close>\<close>

function split_ws :: "string \<Rightarrow> string list" where
  "split_ws s = (let t = lstrip s in
     if t = [] then [] else takeWhile nonspace t # split_ws (dropWhile nonspace t))"
  by pat_completeness auto
termination
proof (relation "measure length", goal_cases)
  case (2 s t)
  then obtain c u where t: "t = c # u" by (meson neq_Nil_conv)
  have "\<not> is_space c"
    using hd_dropWhile [of is_space s] 2 t by (metis list.distinct(1) list.sel(1) lstrip_def)
  then have "length (dropWhile nonspace t) \<le> length u"
    using t by (simp add: nonspace_def length_dropWhile_le)
  also have "\<dots> < length t" using t by simp
  also have "\<dots> \<le> length s" using 2 by (simp add: lstrip_def length_dropWhile_le)
  finally show ?case by simp
qed simp

declare split_ws.simps [simp del]

text \<open>\<open>s.split(None, 1)\<close>: the rest loses its leading white space only.\<close>

definition split_ws1 :: "string \<Rightarrow> string list" where
  "split_ws1 s = (let t = lstrip s; r = lstrip (dropWhile nonspace t) in
     if t = [] then [] else if r = [] then [takeWhile nonspace t] else [takeWhile nonspace t, r])"

text \<open>\<open>s.split(c)\<close>, \<open>s.partition(c)\<close> and \<open>s.split(c, 1)\<close> for one character.\<close>

fun split_char :: "char \<Rightarrow> string \<Rightarrow> string list" where
  "split_char c [] = [[]]"
| "split_char c (x # s) =
     (if x = c then [] # split_char c s
      else (case split_char c s of [] \<Rightarrow> [[x]] | p # ps \<Rightarrow> (x # p) # ps))"

definition partition_char :: "char \<Rightarrow> string \<Rightarrow> string \<times> bool \<times> string" where
  "partition_char c s = (takeWhile (\<lambda>x. x \<noteq> c) s, c \<in> set s, tl (dropWhile (\<lambda>x. x \<noteq> c) s))"

definition split_char1 :: "char \<Rightarrow> string \<Rightarrow> string list" where
  "split_char1 c s =
     (if c \<in> set s then [takeWhile (\<lambda>x. x \<noteq> c) s, tl (dropWhile (\<lambda>x. x \<noteq> c) s)] else [s])"

text \<open>\<open>s.split(c, 1)[1]\<close>, guarded in the sources by a test that \<open>c\<close> occurs.\<close>

definition after_char :: "char \<Rightarrow> string \<Rightarrow> string" where
  "after_char c s = tl (dropWhile (\<lambda>x. x \<noteq> c) s)"

definition before_char :: "char \<Rightarrow> string \<Rightarrow> string" where
  "before_char c s = takeWhile (\<lambda>x. x \<noteq> c) s"

text \<open>\<open>s.partition(sep)\<close> and \<open>sep in s\<close> for a longer separator.\<close>

fun partition_str :: "string \<Rightarrow> string \<Rightarrow> string \<times> bool \<times> string" where
  "partition_str p [] = ([], p = [], [])"
| "partition_str p (c # s) =
     (if startswith (c # s) p then ([], True, drop (length p) (c # s))
      else (case partition_str p s of (a, f, b) \<Rightarrow> (c # a, f, b)))"

definition contains :: "string \<Rightarrow> string \<Rightarrow> bool" where
  "contains s p = fst (snd (partition_str p s))"

lemma contains_iff: "contains s p \<longleftrightarrow> (\<exists>a b. s = a @ p @ b)"
proof (induction s)
  case Nil
  then show ?case by (auto simp: contains_def)
next
  case (Cons c s)
  have step: "contains (c # s) p \<longleftrightarrow> startswith (c # s) p \<or> contains s p"
    by (auto simp: contains_def split: prod.splits)
  have "(\<exists>a b. c # s = a @ p @ b) \<longleftrightarrow> (\<exists>t. c # s = p @ t) \<or> (\<exists>a b. s = a @ p @ b)"
    by (metis append_Cons append_Nil list.inject neq_Nil_conv)
  then show ?case using step Cons.IH by (simp add: startswith_iff)
qed

text \<open>\<open>s.splitlines()\<close>, where carriage return and newline together end one line.\<close>

fun splitlines_acc :: "string \<Rightarrow> string \<Rightarrow> string list" where
  "splitlines_acc acc [] = (if acc = [] then [] else [rev acc])"
| "splitlines_acc acc [c] = (if is_linebreak c then [rev acc] else [rev (c # acc)])"
| "splitlines_acc acc (c # d # s) =
     (if is_linebreak c
      then rev acc # (if c = CHR 0x0D \<and> d = CHR 0x0A then splitlines_acc [] s
                      else splitlines_acc [] (d # s))
      else splitlines_acc (c # acc) (d # s))"

definition splitlines :: "string \<Rightarrow> string list" where
  "splitlines s = splitlines_acc [] s"

text \<open>\<open>s.rsplit(None, n)\<close>: at most \<open>n\<close> fields off the right end; the rest loses its
  trailing white space only.\<close>

fun rsplit_ws :: "nat \<Rightarrow> string \<Rightarrow> string list" where
  "rsplit_ws 0 s = (if rstrip s = [] then [] else [rstrip s])"
| "rsplit_ws (Suc n) s =
     (let t = rev (rstrip s) in
      if t = [] then []
      else rsplit_ws n (rev (dropWhile nonspace t)) @ [rev (takeWhile nonspace t)])"

text \<open>\<open>s.rsplit(c, 1)[-1]\<close> and \<open>s.rfind(c)\<close>.\<close>

definition after_last :: "char \<Rightarrow> string \<Rightarrow> string" where
  "after_last c s = rev (takeWhile (\<lambda>x. x \<noteq> c) (rev s))"

definition before_last :: "char \<Rightarrow> string \<Rightarrow> string" where
  "before_last c s = rev (tl (dropWhile (\<lambda>x. x \<noteq> c) (rev s)))"

fun join :: "string \<Rightarrow> string list \<Rightarrow> string" where
  "join d [] = []"
| "join d [s] = s"
| "join d (s # t # ss) = s @ d @ join d (t # ss)"

definition replace_char :: "char \<Rightarrow> string \<Rightarrow> string \<Rightarrow> string" where
  "replace_char c r s = concat (map (\<lambda>x. if x = c then r else [x]) s)"

definition quoted :: "string \<Rightarrow> string" where
  "quoted s = dquote # s @ [dquote]"

section \<open>Integers\<close>

definition digit_val :: "char \<Rightarrow> int" where
  "digit_val c = int (cp c) - 48"

fun digits_val :: "int \<Rightarrow> string \<Rightarrow> int" where
  "digits_val acc [] = acc"
| "digits_val acc (c # s) = digits_val (10 * acc + digit_val c) s"

text \<open>Decimal digits with single underscores between them, as \<open>int()\<close> accepts.\<close>

fun digits_ok :: "string \<Rightarrow> bool" where
  "digits_ok [] = False"
| "digits_ok [c] = is_decimal c"
| "digits_ok (c # d # s) =
     (is_decimal c \<and> (if d = CHR ''_'' then digits_ok s else digits_ok (d # s)))"

definition parse_digits :: "string \<Rightarrow> int option" where
  "parse_digits s =
     (if digits_ok s then Some (digits_val 0 (filter is_decimal s)) else None)"

definition int_of_str :: "string \<Rightarrow> int option" where
  "int_of_str s = (let t = strip s in
     case t of [] \<Rightarrow> None
     | c # u \<Rightarrow> if c = CHR ''-'' then map_option uminus (parse_digits u)
               else if c = CHR ''+'' then parse_digits u
               else parse_digits t)"

text \<open>\<open>int(s)\<close>, which raises ValueError.\<close>

definition py_int :: "string \<Rightarrow> int result" where
  "py_int s = (case int_of_str s of
     None \<Rightarrow> Inl (Exn ValueError (''invalid literal for int() with base 10: '' @ s))
   | Some n \<Rightarrow> Inr n)"

function str_of_pos :: "int \<Rightarrow> string" where
  "str_of_pos n = (if n < 10 then [char_of (48 + n)]
     else str_of_pos (n div 10) @ [char_of (48 + n mod 10)])"
  by pat_completeness auto
termination
  by (relation "measure nat") auto

declare str_of_pos.simps [simp del]

definition str_of_nat :: "nat \<Rightarrow> string" where
  "str_of_nat n = str_of_pos (int n)"

definition str_of_int :: "int \<Rightarrow> string" where
  "str_of_int i = (if i < 0 then CHR ''-'' # str_of_pos (- i) else str_of_pos i)"

lemma cp_digit: "0 \<le> (n::int) \<Longrightarrow> n < 10 \<Longrightarrow> cp (char_of (48 + n)) = nat (48 + n)"
proof -
  assume n: "0 \<le> n" "n < 10"
  have "int (cp (char_of (48 + n))) = of_char (char_of (48 + n) :: char)"
    by (simp add: cp_def of_nat_of_char)
  also have "\<dots> = 48 + n" using n by simp
  finally show ?thesis by simp
qed

lemma is_decimal_digit: "0 \<le> (n::int) \<Longrightarrow> n < 10 \<Longrightarrow> is_decimal (char_of (48 + n))"
  by (simp add: is_decimal_def cp_digit Let_def nat_le_iff le_nat_iff)

lemma digit_val_digit: "0 \<le> (n::int) \<Longrightarrow> n < 10 \<Longrightarrow> digit_val (char_of (48 + n)) = n"
  by (simp add: digit_val_def cp_digit)

lemma str_of_pos_decimal: "0 \<le> n \<Longrightarrow> list_all is_decimal (str_of_pos n)"
proof (induction n rule: str_of_pos.induct)
  case (1 n)
  then show ?case by (subst str_of_pos.simps) (auto simp: is_decimal_digit)
qed

lemma str_of_pos_nonempty [simp]: "str_of_pos n \<noteq> []"
  by (subst str_of_pos.simps) simp

lemma decimal_not_underscore: "is_decimal c \<Longrightarrow> c \<noteq> CHR ''_''"
  by (auto simp: is_decimal_def cp_def)

lemma digits_ok_all: "s \<noteq> [] \<Longrightarrow> list_all is_decimal s \<Longrightarrow> digits_ok s"
  by (induction s rule: digits_ok.induct) (auto dest: decimal_not_underscore)

lemma digits_val_append: "digits_val a (s @ t) = digits_val (digits_val a s) t"
  by (induction s arbitrary: a) auto

lemma digits_val_str_of_pos: "0 \<le> n \<Longrightarrow> digits_val 0 (str_of_pos n) = n"
proof (induction n rule: str_of_pos.induct)
  case (1 n)
  then show ?case
    by (subst str_of_pos.simps) (auto simp: digits_val_append digit_val_digit)
qed

lemma parse_digits_str_of_pos: "0 \<le> n \<Longrightarrow> parse_digits (str_of_pos n) = Some n"
proof -
  assume n: "0 \<le> n"
  then have "filter is_decimal (str_of_pos n) = str_of_pos n"
    using str_of_pos_decimal [of n] by (simp add: list_all_iff)
  then show ?thesis
    using n by (simp add: parse_digits_def digits_ok_all str_of_pos_decimal digits_val_str_of_pos)
qed

lemma is_decimal_not_space: "is_decimal c \<Longrightarrow> \<not> is_space c"
  by (auto simp: is_decimal_def is_space_def Let_def)

lemma strip_decimal: "list_all is_decimal s \<Longrightarrow> strip s = s"
  by (intro strip_stripped no_space_stripped) (auto simp: list_all_iff is_decimal_not_space)

text \<open>Printing an integer and reading it back.\<close>

lemma int_of_str_of_int: "int_of_str (str_of_int i) = Some i"
proof (cases "i < 0")
  case True
  have "\<not> is_space (CHR ''-'')" by (simp add: is_space_def cp_def)
  then have "list_all (\<lambda>c. \<not> is_space c) (CHR ''-'' # str_of_pos (- i))"
    using str_of_pos_decimal [of "- i"] True by (auto simp: list_all_iff is_decimal_not_space)
  then have "strip (CHR ''-'' # str_of_pos (- i)) = CHR ''-'' # str_of_pos (- i)"
    by (intro strip_stripped no_space_stripped)
  then show ?thesis
    using True by (simp add: int_of_str_def str_of_int_def parse_digits_str_of_pos)
next
  case False
  obtain c u where cu: "str_of_pos i = c # u" by (cases "str_of_pos i") auto
  have "is_decimal c" using str_of_pos_decimal [of i] cu False by simp
  then have "c \<noteq> CHR ''-''" "c \<noteq> CHR ''+''" by (auto simp: is_decimal_def cp_def)
  then show ?thesis
    using parse_digits_str_of_pos [of i] strip_decimal [OF str_of_pos_decimal, of i] cu False
    by (simp add: int_of_str_def str_of_int_def)
qed

end
