(* ===== verification/PyFloat.thy ===== *)
theory PyFloat
  imports PyStr "HOL-Library.Log_Nat"
begin

text \<open>
  Python's \<open>float\<close> is IEEE binary64. A finite float is its exact rational value; an
  operation computes the exact result and rounds it with \<open>fl\<close> to the nearest float, ties to
  even, subnormals included. The range above \<open>2^1024\<close> only matters where text is converted, and
  there \<open>to_float\<close> gives infinity. The lemmas are what the collectors' comparisons need:
  rounding is monotone, exact on integers up to \<open>2^53\<close>, and off by at most half a unit in the
  last place.
\<close>

section \<open>Rounding to integers, half to even\<close>

definition round_he :: "rat \<Rightarrow> int" where
  "round_he x = (let f = \<lfloor>x\<rfloor>; d = x - of_int f in
     if d < 1 / 2 then f else if 1 / 2 < d then f + 1 else if even f then f else f + 1)"

lemma round_he_of_int [simp]: "round_he (of_int n) = n"
  by (simp add: round_he_def)

lemma round_he_floor: "round_he x = \<lfloor>x\<rfloor> \<or> round_he x = \<lfloor>x\<rfloor> + 1"
  by (simp add: round_he_def Let_def)

lemma round_he_error: "\<bar>of_int (round_he x) - x\<bar> \<le> 1 / 2"
proof -
  have "of_int \<lfloor>x\<rfloor> \<le> x" "x < of_int \<lfloor>x\<rfloor> + 1" by linarith+
  then show ?thesis by (auto simp: round_he_def Let_def abs_le_iff)
qed

lemma round_he_mono: "x \<le> y \<Longrightarrow> round_he x \<le> round_he y"
proof -
  assume le: "x \<le> y"
  then have fl: "\<lfloor>x\<rfloor> \<le> \<lfloor>y\<rfloor>" by (rule floor_mono)
  show ?thesis
  proof (cases "\<lfloor>x\<rfloor> = \<lfloor>y\<rfloor>")
    case True
    then show ?thesis using le by (auto simp: round_he_def Let_def)
  next
    case False
    then have "\<lfloor>x\<rfloor> + 1 \<le> \<lfloor>y\<rfloor>" using fl by linarith
    then show ?thesis using round_he_floor [of x] round_he_floor [of y] by linarith
  qed
qed

lemma round_he_ge: "of_int n \<le> x \<Longrightarrow> n \<le> round_he x"
  using round_he_mono [of "of_int n" x] by simp

lemma round_he_le: "x \<le> of_int n \<Longrightarrow> round_he x \<le> n"
  using round_he_mono [of x "of_int n"] by simp

lemma round_he_minus: "round_he (- x) = - round_he x"
proof (cases "x = of_int \<lfloor>x\<rfloor>")
  case True
  then show ?thesis by (metis of_int_minus round_he_of_int)
next
  case False
  then have lt: "of_int \<lfloor>x\<rfloor> < x" by (metis of_int_floor_le order_less_le)
  have "x < of_int \<lfloor>x\<rfloor> + 1" by linarith
  with lt have fm: "\<lfloor>- x\<rfloor> = - \<lfloor>x\<rfloor> - 1" by (intro floor_unique) auto
  define d where "d = x - of_int \<lfloor>x\<rfloor>"
  have dm: "- x - of_int \<lfloor>- x\<rfloor> = 1 - d" by (simp add: fm d_def)
  show ?thesis
    unfolding round_he_def Let_def dm unfolding fm d_def [symmetric] by auto
qed

section \<open>Rounding to binary64\<close>

definition pow2 :: "int \<Rightarrow> rat" where
  "pow2 e = 2 powi e"

lemma pow2_pos [simp]: "0 < pow2 e"
  by (simp add: pow2_def)

lemma pow2_nonneg [simp]: "0 \<le> pow2 e"
  by (simp add: pow2_def)

lemma pow2_nonzero [simp]: "pow2 e \<noteq> 0"
  by (simp add: pow2_def)

lemma pow2_add: "pow2 (a + b) = pow2 a * pow2 b"
  by (simp add: pow2_def power_int_add)

lemma pow2_diff: "pow2 (a - b) = pow2 a / pow2 b"
  by (simp add: pow2_def power_int_diff)

lemma pow2_1: "pow2 1 = 2"
  by (simp add: pow2_def)

lemma pow2_mono: "a \<le> b \<Longrightarrow> pow2 a \<le> pow2 b"
  by (simp add: pow2_def power_int_increasing)

lemma pow2_less: "pow2 a < pow2 b \<Longrightarrow> a < b"
  using pow2_mono [of b a] by linarith

lemma pow2_nat: "0 \<le> e \<Longrightarrow> pow2 e = of_int (2 ^ nat e)"
  by (simp add: pow2_def power_int_def)

definition ilog2 :: "rat \<Rightarrow> int" where
  "ilog2 q = (let (a, b) = quotient_of q; e = bitlen a - bitlen b in
     if pow2 e \<le> q then e else e - 1)"

lemma bitlen_pow2:
  assumes "0 < (n::int)"
  shows "pow2 (bitlen n - 1) \<le> of_int n" and "of_int n < pow2 (bitlen n)"
proof -
  have b: "2 ^ nat (bitlen n - 1) \<le> n" "n < 2 ^ nat (bitlen n)"
    using bitlen_bounds [OF assms] by auto
  have nn: "0 \<le> bitlen n - 1" "0 \<le> bitlen n"
    using bitlen_nonneg [of n] assms by (simp_all add: bitlen_def floorlog_def)
  show "pow2 (bitlen n - 1) \<le> of_int n"
    unfolding pow2_nat [OF nn(1)] using b(1) by (simp only: of_int_le_iff)
  show "of_int n < pow2 (bitlen n)"
    unfolding pow2_nat [OF nn(2)] using b(2) by (simp only: of_int_less_iff)
qed

lemma ilog2_bounds:
  assumes "0 < q"
  shows "pow2 (ilog2 q) \<le> q" and "q < pow2 (ilog2 q + 1)"
proof -
  obtain a b where ab: "quotient_of q = (a, b)" by (cases "quotient_of q")
  have q: "q = of_int a / of_int b" by (rule quotient_of_div [OF ab])
  have b: "0 < b" by (rule quotient_of_denom_pos [OF ab])
  with assms q have a: "0 < a" by (simp add: zero_less_divide_iff)
  define e where "e = bitlen a - bitlen b"
  have "q * of_int b = of_int a" using q b by simp
  moreover have "of_int a < pow2 (bitlen a)" "pow2 (bitlen b - 1) \<le> of_int b"
    using bitlen_pow2 a b by blast+
  moreover have "q * pow2 (bitlen b - 1) \<le> q * of_int b"
    using calculation(3) assms by (intro mult_left_mono) auto
  ultimately have "q * pow2 (bitlen b - 1) < pow2 (bitlen a)" by linarith
  moreover have "pow2 (e + 1) = 2 * pow2 (bitlen a) / pow2 (bitlen b)"
    unfolding e_def pow2_add pow2_diff pow2_1 by simp
  moreover have "pow2 (bitlen b - 1) = pow2 (bitlen b) / 2"
    unfolding pow2_diff pow2_1 ..
  ultimately have up: "q < pow2 (e + 1)" by (simp add: pos_less_divide_eq)
  have "pow2 (bitlen a - 1) \<le> of_int a" "of_int b < pow2 (bitlen b)"
    using bitlen_pow2 a b by blast+
  moreover have "q * of_int b < q * pow2 (bitlen b)"
    using calculation(2) assms by (intro mult_strict_left_mono) auto
  ultimately have "pow2 (bitlen a - 1) < q * pow2 (bitlen b)"
    using \<open>q * of_int b = of_int a\<close> by linarith
  moreover have "pow2 (bitlen a - 1) = pow2 (bitlen a) / 2"
    unfolding pow2_diff pow2_1 ..
  moreover have "pow2 (e - 1) = pow2 (bitlen a) / pow2 (bitlen b) / 2"
    unfolding e_def pow2_diff pow2_1 ..
  ultimately have lo: "pow2 (e - 1) < q" by (simp add: pos_divide_less_eq)
  have il: "ilog2 q = (if pow2 e \<le> q then e else e - 1)"
    by (simp add: ilog2_def ab e_def Let_def)
  show "pow2 (ilog2 q) \<le> q" "q < pow2 (ilog2 q + 1)"
    using up lo unfolding il by auto
qed

lemma ilog2_mono: "0 < p \<Longrightarrow> p \<le> q \<Longrightarrow> ilog2 p \<le> ilog2 q"
  using ilog2_bounds [of p] ilog2_bounds [of q] pow2_less [of "ilog2 p" "ilog2 q + 1"] by linarith

definition ulp_exp :: "rat \<Rightarrow> int" where
  "ulp_exp q = max (ilog2 \<bar>q\<bar> - 52) (- 1074)"

definition fl :: "rat \<Rightarrow> rat" where
  "fl q = (if q = 0 then 0
           else of_int (round_he (q / pow2 (ulp_exp q))) * pow2 (ulp_exp q))"

lemma fl_0 [simp]: "fl 0 = 0"
  by (simp add: fl_def)

lemma fl_minus: "fl (- q) = - fl q"
  by (simp add: fl_def ulp_exp_def round_he_minus)

lemma fl_error: "\<bar>fl q - q\<bar> \<le> pow2 (ulp_exp q) / 2"
proof (cases "q = 0")
  case False
  define u where "u = pow2 (ulp_exp q)"
  have u: "0 < u" by (simp add: u_def)
  have "fl q - q = (of_int (round_he (q / u)) - q / u) * u"
    using False u by (simp add: fl_def u_def algebra_simps)
  then have "\<bar>fl q - q\<bar> = \<bar>of_int (round_he (q / u)) - q / u\<bar> * u"
    using u by (simp add: abs_mult)
  also have "\<dots> \<le> 1 / 2 * u"
    using round_he_error u by (intro mult_right_mono) auto
  finally show ?thesis by (simp add: u_def)
qed simp

text \<open>A multiple of the unit in the last place is a float.\<close>

lemma fl_exact: "q = of_int n * pow2 (ulp_exp q) \<Longrightarrow> fl q = q"
proof -
  assume q: "q = of_int n * pow2 (ulp_exp q)"
  define u where "u = pow2 (ulp_exp q)"
  have "q / u = of_int n" using q by (simp add: u_def) (metis nonzero_mult_div_cancel_right pow2_nonzero)
  then show ?thesis using q by (simp add: fl_def u_def)
qed

lemma pow2_multiple:
  assumes "f \<le> e"
  shows "\<exists>n. of_int m * pow2 e = of_int n * pow2 f"
proof -
  have "pow2 e = of_int (2 ^ nat (e - f)) * pow2 f"
    using pow2_add [of "e - f" f] pow2_nat [of "e - f"] assms by simp
  then have "of_int m * pow2 e = of_int (m * 2 ^ nat (e - f)) * pow2 f" by simp
  then show ?thesis by blast
qed

lemma fl_of_int: "\<bar>n\<bar> \<le> 2 ^ 53 \<Longrightarrow> fl (of_int n) = of_int n"
proof -
  assume n: "\<bar>n\<bar> \<le> 2 ^ 53"
  show ?thesis
  proof (cases "\<bar>n\<bar> < 2 ^ 53")
    case True
    show ?thesis
    proof (cases "n = 0")
      case False
      then have pos: "(0::rat) < \<bar>of_int n\<bar>" by simp
      have "pow2 (ilog2 \<bar>of_int n\<bar>) \<le> \<bar>of_int n\<bar>" by (rule ilog2_bounds(1) [OF pos])
      also have "\<bar>of_int n\<bar> < (of_int (2 ^ 53) :: rat)"
        using True by (metis of_int_abs of_int_less_iff)
      also have "\<dots> = pow2 53" by (simp add: pow2_nat)
      finally have "ulp_exp (of_int n) \<le> 0" by (auto simp: ulp_exp_def dest: pow2_less)
      then obtain m where "of_int n * pow2 0 = of_int m * pow2 (ulp_exp (of_int n))"
        using pow2_multiple by blast
      then show ?thesis by (intro fl_exact [of _ m]) (simp add: pow2_def)
    qed simp
  next
    case False
    then have abs: "\<bar>n\<bar> = 2 ^ 53" using n by simp
    have r: "\<bar>of_int n\<bar> = pow2 53"
      using abs by (metis of_int_abs of_int_power of_int_numeral pow2_nat nat_numeral zero_le_numeral)
    have "pow2 (ilog2 (pow2 53)) \<le> pow2 53"
      by (simp add: ilog2_bounds)
    also have "pow2 53 < pow2 54" by (simp add: pow2_nat)
    finally have "ilog2 (pow2 53) < 54" by (rule pow2_less)
    then have "ulp_exp (of_int n) \<le> 1" unfolding ulp_exp_def r by simp
    moreover have "even n" using abs by (metis dvd_abs_iff even_numeral even_power zero_less_numeral)
    then obtain k where "n = k * 2" by (metis mult.commute evenE)
    then have "of_int n = of_int k * pow2 1" by (simp add: pow2_def)
    ultimately obtain m where "of_int n = of_int m * pow2 (ulp_exp (of_int n))"
      using pow2_multiple by metis
    then show ?thesis by (rule fl_exact)
  qed
qed

lemma fl_numeral [simp]: "fl 1 = 1"
  using fl_of_int [of 1] by simp

lemma ulp_exp_mono: "0 < p \<Longrightarrow> p \<le> q \<Longrightarrow> ulp_exp p \<le> ulp_exp q"
  using ilog2_mono [of p q] by (auto simp: ulp_exp_def)

lemma fl_le_pow2:
  assumes "0 < p" "p \<le> pow2 k" "ulp_exp p \<le> k"
  shows "fl p \<le> pow2 k"
proof -
  define u where "u = pow2 (ulp_exp p)"
  have k: "pow2 k = of_int (2 ^ nat (k - ulp_exp p)) * u"
    using assms(3) pow2_add [of "k - ulp_exp p" "ulp_exp p"] pow2_nat [of "k - ulp_exp p"]
    by (simp add: u_def)
  have "p / u \<le> of_int (2 ^ nat (k - ulp_exp p))"
    using assms(2) k by (simp add: u_def divide_le_eq)
  then have "round_he (p / u) \<le> 2 ^ nat (k - ulp_exp p)" by (rule round_he_le)
  then have "of_int (round_he (p / u)) * u \<le> of_int (2 ^ nat (k - ulp_exp p)) * u"
    by (intro mult_right_mono) (simp_all add: u_def del: of_int_power)
  then show ?thesis using assms(1) k by (simp add: fl_def u_def)
qed

lemma fl_ge_pow2:
  assumes "pow2 k \<le> q" "ulp_exp q \<le> k"
  shows "pow2 k \<le> fl q"
proof -
  define u where "u = pow2 (ulp_exp q)"
  have q: "0 < q" using assms(1) pow2_pos [of k] by linarith
  have k: "pow2 k = of_int (2 ^ nat (k - ulp_exp q)) * u"
    using assms(2) pow2_add [of "k - ulp_exp q" "ulp_exp q"] pow2_nat [of "k - ulp_exp q"]
    by (simp add: u_def)
  have "of_int (2 ^ nat (k - ulp_exp q)) \<le> q / u"
    using assms(1) k by (simp add: u_def le_divide_eq)
  then have "2 ^ nat (k - ulp_exp q) \<le> round_he (q / u)" by (rule round_he_ge)
  then have "of_int (2 ^ nat (k - ulp_exp q)) * u \<le> of_int (round_he (q / u)) * u"
    by (intro mult_right_mono) (simp_all add: u_def del: of_int_power)
  then show ?thesis using q k by (simp add: fl_def u_def)
qed

lemma fl_mono_pos:
  assumes "0 < p" "p \<le> q"
  shows "fl p \<le> fl q"
proof (cases "ulp_exp p = ulp_exp q")
  case True
  have "p / pow2 (ulp_exp q) \<le> q / pow2 (ulp_exp q)"
    using assms by (intro divide_right_mono) auto
  then show ?thesis
    using assms True round_he_mono by (simp add: fl_def)
next
  case False
  then have lt: "ulp_exp p < ulp_exp q" using ulp_exp_mono [OF assms] by simp
  then have uq: "ulp_exp q = ilog2 q - 52" and il: "ilog2 p < ilog2 q"
    using assms by (auto simp: ulp_exp_def split: if_splits)
  have "p < pow2 (ilog2 p + 1)" using assms(1) by (rule ilog2_bounds)
  also have "\<dots> \<le> pow2 (ilog2 q)" using il by (intro pow2_mono) simp
  finally have "fl p \<le> pow2 (ilog2 q)"
    using lt uq assms(1) by (intro fl_le_pow2) auto
  also have "\<dots> \<le> fl q"
    using assms uq by (intro fl_ge_pow2 ilog2_bounds) auto
  finally show ?thesis .
qed

lemma fl_nonneg: "0 \<le> q \<Longrightarrow> 0 \<le> fl q"
proof (cases "q = 0")
  case False
  assume "0 \<le> q"
  then have "0 \<le> round_he (q / pow2 (ulp_exp q))" by (intro round_he_ge) simp
  then show ?thesis by (simp add: fl_def)
qed simp

lemma fl_mono: "p \<le> q \<Longrightarrow> fl p \<le> fl q"
proof -
  assume le: "p \<le> q"
  consider "0 < p" | "p \<le> 0" "0 \<le> q" | "q < 0" by linarith
  then show ?thesis
  proof cases
    case 1
    then show ?thesis using le by (rule fl_mono_pos)
  next
    case 2
    then have "0 \<le> fl (- p)" "0 \<le> fl q" by (simp_all add: fl_nonneg)
    then show ?thesis by (simp add: fl_minus)
  next
    case 3
    then show ?thesis using fl_mono_pos [of "- q" "- p"] le by (simp add: fl_minus)
  qed
qed

lemma fl_le_int: "x \<le> of_int n \<Longrightarrow> \<bar>n\<bar> \<le> 2 ^ 53 \<Longrightarrow> fl x \<le> of_int n"
  using fl_mono [of x "of_int n"] by (simp add: fl_of_int)

lemma fl_ge_int: "of_int n \<le> x \<Longrightarrow> \<bar>n\<bar> \<le> 2 ^ 53 \<Longrightarrow> of_int n \<le> fl x"
  using fl_mono [of "of_int n" x] by (simp add: fl_of_int)

section \<open>Arithmetic on floats\<close>

text \<open>\<open>a / b\<close> on integers or floats, for a divisor the code has checked to be non-zero;
  products, sums and differences; \<open>round(x, n)\<close> for a digit count.\<close>

definition fdiv :: "rat \<Rightarrow> rat \<Rightarrow> rat" where "fdiv a b = fl (a / b)"
definition fmul :: "rat \<Rightarrow> rat \<Rightarrow> rat" where "fmul a b = fl (a * b)"
definition fadd :: "rat \<Rightarrow> rat \<Rightarrow> rat" where "fadd a b = fl (a + b)"
definition fsub :: "rat \<Rightarrow> rat \<Rightarrow> rat" where "fsub a b = fl (a - b)"

definition round_dec :: "nat \<Rightarrow> rat \<Rightarrow> rat" where
  "round_dec n x = fl (of_int (round_he (x * 10 ^ n)) / 10 ^ n)"

lemma round_dec_mono: "x \<le> y \<Longrightarrow> round_dec n x \<le> round_dec n y"
  unfolding round_dec_def
  by (intro fl_mono divide_right_mono) (simp_all add: round_he_mono)

lemma round_dec_0 [simp]: "round_dec n 0 = 0"
proof -
  have "round_he 0 = 0" using round_he_of_int [of 0] by simp
  then show ?thesis by (simp add: round_dec_def)
qed

lemma round_dec_int: "\<bar>k\<bar> \<le> 2 ^ 53 \<Longrightarrow> round_dec n (of_int k) = of_int k"
proof -
  assume k: "\<bar>k\<bar> \<le> 2 ^ 53"
  have "round_he (of_int k * 10 ^ n) = k * 10 ^ n"
    by (metis of_int_mult of_int_numeral of_int_power round_he_of_int)
  then show ?thesis using k by (simp add: round_dec_def fl_of_int)
qed

lemma round_dec_nonneg: "0 \<le> x \<Longrightarrow> 0 \<le> round_dec n x"
  using round_dec_mono [of 0 x n] by simp

section \<open>Text\<close>

datatype pyfloat = Fin rat | PosInf | NegInf | NotANumber

definition to_float :: "rat \<Rightarrow> pyfloat" where
  "to_float q = (let r = fl q in
     if pow2 1024 \<le> r then PosInf else if r \<le> - pow2 1024 then NegInf else Fin r)"

text \<open>For evaluation: the comparison with the largest float is left to large values.\<close>

lemma to_float_code [code]:
  "to_float q = (let r = fl q in
     if - 9007199254740992 < r \<and> r < 9007199254740992 then Fin r
     else if pow2 1024 \<le> r then PosInf else if r \<le> - pow2 1024 then NegInf else Fin r)"
proof -
  have "(9007199254740992 :: rat) \<le> pow2 1024"
    using pow2_mono [of 53 1024] by (simp add: pow2_def power_int_def)
  then show ?thesis by (simp add: to_float_def Let_def)
qed

definition opt_digits :: "string \<Rightarrow> bool" where
  "opt_digits s = (s = [] \<or> digits_ok s)"

definition parse_exp :: "string \<Rightarrow> int option" where
  "parse_exp s = (case s of [] \<Rightarrow> None
     | c # u \<Rightarrow> if c = CHR ''-'' then map_option uminus (parse_digits u)
               else if c = CHR ''+'' then parse_digits u else parse_digits s)"

definition pow10 :: "int \<Rightarrow> rat" where
  "pow10 e = 10 powi e"

definition parse_decimal :: "string \<Rightarrow> rat option" where
  "parse_decimal s = (let m = takeWhile (\<lambda>c. c \<noteq> CHR ''e'') s;
       ip = before_char CHR ''.'' m; fp = after_char CHR ''.'' m;
       e = (if CHR ''e'' \<in> set s then parse_exp (after_char CHR ''e'' s) else Some 0) in
     if opt_digits ip \<and> opt_digits fp \<and> (ip \<noteq> [] \<or> fp \<noteq> [])
     then map_option (\<lambda>k. of_int (digits_val 0 (filter is_decimal (ip @ fp)))
            * pow10 (k - int (length (filter is_decimal fp)))) e
     else None)"

text \<open>\<open>float(s)\<close> of a string; None is the ValueError.\<close>

definition float_of_str :: "string \<Rightarrow> pyfloat option" where
  "float_of_str s = (let t = lower (strip s);
       neg = (t \<noteq> [] \<and> hd t = CHR ''-'');
       u = (if t \<noteq> [] \<and> hd t \<in> {CHR ''-'', CHR ''+''} then tl t else t) in
     if u = ''inf'' \<or> u = ''infinity'' then Some (if neg then NegInf else PosInf)
     else if u = ''nan'' then Some NotANumber
     else map_option (\<lambda>q. to_float (if neg then - q else q)) (parse_decimal u))"

definition pad_left :: "nat \<Rightarrow> string \<Rightarrow> string" where
  "pad_left n s = replicate (n - length s) CHR ''0'' @ s"

text \<open>\<open>f"{x:.nf}"\<close>\<close>

definition format_f :: "nat \<Rightarrow> rat \<Rightarrow> string" where
  "format_f n x = (let m = round_he (\<bar>x\<bar> * 10 ^ n);
       ip = str_of_int (m div 10 ^ n); fp = pad_left n (str_of_int (m mod 10 ^ n)) in
     (if x < 0 then ''-'' else []) @ ip @ (if n = 0 then [] else CHR ''.'' # fp))"

definition ilog10 :: "rat \<Rightarrow> int" where
  "ilog10 x = (if 1 \<le> x then int (length (str_of_int \<lfloor>x\<rfloor>)) - 1
     else (let j = int (length (str_of_int \<lfloor>1 / x\<rfloor>)) in
           if x = pow10 (1 - j) then 1 - j else - j))"

text \<open>\<open>repr(x)\<close>: the fewest significant digits that read back as \<open>x\<close>, 17 at most.\<close>

definition sig_digits :: "nat \<Rightarrow> rat \<Rightarrow> int \<times> int" where
  "sig_digits n x = (let k = ilog10 x; m = round_he (x / pow10 (k + 1 - int n)) in
     if m = 10 ^ n then (10 ^ (n - 1), k + 1) else (m, k))"

definition sig_value :: "nat \<Rightarrow> rat \<Rightarrow> rat" where
  "sig_value n x = (case sig_digits n x of (m, k) \<Rightarrow> of_int m * pow10 (k + 1 - int n))"

definition repr_width :: "rat \<Rightarrow> nat" where
  "repr_width x = opt_default 17 (find (\<lambda>n. fl (sig_value n x) = x) [1..<17])"

definition repr_pos :: "rat \<Rightarrow> string" where
  "repr_pos x = (let n = repr_width x; (m, k) = sig_digits n x; ds = str_of_int m in
     if k < - 4 \<or> 16 \<le> k then
       [hd ds] @ (if tl ds = [] then [] else CHR ''.'' # tl ds) @ ''e''
         @ (if k < 0 then ''-'' else ''+'') @ pad_left 2 (str_of_int \<bar>k\<bar>)
     else if k < 0 then ''0.'' @ replicate (nat (- k) - 1) CHR ''0'' @ ds
     else if int n \<le> k + 1 then ds @ replicate (nat (k + 1) - n) CHR ''0'' @ ''.0''
     else take (nat (k + 1)) ds @ CHR ''.'' # drop (nat (k + 1)) ds)"

definition float_repr :: "rat \<Rightarrow> string" where
  "float_repr x = (if x = 0 then ''0.0'' else if x < 0 then CHR ''-'' # repr_pos (- x) else repr_pos x)"

end
