(* ===== verification/Config.thy ===== *)
theory Config
  imports PyFloat
begin

text \<open>
  \<open>app/config.py\<close>: the settings read from the environment when the application is
  imported, and the interface of the node the collectors run on. The environment, the file
  system, the commands and the clocks are the parameters of the model.
\<close>

section \<open>The host\<close>

text \<open>
  What the collectors observe, as one record. \<open>h_run\<close> is what \<open>run_command\<close> answers
  (stdout, stderr, exit status); a file or directory that cannot be read is None. \<open>h_now\<close> is
  the wall clock and \<open>h_mono\<close> the monotonic clock, in seconds.
\<close>

record host =
  h_run :: "string list \<Rightarrow> string \<times> string \<times> int"
  h_read :: "string \<Rightarrow> string option"
  h_glob :: "string \<Rightarrow> string list"
  h_listdir :: "string \<Rightarrow> string list option"
  h_readlink :: "string \<Rightarrow> string option"
  h_realpath :: "string \<Rightarrow> string"
  h_exists :: "string \<Rightarrow> bool"
  h_isfile :: "string \<Rightarrow> bool"
  h_env :: "string \<Rightarrow> string option"
  h_now :: rat
  h_mono :: rat

section \<open>Settings\<close>

record config =
  HOST_ROOT :: string
  HOST_PROC :: string
  HOST_SYS :: string
  CACHE_TTL :: int
  COMMAND_TIMEOUT :: pyfloat
  DMESG_WINDOW_HOURS :: int
  COUNTER_WINDOW_HOURS :: int
  SSH_ENABLED :: bool
  SSH_PORT :: int
  SSH_PASSWORD_AUTH :: bool
  SSH_AUTHORIZED_KEYS :: string
  AUTH_TOKEN :: string
  AUTH_USERNAME :: string
  AUTH_PASSWORD :: string

definition env_get :: "(string \<Rightarrow> string option) \<Rightarrow> string \<Rightarrow> string \<Rightarrow> string" where
  "env_get env name d = opt_default d (env name)"

definition env_bool :: "(string \<Rightarrow> string option) \<Rightarrow> string \<Rightarrow> string \<Rightarrow> bool" where
  "env_bool env name d =
     (lower (strip (env_get env name d)) \<in> {''1'', ''true'', ''yes'', ''on''})"

definition py_float :: "string \<Rightarrow> pyfloat result" where
  "py_float s = (case float_of_str s of
     None \<Rightarrow> Inl (Exn ValueError (''could not convert string to float: '' @ s))
   | Some f \<Rightarrow> Inr f)"

text \<open>Importing the module raises when a numeric setting is not a number.\<close>

definition load_config :: "(string \<Rightarrow> string option) \<Rightarrow> config result" where
  "load_config env =
     rbind (py_int (env_get env ''CACHE_TTL'' ''10'')) (\<lambda>ttl.
     rbind (py_float (env_get env ''COMMAND_TIMEOUT'' ''10'')) (\<lambda>tmo.
     rbind (py_int (env_get env ''DMESG_WINDOW_HOURS'' ''168'')) (\<lambda>dw.
     rbind (py_int (env_get env ''COUNTER_WINDOW_HOURS'' ''24'')) (\<lambda>cw.
     rbind (py_int (env_get env ''SSH_PORT'' ''2022'')) (\<lambda>port. Inr \<lparr>
       HOST_ROOT = env_get env ''HOST_ROOT'' ''/host'',
       HOST_PROC = env_get env ''HOST_PROC'' ''/host-proc'',
       HOST_SYS = env_get env ''HOST_SYS'' ''/sys'',
       CACHE_TTL = ttl,
       COMMAND_TIMEOUT = tmo,
       DMESG_WINDOW_HOURS = dw,
       COUNTER_WINDOW_HOURS = cw,
       SSH_ENABLED = env_bool env ''SSH_ENABLED'' ''false'',
       SSH_PORT = port,
       SSH_PASSWORD_AUTH = (env_bool env ''SSH_PASSWORD_AUTH'' ''false''
         \<and> strip (env_get env ''SSH_PASSWORD'' []) \<noteq> []),
       SSH_AUTHORIZED_KEYS = env_get env ''SSH_AUTHORIZED_KEYS'' [],
       AUTH_TOKEN = strip (env_get env ''AUTH_TOKEN'' []),
       AUTH_USERNAME = strip (env_get env ''AUTH_USERNAME'' ''debug''),
       AUTH_PASSWORD = strip (env_get env ''AUTH_PASSWORD'' []) \<rparr>)))))"

text \<open>Credentials never keep the newline a mounted Secret usually ends with.\<close>

lemma load_config_stripped:
  assumes "load_config env = Inr c"
  shows "is_stripped (AUTH_TOKEN c)" "is_stripped (AUTH_USERNAME c)" "is_stripped (AUTH_PASSWORD c)"
  using assms by (auto simp: load_config_def rbind_Inr_iff is_stripped_strip)

text \<open>Password logins over SSH are reported only when a password is actually set.\<close>

lemma load_config_ssh_password:
  assumes "load_config env = Inr c" "SSH_PASSWORD_AUTH c"
  shows "strip (env_get env ''SSH_PASSWORD'' []) \<noteq> []"
  using assms by (auto simp: load_config_def rbind_Inr_iff)

text \<open>The defaults of the settings, and a host on which nothing is found, for examples.\<close>

definition demo_config :: config where
  "demo_config = \<lparr>HOST_ROOT = ''/host'', HOST_PROC = ''/host-proc'', HOST_SYS = ''/sys'',
     CACHE_TTL = 10, COMMAND_TIMEOUT = Fin 10, DMESG_WINDOW_HOURS = 168,
     COUNTER_WINDOW_HOURS = 24, SSH_ENABLED = False, SSH_PORT = 2022,
     SSH_PASSWORD_AUTH = False, SSH_AUTHORIZED_KEYS = [], AUTH_TOKEN = [],
     AUTH_USERNAME = ''debug'', AUTH_PASSWORD = []\<rparr>"

definition null_host :: host where
  "null_host = \<lparr>h_run = (\<lambda>cmd. ([], [], - 1)), h_read = (\<lambda>_. None), h_glob = (\<lambda>_. []),
     h_listdir = (\<lambda>_. None), h_readlink = (\<lambda>_. None), h_realpath = (\<lambda>p. p),
     h_exists = (\<lambda>_. False), h_isfile = (\<lambda>_. False), h_env = (\<lambda>_. None), h_now = 0, h_mono = 0\<rparr>"

end
