(* ===== verification/Base.thy ===== *)
theory Base
  imports Config
begin

text \<open>
  \<open>app/collectors/base.py\<close> without its cache: running a command with a timeout and killing
  everything it forked, reading a file, and telling whether the pod shares the node's network
  namespace. The cache decorator is the theory \<open>Cache\<close>.
\<close>

section \<open>Running commands\<close>

text \<open>
  What the operating system does with one command: whether it starts, how waiting for it ends
  (\<open>Cut_short\<close> is any exception thrown into the wait, cancellation first of all), and how it
  answers a signal to its process group. \<open>px_running\<close> is \<open>proc.returncode is None\<close> at the
  time of the kill, \<open>px_killpg_fails\<close> that \<open>killpg\<close> raises ProcessLookupError or
  PermissionError.
\<close>

datatype wait_outcome =
    Completed string string "int option" | Timed_out | Cut_short exn

record proc_os =
  px_start :: "exn option"
  px_wait :: wait_outcome
  px_running :: bool
  px_killpg_fails :: bool

datatype proc_act =
    Spawn "string list" | Kill_group | Kill_pid | Await_exit | Close_transport

text \<open>The acts of \<open>_kill_group\<close>: a process that is already gone gets no signal.\<close>

definition kill_group :: "proc_os \<Rightarrow> proc_act list" where
  "kill_group px =
     (if \<not> px_running px then []
      else if px_killpg_fails px then [Kill_group, Kill_pid]
      else [Kill_group])"

definition close_transport :: "proc_os \<Rightarrow> proc_act list" where
  "close_transport px = [Close_transport]"

definition reap :: "proc_os \<Rightarrow> proc_act list" where
  "reap px = kill_group px @ [Await_exit] @ close_transport px"

definition run_command ::
  "proc_os \<Rightarrow> string list \<Rightarrow> (string \<times> string \<times> int) result \<times> proc_act list" where
  "run_command px cmd =
     (case px_start px of
        Some e \<Rightarrow>
          (if exn_cls e = FileNotFoundError
           then (Inr ([], ''Command not found: '' @ hd cmd, - 1), [])
           else if is_os_error e
           then (Inr ([], ''Command failed to start: '' @ hd cmd @ '': '' @ str_exn e, - 1), [])
           else (Inl e, []))
      | None \<Rightarrow>
          (case px_wait px of
             Completed out err rc \<Rightarrow> (Inr (out, err, opt_default 0 rc), [Spawn cmd])
           | Timed_out \<Rightarrow>
               (Inr ([], ''Command timed out: '' @ join '' '' cmd, - 1), Spawn cmd # reap px)
           | Cut_short e \<Rightarrow> (Inl e, Spawn cmd # kill_group px @ close_transport px)))"

text \<open>
  No outcome but a normal end leaves the process group alive or our end of its pipes open, and
  only a cancellation or an interpreter exit escapes as an exception.
\<close>

lemma run_command_no_orphan:
  assumes "run_command px cmd = (r, acts)" "Spawn cmd \<in> set acts" "px_running px"
    "\<nexists>out err rc. px_wait px = Completed out err rc"
  shows "Kill_group \<in> set acts \<and> Close_transport \<in> set acts"
  using assms
  by (auto simp: run_command_def reap_def kill_group_def close_transport_def
      split: option.splits wait_outcome.splits if_splits)

lemma run_command_error_status:
  assumes "run_command px cmd = (Inr (out, err, rc), acts)"
    "\<nexists>a b. px_wait px = Completed out a b"
  shows "out = [] \<and> rc = - 1 \<and> err \<noteq> []"
  using assms
  by (auto simp: run_command_def split: option.splits wait_outcome.splits if_splits)

section \<open>Files and namespaces\<close>

definition read_file :: "host \<Rightarrow> string \<Rightarrow> string" where
  "read_file h p = opt_default [] (h_read h p)"

definition in_host_network_namespace :: "config \<Rightarrow> host \<Rightarrow> bool" where
  "in_host_network_namespace cf h =
     (case (h_readlink h ''/proc/self/ns/net'', h_readlink h (HOST_PROC cf @ ''/1/ns/net'')) of
        (Some a, Some b) \<Rightarrow> a = b
      | _ \<Rightarrow> True)"

end
