(* ===== verification/Cache.thy ===== *)
theory Cache
  imports Base
begin

text \<open>
  \<open>ttl_cache\<close> of \<open>app/collectors/base.py\<close>: a cache shared by concurrent callers of one
  collector. The event loop runs one task at a time, so the state changes in atomic steps that
  begin where a task is resumed and end where it awaits or returns: a call up to its wait for
  the per-key lock or for the wrapped function, the wake-up of the first waiter of a free lock,
  the end of the wrapped function, a cancellation of a waiting task, \<open>cache_clear\<close>, and the
  passing of time. \<open>cstep\<close> is the step relation, \<open>creach\<close> its reachable states.
\<close>

section \<open>State\<close>

text \<open>The arguments of the decorator; \<open>p_cache_if\<close> is constantly true when there is none.\<close>

record 'v cparams =
  p_seconds :: rat
  p_maxsize :: nat
  p_cache_if :: "'v \<Rightarrow> bool"
  p_retry_after :: rat

datatype 'v outcome = Returned 'v | RaisedExn exn

text \<open>Where a task is: queued for a lock (with its key and arrival time), awaiting the wrapped
  function while it holds the lock, or done.\<close>

datatype 'v task_pc = Waiting string rat nat | Running string rat nat | Finished "'v outcome"

text \<open>
  \<open>c_cache\<close>, \<open>c_locks\<close> and \<open>c_failures\<close> are the three dicts of the closure. A lock object is
  a number; \<open>c_owner\<close> and \<open>c_queue\<close> are its holder and its waiters, first come first served.
  \<open>c_log\<close> records every completed computation with its time; the code does not keep it.
\<close>

record 'v cstate =
  c_cache :: "(string, 'v \<times> rat) dict"
  c_locks :: "(string, nat) dict"
  c_failures :: "(string, exn \<times> rat) dict"
  c_next :: nat
  c_owner :: "nat \<Rightarrow> nat option"
  c_queue :: "nat \<Rightarrow> nat list"
  c_pc :: "nat \<Rightarrow> 'v task_pc option"
  c_now :: rat
  c_log :: "(string \<times> 'v \<times> rat) list"

definition cinit :: "'v cstate" where
  "cinit = \<lparr>c_cache = [], c_locks = [], c_failures = [], c_next = 0, c_owner = (\<lambda>_. None),
     c_queue = (\<lambda>_. []), c_pc = (\<lambda>_. None), c_now = 0, c_log = []\<rparr>"

section \<open>Operations\<close>

definition fresh :: "'v cstate \<Rightarrow> string \<Rightarrow> 'v option" where
  "fresh st key = (case dget (c_cache st) key of
     None \<Rightarrow> None | Some (v, expires) \<Rightarrow> if c_now st < expires then Some v else None)"

definition finish :: "nat \<Rightarrow> 'v outcome \<Rightarrow> 'v cstate \<Rightarrow> 'v cstate" where
  "finish t r st = st\<lparr>c_pc := (c_pc st)(t := Some (Finished r))\<rparr>"

definition release :: "nat \<Rightarrow> 'v cstate \<Rightarrow> 'v cstate" where
  "release l st = st\<lparr>c_owner := (c_owner st)(l := None)\<rparr>"

definition shared_failure :: "'v cstate \<Rightarrow> string \<Rightarrow> rat \<Rightarrow> exn option" where
  "shared_failure st key arrived = (case dget (c_failures st) key of
     None \<Rightarrow> None | Some (e, raised) \<Rightarrow> if arrived \<le> raised then Some e else None)"

text \<open>The body of \<open>async with lock\<close> up to the call of the wrapped function.\<close>

definition locked_body :: "nat \<Rightarrow> string \<Rightarrow> rat \<Rightarrow> nat \<Rightarrow> 'v cstate \<Rightarrow> 'v cstate" where
  "locked_body t key arrived l st =
     (case fresh st key of
        Some v \<Rightarrow> finish t (Returned v) (release l st)
      | None \<Rightarrow>
          (case shared_failure st key arrived of
             Some e \<Rightarrow> finish t (RaisedExn e) (release l st)
           | None \<Rightarrow> st\<lparr>c_pc := (c_pc st)(t := Some (Running key arrived l))\<rparr>))"

definition acquire :: "nat \<Rightarrow> nat \<Rightarrow> 'v cstate \<Rightarrow> 'v cstate" where
  "acquire t l st = st\<lparr>c_owner := (c_owner st)(l := Some t)\<rparr>"

text \<open>\<open>locks.setdefault(key, asyncio.Lock())\<close>\<close>

definition lock_for :: "string \<Rightarrow> 'v cstate \<Rightarrow> nat \<times> 'v cstate" where
  "lock_for key st = (case dget (c_locks st) key of
     Some l \<Rightarrow> (l, st)
   | None \<Rightarrow> (c_next st, st\<lparr>c_locks := dset key (c_next st) (c_locks st), c_next := Suc (c_next st)\<rparr>))"

definition call_wrapper :: "nat \<Rightarrow> string \<Rightarrow> 'v cstate \<Rightarrow> 'v cstate" where
  "call_wrapper t key st =
     (case fresh st key of
        Some v \<Rightarrow> finish t (Returned v) st
      | None \<Rightarrow>
          (let arrived = c_now st; l = fst (lock_for key st); st1 = snd (lock_for key st) in
           if c_owner st1 l = None \<and> c_queue st1 l = []
           then locked_body t key arrived l (acquire t l st1)
           else st1\<lparr>c_queue := (c_queue st1)(l := c_queue st1 l @ [t]),
                    c_pc := (c_pc st1)(t := Some (Waiting key arrived l))\<rparr>))"

definition wake_waiter :: "nat \<Rightarrow> string \<Rightarrow> rat \<Rightarrow> nat \<Rightarrow> 'v cstate \<Rightarrow> 'v cstate" where
  "wake_waiter t key arrived l st =
     locked_body t key arrived l (acquire t l (st\<lparr>c_queue := (c_queue st)(l := tl (c_queue st l))\<rparr>))"

text \<open>The entry a dict would drop first: least expiry, or least failure time.\<close>

definition oldest :: "(string, 'a \<times> rat) dict \<Rightarrow> string option" where
  "oldest d = map_option fst (argmin (\<lambda>p. snd (snd p)) d)"

definition evict_cache :: "nat \<Rightarrow> 'v cstate \<Rightarrow> 'v cstate" where
  "evict_cache m st =
     (if m < length (c_cache st) then
        (case oldest (c_cache st) of None \<Rightarrow> st
         | Some k \<Rightarrow> st\<lparr>c_cache := dpop k (c_cache st), c_locks := dpop k (c_locks st)\<rparr>)
      else st)"

definition evict_failures :: "nat \<Rightarrow> 'v cstate \<Rightarrow> 'v cstate" where
  "evict_failures m st =
     (if m < length (c_failures st) then
        (case oldest (c_failures st) of None \<Rightarrow> st
         | Some k \<Rightarrow> st\<lparr>c_failures := dpop k (c_failures st)\<rparr>)
      else st)"

definition entry_ttl :: "'v cparams \<Rightarrow> 'v \<Rightarrow> rat" where
  "entry_ttl p v =
     (if p_cache_if p v then p_seconds p else min (p_seconds p) (p_retry_after p))"

definition store_result :: "'v cparams \<Rightarrow> string \<Rightarrow> 'v \<Rightarrow> 'v cstate \<Rightarrow> 'v cstate" where
  "store_result p key v st =
     evict_failures (p_maxsize p) (evict_cache (p_maxsize p)
       (st\<lparr>c_failures := dpop key (c_failures st),
           c_cache := dset key (v, c_now st + entry_ttl p v) (c_cache st),
           c_log := c_log st @ [(key, v, c_now st)]\<rparr>))"

definition func_returns :: "'v cparams \<Rightarrow> nat \<Rightarrow> string \<Rightarrow> nat \<Rightarrow> 'v \<Rightarrow> 'v cstate \<Rightarrow> 'v cstate" where
  "func_returns p t key l v st = finish t (Returned v) (release l (store_result p key v st))"

definition func_raises :: "nat \<Rightarrow> string \<Rightarrow> nat \<Rightarrow> exn \<Rightarrow> 'v cstate \<Rightarrow> 'v cstate" where
  "func_raises t key l e st = finish t (RaisedExn e) (release l
     (if is_exception e then st\<lparr>c_failures := dset key (e, c_now st) (c_failures st)\<rparr> else st))"

definition cancel_waiter :: "nat \<Rightarrow> nat \<Rightarrow> 'v cstate \<Rightarrow> 'v cstate" where
  "cancel_waiter t l st = finish t (RaisedExn (Exn CancelledError []))
     (st\<lparr>c_queue := (c_queue st)(l := filter (\<lambda>u. u \<noteq> t) (c_queue st l))\<rparr>)"

definition cache_clear :: "'v cstate \<Rightarrow> 'v cstate" where
  "cache_clear st = st\<lparr>c_cache := [], c_locks := [], c_failures := []\<rparr>"

section \<open>Steps\<close>

datatype 'v cevent =
    Call nat string | Wake nat | Returns nat 'v | Raises nat exn | Cancel nat | Tick rat | Clear

inductive cstep :: "'v cparams \<Rightarrow> 'v cevent \<Rightarrow> 'v cstate \<Rightarrow> 'v cstate \<Rightarrow> bool" for p where
  call: "c_pc st t = None \<Longrightarrow> cstep p (Call t key) st (call_wrapper t key st)"
| wake: "c_pc st t = Some (Waiting key arrived l) \<Longrightarrow> c_owner st l = None \<Longrightarrow>
     c_queue st l = t # ts \<Longrightarrow> cstep p (Wake t) st (wake_waiter t key arrived l st)"
| returns: "c_pc st t = Some (Running key arrived l) \<Longrightarrow>
     cstep p (Returns t v) st (func_returns p t key l v st)"
| raises: "c_pc st t = Some (Running key arrived l) \<Longrightarrow>
     cstep p (Raises t e) st (func_raises t key l e st)"
| cancel: "c_pc st t = Some (Waiting key arrived l) \<Longrightarrow>
     cstep p (Cancel t) st (cancel_waiter t l st)"
| tick: "0 \<le> d \<Longrightarrow> cstep p (Tick d) st (st\<lparr>c_now := c_now st + d\<rparr>)"
| clear: "cstep p Clear st (cache_clear st)"

inductive_cases cstep_callE: "cstep p (Call t key) st st'"
inductive_cases cstep_wakeE: "cstep p (Wake t) st st'"
inductive_cases cstep_returnsE: "cstep p (Returns t v) st st'"
inductive_cases cstep_raisesE: "cstep p (Raises t e) st st'"

text \<open>Reachable states, by events a predicate allows.\<close>

inductive creach :: "'v cparams \<Rightarrow> ('v cevent \<Rightarrow> bool) \<Rightarrow> 'v cstate \<Rightarrow> bool" for p allowed where
  init: "creach p allowed cinit"
| step: "creach p allowed st \<Longrightarrow> allowed ev \<Longrightarrow> cstep p ev st st' \<Longrightarrow> creach p allowed st'"

lemma creach_call:
  "creach p allowed st \<Longrightarrow> c_pc st t = None \<Longrightarrow> allowed (Call t key) \<Longrightarrow>
     creach p allowed (call_wrapper t key st)"
  by (rule creach.step [OF _ _ cstep.call])

lemma creach_returns:
  "creach p allowed st \<Longrightarrow> c_pc st t = Some (Running key a l) \<Longrightarrow> allowed (Returns t v) \<Longrightarrow>
     creach p allowed (func_returns p t key l v st)"
  by (rule creach.step [OF _ _ cstep.returns])

lemma creach_raises:
  "creach p allowed st \<Longrightarrow> c_pc st t = Some (Running key a l) \<Longrightarrow> allowed (Raises t e) \<Longrightarrow>
     creach p allowed (func_raises t key l e st)"
  by (rule creach.step [OF _ _ cstep.raises])

lemma creach_tick:
  "creach p allowed st \<Longrightarrow> 0 \<le> d \<Longrightarrow> allowed (Tick d) \<Longrightarrow>
     creach p allowed (st\<lparr>c_now := c_now st + d\<rparr>)"
  by (rule creach.step [OF _ _ cstep.tick])

section \<open>What each operation leaves alone\<close>

lemmas cache_ops = call_wrapper_def wake_waiter_def func_returns_def func_raises_def
  cancel_waiter_def cache_clear_def locked_body_def lock_for_def acquire_def release_def finish_def
  store_result_def evict_cache_def evict_failures_def

lemma evict_frame [simp]:
  "c_owner (evict_cache m st) = c_owner st" "c_owner (evict_failures m st) = c_owner st"
  "c_queue (evict_cache m st) = c_queue st" "c_queue (evict_failures m st) = c_queue st"
  "c_pc (evict_cache m st) = c_pc st" "c_pc (evict_failures m st) = c_pc st"
  "c_now (evict_cache m st) = c_now st" "c_now (evict_failures m st) = c_now st"
  "c_log (evict_cache m st) = c_log st" "c_log (evict_failures m st) = c_log st"
  "c_next (evict_cache m st) = c_next st" "c_next (evict_failures m st) = c_next st"
  "c_cache (evict_failures m st) = c_cache st" "c_locks (evict_failures m st) = c_locks st"
  "c_failures (evict_cache m st) = c_failures st"
  by (auto simp: evict_cache_def evict_failures_def split: option.splits)

lemma store_frame [simp]:
  "c_owner (store_result p key v st) = c_owner st" "c_queue (store_result p key v st) = c_queue st"
  "c_pc (store_result p key v st) = c_pc st" "c_now (store_result p key v st) = c_now st"
  "c_log (store_result p key v st) = c_log st @ [(key, v, c_now st)]"
  by (simp_all add: store_result_def)

lemma locked_body_frame [simp]:
  "c_cache (locked_body t key a l st) = c_cache st" "c_locks (locked_body t key a l st) = c_locks st"
  "c_failures (locked_body t key a l st) = c_failures st"
  "c_queue (locked_body t key a l st) = c_queue st" "c_now (locked_body t key a l st) = c_now st"
  "c_log (locked_body t key a l st) = c_log st" "c_next (locked_body t key a l st) = c_next st"
  by (simp_all add: locked_body_def finish_def release_def split: option.splits)

lemma acquire_frame [simp]:
  "c_cache (acquire t l st) = c_cache st" "c_locks (acquire t l st) = c_locks st"
  "c_failures (acquire t l st) = c_failures st" "c_queue (acquire t l st) = c_queue st"
  "c_now (acquire t l st) = c_now st" "c_log (acquire t l st) = c_log st"
  "c_pc (acquire t l st) = c_pc st" "c_owner (acquire t l st) = (c_owner st)(l := Some t)"
  by (simp_all add: acquire_def)

lemma finish_release_frame [simp]:
  "c_cache (finish t r st) = c_cache st" "c_cache (release l st) = c_cache st"
  "c_locks (finish t r st) = c_locks st" "c_locks (release l st) = c_locks st"
  "c_failures (finish t r st) = c_failures st" "c_failures (release l st) = c_failures st"
  "c_log (finish t r st) = c_log st" "c_log (release l st) = c_log st"
  "c_now (finish t r st) = c_now st" "c_now (release l st) = c_now st"
  by (simp_all add: finish_def release_def)

lemma call_wrapper_frame [simp]:
  "c_cache (call_wrapper t key st) = c_cache st" "c_failures (call_wrapper t key st) = c_failures st"
  "c_now (call_wrapper t key st) = c_now st" "c_log (call_wrapper t key st) = c_log st"
  by (auto simp: call_wrapper_def lock_for_def Let_def split: option.splits)

lemma wake_waiter_frame [simp]:
  "c_cache (wake_waiter t key a l st) = c_cache st" "c_locks (wake_waiter t key a l st) = c_locks st"
  "c_failures (wake_waiter t key a l st) = c_failures st"
  "c_now (wake_waiter t key a l st) = c_now st" "c_log (wake_waiter t key a l st) = c_log st"
  by (simp_all add: wake_waiter_def)

section \<open>The cache is bounded\<close>

lemma oldest_in: "d \<noteq> [] \<Longrightarrow> \<exists>k. oldest d = Some k \<and> k \<in> set (dkeys d)"
proof -
  assume "d \<noteq> []"
  then obtain q where "argmin (\<lambda>p. snd (snd p)) d = Some q"
    by (metis argmin_None not_Some_eq)
  then show ?thesis by (auto simp: oldest_def dkeys_def dest: argmin_in)
qed

lemma evict_cache_bound:
  assumes "dwf (c_cache st)" "length (c_cache st) \<le> Suc m"
  shows "length (c_cache (evict_cache m st)) \<le> m"
proof (cases "m < length (c_cache st)")
  case True
  then obtain k where "oldest (c_cache st) = Some k" "k \<in> set (dkeys (c_cache st))"
    using oldest_in [of "c_cache st"] by force
  then show ?thesis
    using True assms dict.length_pop [OF assms(1), of k] by (simp add: evict_cache_def)
qed (simp add: evict_cache_def)

definition cache_ok :: "'v cparams \<Rightarrow> 'v cstate \<Rightarrow> bool" where
  "cache_ok p st = (dwf (c_cache st) \<and> length (c_cache st) \<le> p_maxsize p)"

lemma store_result_cache_ok: "cache_ok p st \<Longrightarrow> cache_ok p (store_result p key v st)"
  unfolding cache_ok_def store_result_def
  by (auto intro!: evict_cache_bound order_trans [OF length_dset_le])
     (auto simp: evict_cache_def split: option.splits)

lemma cstep_cache_ok: "cstep p ev st st' \<Longrightarrow> cache_ok p st \<Longrightarrow> cache_ok p st'"
proof (induction rule: cstep.induct)
  case (returns st t key arrived l v)
  then show ?case
    using store_result_cache_ok [of p st key v] by (simp add: func_returns_def cache_ok_def)
qed (auto simp: cache_ok_def func_raises_def cancel_waiter_def cache_clear_def)

lemma creach_cache_ok: "creach p allowed st \<Longrightarrow> cache_ok p st"
  by (induction rule: creach.induct) (auto simp: cache_ok_def cinit_def dest: cstep_cache_ok [unfolded cache_ok_def])

section \<open>Locks\<close>

text \<open>
  The discipline of the locks, in every reachable state. A running task holds its lock. A queued
  task waits for that lock and queued at or before the present time, once. Each lock object ever
  created serves one key, \<open>kf\<close>.
\<close>

definition owner_ok :: "'v cstate \<Rightarrow> bool" where
  "owner_ok st = (\<forall>t key a l. c_pc st t = Some (Running key a l) \<longrightarrow> c_owner st l = Some t)"

definition queue_ok :: "'v cstate \<Rightarrow> bool" where
  "queue_ok st = (\<forall>l. distinct (c_queue st l) \<and>
     (\<forall>t \<in> set (c_queue st l). \<exists>key a. c_pc st t = Some (Waiting key a l) \<and> a \<le> c_now st))"

definition lock_of_pc :: "'v task_pc \<Rightarrow> (string \<times> nat) option" where
  "lock_of_pc q = (case q of Waiting key a l \<Rightarrow> Some (key, l) | Running key a l \<Rightarrow> Some (key, l)
     | Finished r \<Rightarrow> None)"

definition keyed_by :: "(nat \<Rightarrow> string) \<Rightarrow> 'v cstate \<Rightarrow> bool" where
  "keyed_by kf st =
     ((\<forall>key l. dget (c_locks st) key = Some l \<longrightarrow> kf l = key \<and> l < c_next st) \<and>
      (\<forall>t q key l. c_pc st t = Some q \<and> lock_of_pc q = Some (key, l) \<longrightarrow> kf l = key \<and> l < c_next st))"

definition locks_ok :: "'v cstate \<Rightarrow> bool" where
  "locks_ok st = (owner_ok st \<and> queue_ok st \<and> (\<exists>kf. keyed_by kf st))"

lemma lock_of_pc_simps [simp]:
  "lock_of_pc (Waiting key a l) = Some (key, l)" "lock_of_pc (Running key a l) = Some (key, l)"
  "lock_of_pc (Finished r) = None"
  by (simp_all add: lock_of_pc_def)

text \<open>What a task that got the lock does: it is finished and the lock free, or it runs.\<close>

lemma locked_body_cases:
  obtains (fin) r where "c_pc (locked_body t key a l st) = (c_pc st)(t := Some (Finished r))"
      "c_owner (locked_body t key a l st) = (c_owner st)(l := None)"
  | (run) "c_pc (locked_body t key a l st) = (c_pc st)(t := Some (Running key a l))"
      "c_owner (locked_body t key a l st) = c_owner st"
proof (cases "fresh st key = None \<and> shared_failure st key a = None")
  case True
  then show ?thesis by (intro run) (simp_all add: locked_body_def)
next
  case False
  then have "\<exists>r. locked_body t key a l st = finish t r (release l st)"
    by (auto simp: locked_body_def split: option.splits)
  then obtain r where "locked_body t key a l st = finish t r (release l st)" ..
  then show ?thesis by (intro fin) (simp_all add: finish_def release_def)
qed

lemma owner_ok_locked_body:
  assumes "owner_ok st" "c_owner st l = None" "c_pc st t = None \<or> (\<exists>k b m. c_pc st t = Some (Waiting k b m))"
  shows "owner_ok (locked_body t key a l (acquire t l st))"
proof (cases rule: locked_body_cases [of t key a l "acquire t l st"])
  case (fin r)
  then show ?thesis using assms unfolding owner_ok_def by (auto simp: fun_upd_def split: if_splits)
next
  case run
  then show ?thesis using assms unfolding owner_ok_def by (auto simp: fun_upd_def split: if_splits)
qed

lemma lock_for_frame [simp]:
  "c_pc (snd (lock_for key st)) = c_pc st" "c_owner (snd (lock_for key st)) = c_owner st"
  "c_queue (snd (lock_for key st)) = c_queue st" "c_now (snd (lock_for key st)) = c_now st"
  "c_cache (snd (lock_for key st)) = c_cache st"
  by (auto simp: lock_for_def split: option.splits)

lemma cstep_owner_ok: "cstep p ev st st' \<Longrightarrow> owner_ok st \<Longrightarrow> owner_ok st'"
proof (induction rule: cstep.induct)
  case (call st t key)
  show ?case
  proof (cases "fresh st key = None \<and> c_owner st (fst (lock_for key st)) = None
      \<and> c_queue st (fst (lock_for key st)) = []")
    case True
    then show ?thesis
      using call owner_ok_locked_body [of "snd (lock_for key st)"]
      by (simp add: call_wrapper_def Let_def owner_ok_def)
  next
    case False
    then show ?thesis
      using call by (auto simp: call_wrapper_def Let_def owner_ok_def finish_def split: option.splits)
  qed
next
  case (wake st t key arrived l ts)
  then show ?case
    unfolding wake_waiter_def
    by (intro owner_ok_locked_body) (auto simp: owner_ok_def)
next
  case (returns st t key arrived l v)
  then show ?case
    by (simp add: owner_ok_def func_returns_def finish_def release_def) (metis option.inject)
next
  case (raises st t key arrived l e)
  then show ?case
    by (simp add: owner_ok_def func_raises_def finish_def release_def) (metis option.inject)
qed (auto simp: owner_ok_def cancel_waiter_def finish_def cache_clear_def)

lemma queue_ok_distinct: "queue_ok st \<Longrightarrow> distinct (c_queue st l)"
  by (simp add: queue_ok_def)

lemma queue_ok_waiting:
  "queue_ok st \<Longrightarrow> t \<in> set (c_queue st l) \<Longrightarrow>
     \<exists>key a. c_pc st t = Some (Waiting key a l) \<and> a \<le> c_now st"
  by (simp add: queue_ok_def)

lemma queue_okI:
  assumes "\<And>l. distinct (c_queue st l)"
    "\<And>l t. t \<in> set (c_queue st l) \<Longrightarrow> \<exists>key a. c_pc st t = Some (Waiting key a l) \<and> a \<le> c_now st"
  shows "queue_ok st"
  using assms by (simp add: queue_ok_def)

text \<open>
  Two operations change queues and waiting tasks: joining the end of a queue with a fresh task
  and leaving it; every other step keeps waiting tasks as they are.
\<close>

lemma queue_ok_pc:
  assumes "queue_ok st" "c_queue st' = c_queue st" "c_now st \<le> c_now st'"
    "\<And>u k a l. c_pc st u = Some (Waiting k a l) \<Longrightarrow> c_pc st' u = Some (Waiting k a l)"
  shows "queue_ok st'"
proof (rule queue_okI)
  fix l t
  show "distinct (c_queue st' l)" using assms(1,2) by (simp add: queue_ok_distinct)
  assume "t \<in> set (c_queue st' l)"
  then have "t \<in> set (c_queue st l)" using assms(2) by simp
  from queue_ok_waiting [OF assms(1) this] obtain key a where
    "c_pc st t = Some (Waiting key a l)" "a \<le> c_now st" by blast
  then show "\<exists>key a. c_pc st' t = Some (Waiting key a l) \<and> a \<le> c_now st'"
    using assms(3,4) by (meson order_trans)
qed

text \<open>A task in no queue may change its state freely.\<close>

lemma queue_ok_unqueued:
  assumes "queue_ok st" "c_queue st' = c_queue st" "c_now st' = c_now st"
    "\<And>m. t \<notin> set (c_queue st m)" "\<And>u. u \<noteq> t \<Longrightarrow> c_pc st' u = c_pc st u"
  shows "queue_ok st'"
proof (rule queue_okI)
  fix l u
  show "distinct (c_queue st' l)" using assms(1,2) by (simp add: queue_ok_distinct)
  assume "u \<in> set (c_queue st' l)"
  then have u: "u \<in> set (c_queue st l)" using assms(2) by simp
  then have "u \<noteq> t" using assms(4) by blast
  then show "\<exists>key a. c_pc st' u = Some (Waiting key a l) \<and> a \<le> c_now st'"
    using queue_ok_waiting [OF assms(1) u] assms(3,5) by simp
qed

lemma queue_ok_locked_body:
  assumes "queue_ok st" "\<And>m. t \<notin> set (c_queue st m)"
  shows "queue_ok (locked_body t key a l (acquire t l st))"
proof (rule queue_ok_unqueued [OF assms(1)])
  fix u assume "u \<noteq> t"
  then show "c_pc (locked_body t key a l (acquire t l st)) u = c_pc st u"
    by (cases rule: locked_body_cases [of t key a l "acquire t l st"]) simp_all
qed (use assms(2) in auto)

lemma queue_ok_not_queued:
  assumes "queue_ok st" "\<nexists>k a l. c_pc st t = Some (Waiting k a l)"
  shows "t \<notin> set (c_queue st m)"
  using assms queue_ok_waiting by blast

lemma queue_ok_join:
  assumes "queue_ok st" "c_pc st t = None" "c_queue st' = (c_queue st)(l := c_queue st l @ [t])"
    "c_pc st' = (c_pc st)(t := Some (Waiting key (c_now st) l))" "c_now st' = c_now st"
  shows "queue_ok st'"
proof (rule queue_okI)
  fix m u
  have out: "t \<notin> set (c_queue st m)" for m
    using assms(1,2) by (intro queue_ok_not_queued) simp_all
  then show "distinct (c_queue st' m)"
    using queue_ok_distinct [OF assms(1)] assms(3) by simp
  assume "u \<in> set (c_queue st' m)"
  then consider "u = t" "m = l" | "u \<noteq> t" "u \<in> set (c_queue st m)"
    using assms(3) out by (auto split: if_splits)
  then show "\<exists>key a. c_pc st' u = Some (Waiting key a m) \<and> a \<le> c_now st'"
    by cases (use queue_ok_waiting [OF assms(1), of u m] assms(4,5) in auto)
qed

lemma queue_ok_leave:
  assumes "queue_ok st" "c_pc st t = Some (Waiting key a l)"
  shows "queue_ok (st\<lparr>c_queue := (c_queue st)(l := filter (\<lambda>u. u \<noteq> t) (c_queue st l))\<rparr>)"
    and "t \<notin> set (((c_queue st)(l := filter (\<lambda>u. u \<noteq> t) (c_queue st l))) m)"
proof -
  show "queue_ok (st\<lparr>c_queue := (c_queue st)(l := filter (\<lambda>u. u \<noteq> t) (c_queue st l))\<rparr>)"
    using queue_ok_distinct [OF assms(1)] queue_ok_waiting [OF assms(1)]
    by (intro queue_okI) (simp_all split: if_splits)
  show "t \<notin> set (((c_queue st)(l := filter (\<lambda>u. u \<noteq> t) (c_queue st l))) m)"
    using queue_ok_waiting [OF assms(1), of t m] assms(2) by auto
qed

lemma queue_head_filter:
  "queue_ok st \<Longrightarrow> c_queue st l = t # ts \<Longrightarrow> filter (\<lambda>u. u \<noteq> t) (c_queue st l) = ts"
  using queue_ok_distinct [of st l] by (auto simp: filter_id_conv)

lemma cstep_queue_ok: "cstep p ev st st' \<Longrightarrow> queue_ok st \<Longrightarrow> queue_ok st'"
proof (induction rule: cstep.induct)
  case (call st t key)
  define l where "l = fst (lock_for key st)"
  have out: "t \<notin> set (c_queue st m)" for m
    using call by (intro queue_ok_not_queued) auto
  have ok1: "queue_ok (snd (lock_for key st))"
    using call by - (rule queue_ok_pc [of st], auto)
  have "queue_ok (snd (lock_for key st)\<lparr>c_queue := (c_queue st)(l := c_queue st l @ [t]),
      c_pc := (c_pc st)(t := Some (Waiting key (c_now st) l))\<rparr>)"
    using call by - (rule queue_ok_join [of st t], auto)
  moreover have "queue_ok (finish t r st)" for r
    using call by - (rule queue_ok_pc [of st], auto simp: finish_def)
  ultimately show ?case
    using queue_ok_locked_body [OF ok1] out
    by (simp add: call_wrapper_def Let_def l_def split: option.splits)
next
  case (wake st t key arrived l ts)
  have tl: "tl (c_queue st l) = filter (\<lambda>u. u \<noteq> t) (c_queue st l)"
    using wake queue_head_filter by fastforce
  show ?case
    unfolding wake_waiter_def tl
    using wake queue_ok_leave [of st t key arrived l]
    by (intro queue_ok_locked_body) auto
next
  case (returns st t key arrived l v)
  then show ?case
    by - (rule queue_ok_pc [of st], auto simp: func_returns_def finish_def release_def)
next
  case (raises st t key arrived l e)
  then show ?case
    by - (rule queue_ok_pc [of st], auto simp: func_raises_def finish_def release_def)
next
  case (cancel st t key arrived l)
  define st1 where "st1 = st\<lparr>c_queue := (c_queue st)(l := filter (\<lambda>u. u \<noteq> t) (c_queue st l))\<rparr>"
  have "queue_ok st1" "\<And>m. t \<notin> set (c_queue st1 m)"
    using queue_ok_leave [OF cancel(2,1)] by (simp_all add: st1_def)
  then show ?case
    unfolding cancel_waiter_def st1_def [symmetric]
    by - (rule queue_ok_unqueued [of st1 _ t], simp_all add: finish_def)
next
  case (tick d st)
  then show ?case by - (rule queue_ok_pc [of st], auto)
next
  case (clear st)
  then show ?case by - (rule queue_ok_pc [of st], auto simp: cache_clear_def)
qed

text \<open>One lock object serves one key.\<close>

lemma keyed_by_pc:
  "keyed_by kf st \<Longrightarrow> c_pc st t = Some q \<Longrightarrow> lock_of_pc q = Some (key, l) \<Longrightarrow>
     kf l = key \<and> l < c_next st"
  by (simp add: keyed_by_def)

lemma keyed_by_lock: "keyed_by kf st \<Longrightarrow> dget (c_locks st) key = Some l \<Longrightarrow> kf l = key \<and> l < c_next st"
  by (simp add: keyed_by_def)

lemma keyed_byI:
  assumes "\<And>key l. dget (c_locks st) key = Some l \<Longrightarrow> kf l = key \<and> l < c_next st"
    "\<And>t q key l. c_pc st t = Some q \<Longrightarrow> lock_of_pc q = Some (key, l) \<Longrightarrow> kf l = key \<and> l < c_next st"
  shows "keyed_by kf st"
  unfolding keyed_by_def using assms by blast

lemma keyed_by_cong:
  assumes "keyed_by kf st" "c_next st \<le> c_next st'"
    "\<And>key l. dget (c_locks st') key = Some l \<Longrightarrow> dget (c_locks st) key = Some l"
    "\<And>t q key l. c_pc st' t = Some q \<Longrightarrow> lock_of_pc q = Some (key, l) \<Longrightarrow>
       \<exists>u q'. c_pc st u = Some q' \<and> lock_of_pc q' = Some (key, l)"
  shows "keyed_by kf st'"
proof (rule keyed_byI)
  fix key l assume "dget (c_locks st') key = Some l"
  then show "kf l = key \<and> l < c_next st'"
    using keyed_by_lock [OF assms(1)] assms(2,3) by (meson order_less_le_trans)
next
  fix t q key l assume "c_pc st' t = Some q" "lock_of_pc q = Some (key, l)"
  then show "kf l = key \<and> l < c_next st'"
    using keyed_by_pc [OF assms(1)] assms(2,4) by (meson order_less_le_trans)
qed

lemma keyed_by_put:
  assumes "keyed_by kf st" "c_locks st' = c_locks st" "c_next st' = c_next st"
    "kf l = key" "l < c_next st"
    "c_pc st' = (c_pc st)(t := Some q)" "lock_of_pc q = Some (key, l) \<or> lock_of_pc q = None"
  shows "keyed_by kf st'"
  using assms unfolding keyed_by_def by (auto split: if_splits)

lemma keyed_by_locked_body:
  assumes "keyed_by kf st" "kf l = key" "l < c_next st"
  shows "keyed_by kf (locked_body t key a l (acquire t l st))"
proof (cases rule: locked_body_cases [of t key a l "acquire t l st"])
  case (fin r)
  then show ?thesis using assms by - (rule keyed_by_put [of kf st], auto simp: acquire_def)
next
  case run
  then show ?thesis using assms by - (rule keyed_by_put [of kf st], auto simp: acquire_def)
qed

lemma keyed_by_lock_for:
  assumes "keyed_by kf st"
  obtains kf' where "keyed_by kf' (snd (lock_for key st))" "kf' (fst (lock_for key st)) = key"
    "fst (lock_for key st) < c_next (snd (lock_for key st))"
proof (cases "dget (c_locks st) key")
  case None
  define kf' where "kf' = kf(c_next st := key)"
  have "keyed_by kf' (snd (lock_for key st))"
  proof (rule keyed_byI)
    fix k l assume "dget (c_locks (snd (lock_for key st))) k = Some l"
    then show "kf' l = k \<and> l < c_next (snd (lock_for key st))"
      using None keyed_by_lock [OF assms, of k l]
      by (auto simp: lock_for_def kf'_def split: if_splits)
  next
    fix t q k l assume "c_pc (snd (lock_for key st)) t = Some q" "lock_of_pc q = Some (k, l)"
    then show "kf' l = k \<and> l < c_next (snd (lock_for key st))"
      using None keyed_by_pc [OF assms, of t q k l] by (auto simp: lock_for_def kf'_def)
  qed
  then show ?thesis using that None by (simp add: lock_for_def kf'_def)
next
  case (Some l)
  then show ?thesis using that [of kf] assms by (auto simp: lock_for_def keyed_by_def)
qed

lemma cstep_keyed: "cstep p ev st st' \<Longrightarrow> \<exists>kf. keyed_by kf st \<Longrightarrow> \<exists>kf. keyed_by kf st'"
proof (induction rule: cstep.induct)
  case (call st t key)
  then obtain kf where "keyed_by kf st" by blast
  then obtain kf' where kf': "keyed_by kf' (snd (lock_for key st))" "kf' (fst (lock_for key st)) = key"
    "fst (lock_for key st) < c_next (snd (lock_for key st))" by (rule keyed_by_lock_for)
  have "keyed_by kf (finish t r st)" if "keyed_by kf st" for r
    using that by - (rule keyed_by_cong [OF that], auto simp: finish_def split: if_splits)
  moreover have "keyed_by kf' (snd (lock_for key st)\<lparr>c_queue := q,
      c_pc := (c_pc st)(t := Some (Waiting key (c_now st) (fst (lock_for key st))))\<rparr>)" for q
    using kf' by - (rule keyed_by_put [OF kf'(1)], auto)
  moreover have "keyed_by kf' (locked_body t key (c_now st) (fst (lock_for key st))
      (acquire t (fst (lock_for key st)) (snd (lock_for key st))))"
    using kf' by (intro keyed_by_locked_body)
  ultimately show ?case
    using \<open>keyed_by kf st\<close> by (auto simp: call_wrapper_def Let_def split: option.splits)
next
  case (wake st t key arrived l ts)
  then obtain kf where kf: "keyed_by kf st" by blast
  then have "kf l = key" "l < c_next st" using wake keyed_by_pc [OF kf wake(1)] by auto
  moreover have "keyed_by kf (st\<lparr>c_queue := q\<rparr>)" for q using kf by (simp add: keyed_by_def)
  ultimately show ?case
    unfolding wake_waiter_def by (intro exI [of _ kf] keyed_by_locked_body) auto
next
  case (returns st t key arrived l v)
  then obtain kf where "keyed_by kf st" by blast
  then have "keyed_by kf (func_returns p t key l v st)"
    by (rule keyed_by_cong) (auto simp: func_returns_def finish_def release_def store_result_def
        evict_cache_def split: if_splits option.splits)
  then show ?case by blast
next
  case (raises st t key arrived l e)
  then obtain kf where "keyed_by kf st" by blast
  then have "keyed_by kf (func_raises t key l e st)"
    by (rule keyed_by_cong) (auto simp: func_raises_def finish_def release_def split: if_splits)
  then show ?case by blast
next
  case (cancel st t key arrived l)
  then obtain kf where "keyed_by kf st" by blast
  then have "keyed_by kf (cancel_waiter t l st)"
    by (rule keyed_by_cong) (auto simp: cancel_waiter_def finish_def split: if_splits)
  then show ?case by blast
qed (auto simp: keyed_by_def cache_clear_def)

lemma creach_locks_ok: "creach p allowed st \<Longrightarrow> locks_ok st"
proof (induction rule: creach.induct)
  case init
  have "keyed_by (\<lambda>_. []) cinit" by (simp add: keyed_by_def cinit_def)
  then show ?case by (auto simp: locks_ok_def owner_ok_def queue_ok_def cinit_def)
next
  case (step st ev st')
  then show ?case
    unfolding locks_ok_def using cstep_owner_ok cstep_queue_ok cstep_keyed by blast
qed

section \<open>Freshness\<close>

text \<open>Every entry was computed by the wrapped function, and expires its time to live later.\<close>

definition entries_ok :: "'v cparams \<Rightarrow> 'v cstate \<Rightarrow> bool" where
  "entries_ok p st = (\<forall>key v e. dget (c_cache st) key = Some (v, e) \<longrightarrow>
     (\<exists>t0. (key, v, t0) \<in> set (c_log st) \<and> e = t0 + entry_ttl p v \<and> t0 \<le> c_now st))"

lemma entries_okD:
  "entries_ok p st \<Longrightarrow> dget (c_cache st) key = Some (v, e) \<Longrightarrow>
     \<exists>t0. (key, v, t0) \<in> set (c_log st) \<and> e = t0 + entry_ttl p v \<and> t0 \<le> c_now st"
  by (simp add: entries_ok_def)

lemma entries_ok_store: "entries_ok p st \<Longrightarrow> entries_ok p (store_result p key v st)"
proof -
  assume ok: "entries_ok p st"
  define st1 where "st1 = st\<lparr>c_failures := dpop key (c_failures st),
      c_cache := dset key (v, c_now st + entry_ttl p v) (c_cache st),
      c_log := c_log st @ [(key, v, c_now st)]\<rparr>"
  have "entries_ok p st1"
    using entries_okD [OF ok] unfolding entries_ok_def st1_def by auto
  then have "entries_ok p (evict_cache m st1)" for m
    by (auto simp: entries_ok_def evict_cache_def split: option.splits)
  then show ?thesis by (simp add: entries_ok_def store_result_def st1_def)
qed

lemma cstep_entries_ok: "cstep p ev st st' \<Longrightarrow> entries_ok p st \<Longrightarrow> entries_ok p st'"
proof (induction rule: cstep.induct)
  case (returns st t key arrived l v)
  then show ?case
    using entries_ok_store [of p st key v] by (simp add: func_returns_def entries_ok_def)
next
  case (tick d st)
  then show ?case by (simp add: entries_ok_def) (meson add_increasing2)
qed (simp_all add: entries_ok_def func_raises_def cancel_waiter_def cache_clear_def)

lemma creach_entries_ok: "creach p allowed st \<Longrightarrow> entries_ok p st"
  by (induction rule: creach.induct)
     (auto simp: entries_ok_def cinit_def dest: cstep_entries_ok [unfolded entries_ok_def])

text \<open>The key a task is asking for when it takes a step.\<close>

definition asks :: "'v cstate \<Rightarrow> 'v cevent \<Rightarrow> nat \<Rightarrow> string \<Rightarrow> bool" where
  "asks st ev t key =
     (ev = Call t key \<or> (\<exists>q l. c_pc st t = Some q \<and> lock_of_pc q = Some (key, l)))"

lemma fresh_logged:
  assumes "entries_ok p st" "fresh st key = Some v"
  shows "\<exists>t0. (key, v, t0) \<in> set (c_log st) \<and> c_now st < t0 + entry_ttl p v"
  using assms(2) entries_okD [OF assms(1)]
  by (fastforce simp: fresh_def split: option.splits if_splits)

lemma locked_body_answer:
  assumes "c_pc (locked_body t key a l st) u = Some (Finished (Returned v))"
    "c_pc st u \<noteq> Some (Finished (Returned v))"
  shows "u = t \<and> fresh st key = Some v"
  using assms by (auto simp: locked_body_def finish_def release_def split: option.splits if_splits)

lemma fresh_cong: "c_cache st = c_cache st' \<Longrightarrow> c_now st = c_now st' \<Longrightarrow> fresh st key = fresh st' key"
  by (simp add: fresh_def split: option.splits)

lemma fresh_frame [simp]:
  "fresh (acquire t l st) key = fresh st key" "fresh (st\<lparr>c_queue := q\<rparr>) key = fresh st key"
  "fresh (snd (lock_for k st)) key = fresh st key" "fresh (release l st) key = fresh st key"
  "fresh (finish t r st) key = fresh st key" "fresh (locked_body t k a l st) key = fresh st key"
  by (rule fresh_cong; simp)+

text \<open>What a call that ends with a value has found.\<close>

lemma call_answer:
  assumes "creach p allowed st" "cstep p ev st st'"
    "c_pc st t \<noteq> Some (Finished (Returned v))" "c_pc st' t = Some (Finished (Returned v))"
  shows "\<exists>key t0. asks st ev t key \<and> (key, v, t0) \<in> set (c_log st') \<and>
    (t0 = c_now st' \<and> ev = Returns t v \<or> c_now st' < t0 + entry_ttl p v)"
  using assms(2)
proof cases
  case (call u key)
  have "u = t \<and> fresh st key = Some v"
    using assms(3,4) call(2)
    by (auto simp: call_wrapper_def Let_def finish_def split: option.splits if_splits
        dest!: locked_body_answer)
  then show ?thesis
    using fresh_logged [OF creach_entries_ok [OF assms(1)]] call by (auto simp: asks_def)
next
  case (wake u key arrived l ts)
  have "u = t \<and> fresh st key = Some v"
    using assms(3,4) wake(2) by (auto simp: wake_waiter_def dest!: locked_body_answer)
  then show ?thesis
    using fresh_logged [OF creach_entries_ok [OF assms(1)]] wake by (auto simp: asks_def)
next
  case (returns u key arrived l w)
  then show ?thesis
    using assms(3,4) by (auto simp: asks_def func_returns_def finish_def release_def split: if_splits)
next
  case (raises u key arrived l e)
  then show ?thesis
    using assms(3,4) by (auto simp: func_raises_def finish_def release_def split: if_splits)
next
  case (cancel u key arrived l)
  then show ?thesis using assms(3,4) by (auto simp: cancel_waiter_def finish_def split: if_splits)
next
  case (tick d)
  then show ?thesis using assms(3,4) by simp
next
  case clear
  then show ?thesis using assms(3,4) by (simp add: cache_clear_def)
qed

text \<open>
  C15: Whenever a call of a cached collector is answered, the answer is a result of the wrapped
  function for the same key: either the one this very call has just computed, or one still
  within the time to live its own \<open>cache_if\<close> verdict gives it. A stale entry is never served,
  and no entry is served to another key.
\<close>

theorem cache_answers_fresh:
  assumes "creach p allowed st" "cstep p ev st st'"
    "c_pc st t \<noteq> Some (Finished (Returned v))" "c_pc st' t = Some (Finished (Returned v))"
  shows "\<exists>key t0. asks st ev t key \<and> (key, v, t0) \<in> set (c_log st') \<and>
    (t0 = c_now st' \<and> ev = Returns t v \<or> c_now st' < t0 + entry_ttl p v)"
  by (rule call_answer [OF assms])

definition demo_params :: "nat \<Rightarrow> int cparams" where
  "demo_params m = \<lparr>p_seconds = 1, p_maxsize = m, p_cache_if = (\<lambda>v. 0 < v), p_retry_after = 10\<rparr>"

lemma demo_first_call:
  "creach p (\<lambda>_. True) (call_wrapper 0 ''a'' (cinit :: int cstate))"
  "c_pc (call_wrapper 0 ''a'' (cinit :: int cstate)) 0 = Some (Running ''a'' 0 0)"
proof -
  show "creach p (\<lambda>_. True) (call_wrapper 0 ''a'' (cinit :: int cstate))"
    by (rule creach.step [OF creach.init _ cstep.call]) (simp_all add: cinit_def)
  show "c_pc (call_wrapper 0 ''a'' (cinit :: int cstate)) 0 = Some (Running ''a'' 0 0)"
    by (simp add: cache_ops fresh_def shared_failure_def cinit_def)
qed

theorem cache_answers_fresh_witness:
  "\<exists>key t0. asks (call_wrapper 0 ''a'' (cinit :: int cstate)) (Returns 0 5) 0 key \<and>
     (key, 5, t0) \<in> set (c_log (func_returns (demo_params 4) 0 ''a'' 0 5 (call_wrapper 0 ''a'' cinit)))"
proof -
  let ?st = "call_wrapper 0 ''a'' (cinit :: int cstate)"
  let ?st' = "func_returns (demo_params 4) 0 ''a'' 0 5 ?st"
  have "cstep (demo_params 4) (Returns 0 5) ?st ?st'"
    by (rule cstep.returns [OF demo_first_call(2)])
  moreover have "c_pc ?st' 0 = Some (Finished (Returned 5))"
    by (simp add: func_returns_def finish_def)
  ultimately show ?thesis
    using cache_answers_fresh [OF demo_first_call(1), of "demo_params 4" "Returns 0 5" ?st' 0 5]
    by (auto simp: demo_first_call)
qed

section \<open>One computation at a time\<close>

text \<open>
  Events that call the collector with keys of \<open>K\<close> only and never clear the cache. While the
  keys in use fit into the cache nothing is evicted, and every queued or running task is on the
  lock its key has in the dict.
\<close>

definition narrow :: "string set \<Rightarrow> 'v cevent \<Rightarrow> bool" where
  "narrow K ev = (case ev of Call t key \<Rightarrow> key \<in> K | Clear \<Rightarrow> False | _ \<Rightarrow> True)"

definition on_lock :: "string set \<Rightarrow> 'v cstate \<Rightarrow> bool" where
  "on_lock K st = (set (dkeys (c_cache st)) \<subseteq> K \<and>
     (\<forall>t q key l. c_pc st t = Some q \<and> lock_of_pc q = Some (key, l) \<longrightarrow>
        key \<in> K \<and> dget (c_locks st) key = Some l))"

lemma on_lock_pc:
  "on_lock K st \<Longrightarrow> c_pc st t = Some q \<Longrightarrow> lock_of_pc q = Some (key, l) \<Longrightarrow>
     key \<in> K \<and> dget (c_locks st) key = Some l"
  by (simp add: on_lock_def)

lemma on_lock_cong:
  assumes "on_lock K st" "c_locks st' = c_locks st" "set (dkeys (c_cache st')) \<subseteq> K"
    "\<And>t q key l. c_pc st' t = Some q \<Longrightarrow> lock_of_pc q = Some (key, l) \<Longrightarrow>
       \<exists>u q'. c_pc st u = Some q' \<and> lock_of_pc q' = Some (key, l)"
  shows "on_lock K st'"
  unfolding on_lock_def using assms(3) on_lock_pc [OF assms(1)] assms(2,4) by metis

lemma on_lock_keys: "on_lock K st \<Longrightarrow> set (dkeys (c_cache st)) \<subseteq> K"
  by (simp add: on_lock_def)

lemma on_lock_put:
  assumes "on_lock K st" "c_locks st' = c_locks st" "c_cache st' = c_cache st" "key \<in> K"
    "dget (c_locks st) key = Some l" "c_pc st' = (c_pc st)(t := Some q)"
    "lock_of_pc q = Some (key, l) \<or> lock_of_pc q = None"
  shows "on_lock K st'"
  using assms unfolding on_lock_def by (auto split: if_splits)

lemma on_lock_locked_body:
  assumes "on_lock K st" "key \<in> K" "dget (c_locks st) key = Some l"
  shows "on_lock K (locked_body t key a l (acquire t l st))"
proof (cases rule: locked_body_cases [of t key a l "acquire t l st"])
  case (fin r)
  then show ?thesis using assms by - (rule on_lock_put [of K st], auto simp: acquire_def)
next
  case run
  then show ?thesis using assms by - (rule on_lock_put [of K st], auto simp: acquire_def)
qed

lemma on_lock_lock_for:
  assumes "on_lock K st"
  shows "on_lock K (snd (lock_for key st))"
    and "dget (c_locks (snd (lock_for key st))) key = Some (fst (lock_for key st))"
  using assms by (auto simp: lock_for_def on_lock_def split: option.splits)

lemma store_result_no_evict:
  assumes "dwf (c_cache st)" "set (dkeys (c_cache st)) \<subseteq> K" "key \<in> K" "finite K"
    "card K \<le> p_maxsize p"
  shows "c_locks (store_result p key v st) = c_locks st"
    and "set (dkeys (c_cache (store_result p key v st))) \<subseteq> K"
proof -
  define d where "d = dset key (v, c_now st + entry_ttl p v) (c_cache st)"
  have keys: "set (dkeys d) \<subseteq> K" using assms(2,3) by (simp add: d_def dict.set_keys_put)
  have "length (dkeys d) \<le> p_maxsize p"
    using assms keys by (intro dict.length_bounded_by_universe [of d K]) (simp_all add: d_def)
  then have "evict_cache (p_maxsize p) (st\<lparr>c_failures := f, c_cache := d, c_log := g\<rparr>)
      = st\<lparr>c_failures := f, c_cache := d, c_log := g\<rparr>" for f g
    by (simp add: evict_cache_def)
  then show "c_locks (store_result p key v st) = c_locks st"
    "set (dkeys (c_cache (store_result p key v st))) \<subseteq> K"
    using keys by (simp_all add: store_result_def d_def)
qed

lemma cstep_on_lock:
  assumes "finite K" "card K \<le> p_maxsize p"
  shows "cstep p ev st st' \<Longrightarrow> narrow K ev \<Longrightarrow> dwf (c_cache st) \<Longrightarrow> on_lock K st \<Longrightarrow> on_lock K st'"
proof (induction rule: cstep.induct)
  case (call st t key)
  note lf = on_lock_lock_for [OF call(4), of key]
  have K: "key \<in> K" using call(2) by (simp add: narrow_def)
  have "on_lock K (finish t r st)" for r
    using call by - (rule on_lock_cong [of K st],
        auto simp: finish_def on_lock_keys dest: on_lock_keys split: if_splits)
  moreover have "on_lock K (snd (lock_for key st)\<lparr>c_queue := q,
      c_pc := (c_pc st)(t := Some (Waiting key (c_now st) (fst (lock_for key st))))\<rparr>)" for q
    using lf K by - (rule on_lock_put [OF lf(1)], auto)
  ultimately show ?case
    using on_lock_locked_body [OF lf(1) K lf(2)]
    by (simp add: call_wrapper_def Let_def split: option.splits)
next
  case (wake st t key arrived l ts)
  then have "key \<in> K" "dget (c_locks st) key = Some l" using on_lock_pc [OF wake(6) wake(1)] by auto
  moreover have "on_lock K (st\<lparr>c_queue := q\<rparr>)" for q using wake(6) by (simp add: on_lock_def)
  ultimately show ?case
    unfolding wake_waiter_def by (intro on_lock_locked_body) auto
next
  case (returns st t key arrived l v)
  have "key \<in> K" using on_lock_pc [OF returns(4) returns(1)] by auto
  then have "c_locks (store_result p key v st) = c_locks st"
    "set (dkeys (c_cache (store_result p key v st))) \<subseteq> K"
    using store_result_no_evict [OF returns(3) on_lock_keys [OF returns(4)] _ assms] by blast+
  then show ?case
    using returns(4) by - (rule on_lock_cong [of K st],
        auto simp: func_returns_def finish_def release_def split: if_splits)
next
  case (raises st t key arrived l e)
  then show ?case
    by - (rule on_lock_cong [of K st],
        auto simp: func_raises_def finish_def release_def dest: on_lock_keys split: if_splits)
next
  case (cancel st t key arrived l)
  then show ?case
    by - (rule on_lock_cong [of K st],
        auto simp: cancel_waiter_def finish_def dest: on_lock_keys split: if_splits)
qed (auto simp: on_lock_def narrow_def)

lemma creach_on_lock:
  assumes "finite K" "card K \<le> p_maxsize p"
  shows "creach p (narrow K) st \<Longrightarrow> on_lock K st"
proof (induction rule: creach.induct)
  case init
  then show ?case by (simp add: on_lock_def cinit_def dkeys_def)
next
  case (step st ev st')
  then show ?case
    using cstep_on_lock [OF assms] creach_cache_ok [of p "narrow K" st] by (auto simp: cache_ok_def)
qed

text \<open>
  C6: Single flight. As long as the keys a collector is called with fit into its cache and the
  cache is not cleared, the wrapped function never runs twice at a time for one key: callers
  that arrive while an entry is stale queue behind the first one.
\<close>

theorem cache_single_flight:
  assumes "finite K" "card K \<le> p_maxsize p" "creach p (narrow K) st"
    "c_pc st t = Some (Running key a l)" "c_pc st u = Some (Running key b m)"
  shows "t = u"
proof -
  note ol = on_lock_pc [OF creach_on_lock [OF assms(1-3)]]
  have "l = m" using ol [OF assms(4)] ol [OF assms(5)] by simp
  moreover have "owner_ok st" using creach_locks_ok [OF assms(3)] by (simp add: locks_ok_def)
  ultimately show ?thesis using assms(4,5) unfolding owner_ok_def by (metis option.inject)
qed

lemma demo_second_call:
  "c_pc (call_wrapper 1 ''a'' (call_wrapper 0 ''a'' (cinit :: int cstate))) 0 = Some (Running ''a'' 0 0)"
  "c_pc (call_wrapper 1 ''a'' (call_wrapper 0 ''a'' (cinit :: int cstate))) 1 = Some (Waiting ''a'' 0 0)"
  by (simp_all add: cache_ops fresh_def shared_failure_def cinit_def)

theorem cache_single_flight_witness:
  "{u. \<exists>b m. c_pc (call_wrapper 1 ''a'' (call_wrapper 0 ''a'' (cinit :: int cstate))) u
      = Some (Running ''a'' b m)} = {0}"
proof -
  let ?st = "call_wrapper 0 ''a'' (cinit :: int cstate)"
  let ?st2 = "call_wrapper 1 ''a'' ?st"
  have "creach (demo_params 4) (narrow {''a''}) ?st"
    by (rule creach.step [OF creach.init _ cstep.call]) (simp_all add: cinit_def narrow_def)
  moreover have "c_pc ?st 1 = None"
    by (simp add: cache_ops fresh_def shared_failure_def cinit_def)
  ultimately have r: "creach (demo_params 4) (narrow {''a''}) ?st2"
    by - (rule creach_call, simp_all add: narrow_def)
  have "u = 0" if "c_pc ?st2 u = Some (Running ''a'' b m)" for u b m
    by (rule cache_single_flight [of "{''a''}" "demo_params 4", OF _ _ r that demo_second_call(1)])
       (simp_all add: demo_params_def)
  then show ?thesis using demo_second_call(1) by blast
qed

section \<open>Callers queued behind one computation share its end\<close>

text \<open>The waiters of a lock, woken one after the other with nothing else happening.\<close>

definition wake_head :: "nat \<Rightarrow> 'v cstate \<Rightarrow> 'v cstate" where
  "wake_head l st = (case c_queue st l of [] \<Rightarrow> st
     | t # ts \<Rightarrow> (case c_pc st t of
         Some (Waiting key arrived m) \<Rightarrow> wake_waiter t key arrived m st
       | _ \<Rightarrow> st))"

fun wake_all :: "nat \<Rightarrow> nat \<Rightarrow> 'v cstate \<Rightarrow> 'v cstate" where
  "wake_all 0 l st = st"
| "wake_all (Suc n) l st = wake_all n l (wake_head l st)"

lemma shared_failure_frame [simp]:
  "shared_failure (acquire t l st) key a = shared_failure st key a"
  "shared_failure (st\<lparr>c_queue := q\<rparr>) key a = shared_failure st key a"
  "shared_failure (locked_body t k b l st) key a = shared_failure st key a"
  by (simp_all add: shared_failure_def)

text \<open>What a queue of waiters finds when the entry or a failure already decides their answer.\<close>

definition decided :: "'v outcome \<Rightarrow> string \<Rightarrow> nat \<Rightarrow> 'v cstate \<Rightarrow> bool" where
  "decided r key l st = (c_owner st l = None \<and> distinct (c_queue st l) \<and>
     (\<forall>t \<in> set (c_queue st l). \<exists>a. c_pc st t = Some (Waiting key a l) \<and>
        (case fresh st key of Some v \<Rightarrow> r = Returned v
         | None \<Rightarrow> \<exists>e. shared_failure st key a = Some e \<and> r = RaisedExn e)))"

lemma wake_head_decided:
  assumes "decided r key l st" "c_queue st l = t # ts"
  shows "decided r key l (wake_head l st)" "c_queue (wake_head l st) l = ts"
    "c_pc (wake_head l st) = (c_pc st)(t := Some (Finished r))" "c_log (wake_head l st) = c_log st"
proof -
  obtain a where pc: "c_pc st t = Some (Waiting key a l)"
    and ans: "case fresh st key of Some v \<Rightarrow> r = Returned v
      | None \<Rightarrow> \<exists>e. shared_failure st key a = Some e \<and> r = RaisedExn e"
    using assms unfolding decided_def by auto
  define st1 where "st1 = st\<lparr>c_queue := (c_queue st)(l := ts)\<rparr>"
  have wh: "wake_head l st = locked_body t key a l (acquire t l st1)"
    using assms(2) pc by (simp add: wake_head_def wake_waiter_def st1_def)
  also have "\<dots> = finish t r (release l (acquire t l st1))"
    using ans by (auto simp: locked_body_def st1_def split: option.splits)
  finally have eq: "wake_head l st = finish t r (release l (acquire t l st1))" .
  show "c_pc (wake_head l st) = (c_pc st)(t := Some (Finished r))"
    "c_queue (wake_head l st) l = ts" "c_log (wake_head l st) = c_log st"
    by (simp_all add: eq finish_def release_def acquire_def st1_def)
  have fs: "fresh (wake_head l st) key = fresh st key"
    "shared_failure (wake_head l st) key b = shared_failure st key b" for b
    by (simp_all add: wh st1_def)
  have pcs: "c_pc (wake_head l st) = (c_pc st)(t := Some (Finished r))"
    "c_queue (wake_head l st) l = ts" "c_owner (wake_head l st) l = None"
    by (simp_all add: eq finish_def release_def acquire_def st1_def)
  have "t \<notin> set ts" "distinct ts" using assms unfolding decided_def by auto
  then show "decided r key l (wake_head l st)"
    using assms unfolding decided_def fs pcs by auto
qed

lemma wake_all_decided:
  assumes "decided r key l st" "c_queue st l = ts"
  shows "c_log (wake_all (length ts) l st) = c_log st \<and> c_queue (wake_all (length ts) l st) l = []
    \<and> (\<forall>t \<in> set ts. c_pc (wake_all (length ts) l st) t = Some (Finished r))
    \<and> (\<forall>t. t \<notin> set ts \<longrightarrow> c_pc (wake_all (length ts) l st) t = c_pc st t)"
  using assms
proof (induction ts arbitrary: st)
  case Nil
  then show ?case by simp
next
  case (Cons t ts)
  note w = wake_head_decided [OF Cons.prems]
  have "t \<notin> set ts" using Cons.prems by (auto simp: decided_def)
  then show ?case using Cons.IH [OF w(1,2)] w(3,4) by auto
qed

lemma locks_ok_queue:
  assumes "locks_ok st" "c_pc st t = Some (Running key a l)" "u \<in> set (c_queue st l)"
  shows "\<exists>b. c_pc st u = Some (Waiting key b l) \<and> b \<le> c_now st"
proof -
  obtain kf where kf: "keyed_by kf st" and q: "queue_ok st"
    using assms(1) by (auto simp: locks_ok_def)
  obtain k b where u: "c_pc st u = Some (Waiting k b l)" "b \<le> c_now st"
    using queue_ok_waiting [OF q assms(3)] by blast
  have "k = key"
    using keyed_by_pc [OF kf u(1)] keyed_by_pc [OF kf assms(2)] by auto
  then show ?thesis using u by blast
qed

text \<open>
  C17: A failing collector fails once for everybody. When the wrapped function raises while
  callers are queued behind it (and nobody has refreshed the entry meanwhile), every one of
  them, woken in turn, ends with that same exception, and none starts the work again.
\<close>

theorem cache_failure_shared:
  assumes "creach p allowed st" "c_pc st t = Some (Running key a l)" "is_exception e"
    "fresh st key = None" "c_queue st l = ts"
  shows "(\<forall>u \<in> insert t (set ts).
      c_pc (wake_all (length ts) l (func_raises t key l e st)) u = Some (Finished (RaisedExn e))) \<and>
    c_log (wake_all (length ts) l (func_raises t key l e st)) = c_log st"
proof -
  let ?st1 = "func_raises t key l e st"
  have ok: "locks_ok st" by (rule creach_locks_ok [OF assms(1)])
  then have q: "queue_ok st" by (simp add: locks_ok_def)
  have out: "t \<notin> set ts"
    using queue_ok_not_queued [OF q, of t l] assms(2,5) by simp
  have "fresh ?st1 key = fresh st key"
    by (rule fresh_cong) (simp_all add: func_raises_def)
  then have fr: "fresh ?st1 key = None" using assms(4) by simp
  have sf: "shared_failure ?st1 key b = Some e" if "b \<le> c_now st" for b
    using that assms(3) by (simp add: func_raises_def shared_failure_def)
  have pcs: "c_pc ?st1 = (c_pc st)(t := Some (Finished (RaisedExn e)))"
    "c_queue ?st1 = c_queue st" "c_owner ?st1 l = None" "c_log ?st1 = c_log st"
    using assms(3) by (simp_all add: func_raises_def finish_def release_def)
  have "decided (RaisedExn e) key l ?st1"
    unfolding decided_def
  proof (intro conjI ballI)
    show "c_owner ?st1 l = None" by (rule pcs(3))
    show "distinct (c_queue ?st1 l)" using queue_ok_distinct [OF q] pcs(2) by simp
    fix u assume "u \<in> set (c_queue ?st1 l)"
    then have "u \<in> set (c_queue st l)" "u \<noteq> t" using pcs(2) out assms(5) by auto
    with locks_ok_queue [OF ok assms(2)] obtain b
      where "c_pc st u = Some (Waiting key b l)" "b \<le> c_now st" by blast
    then show "\<exists>a. c_pc ?st1 u = Some (Waiting key a l) \<and>
        (case fresh ?st1 key of Some v \<Rightarrow> RaisedExn e = Returned v
         | None \<Rightarrow> \<exists>e'. shared_failure ?st1 key a = Some e' \<and> RaisedExn e = RaisedExn e')"
      using sf fr pcs(1) \<open>u \<noteq> t\<close> by auto
  qed
  from wake_all_decided [OF this, of ts] show ?thesis
    using pcs assms(5) out by auto
qed

lemma demo_two_calls:
  "creach p (\<lambda>_. True) (call_wrapper 1 ''a'' (call_wrapper 0 ''a'' (cinit :: int cstate)))"
  by (intro creach_call creach.init) (simp_all add: cache_ops fresh_def shared_failure_def cinit_def)

theorem cache_failure_shared_witness:
  "c_pc (wake_all 1 0 (func_raises 0 ''a'' 0 (Exn OSError [])
     (call_wrapper 1 ''a'' (call_wrapper 0 ''a'' (cinit :: int cstate))))) 1
   = Some (Finished (RaisedExn (Exn OSError [])))"
proof -
  let ?st = "call_wrapper 1 ''a'' (call_wrapper 0 ''a'' (cinit :: int cstate))"
  have "is_exception (Exn OSError [])" "fresh ?st ''a'' = None" "c_queue ?st 0 = [1]"
    by (simp_all add: is_exception_def cache_ops fresh_def shared_failure_def cinit_def)
  from cache_failure_shared [OF demo_two_calls demo_second_call(1) this]
  show ?thesis by simp
qed

section \<open>Where the bounds of the cache do not reach\<close>

text \<open>
  A run of failing calls, each with a key of its own: \<open>n\<close> calls, each of which starts the wrapped
  function and gets its exception.
\<close>

definition nth_key :: "nat \<Rightarrow> string" where
  "nth_key n = replicate n CHR ''a''"

fun failing_run :: "nat \<Rightarrow> 'v cstate" where
  "failing_run 0 = cinit"
| "failing_run (Suc n) = func_raises n (nth_key n) n (Exn OSError [])
     (call_wrapper n (nth_key n) (failing_run n))"

lemma nth_key_eq [simp]: "nth_key m = nth_key n \<longleftrightarrow> m = n"
  by (metis length_replicate nth_key_def)

lemma dset_new: "dget d k = None \<Longrightarrow> dset k v d = d @ [(k, v)]"
  by (induction k v d rule: dset.induct) (auto split: if_splits)

lemma dget_nth_keys: "dget (map (\<lambda>i. (nth_key i, f i)) [0..<n]) (nth_key n) = None"
  by (auto simp: dget_def map_of_eq_None_iff)

lemma failing_run_state:
  "c_cache (failing_run n :: 'v cstate) = [] \<and> c_next (failing_run n :: 'v cstate) = n
   \<and> c_locks (failing_run n :: 'v cstate) = map (\<lambda>i. (nth_key i, i)) [0..<n]
   \<and> c_failures (failing_run n :: 'v cstate) = map (\<lambda>i. (nth_key i, (Exn OSError [], 0))) [0..<n]
   \<and> c_owner (failing_run n :: 'v cstate) = (\<lambda>_. None) \<and> c_queue (failing_run n :: 'v cstate) = (\<lambda>_. [])
   \<and> c_now (failing_run n :: 'v cstate) = 0
   \<and> (\<forall>t. n \<le> t \<longrightarrow> c_pc (failing_run n :: 'v cstate) t = None)
   \<and> creach p (\<lambda>_. True) (failing_run n :: 'v cstate)"
proof (induction n)
  case 0
  then show ?case by (simp add: cinit_def creach.init [unfolded cinit_def])
next
  case (Suc n)
  let ?st = "failing_run n :: 'v cstate"
  let ?st1 = "call_wrapper n (nth_key n) ?st"
  have st1: "?st1 = ?st\<lparr>c_locks := c_locks ?st @ [(nth_key n, n)], c_next := Suc n,
      c_owner := (c_owner ?st)(n := Some n),
      c_pc := (c_pc ?st)(n := Some (Running (nth_key n) 0 n))\<rparr>"
    using Suc by (simp add: cache_ops fresh_def shared_failure_def dset_new dget_nth_keys)
  have "creach p (\<lambda>_. True) ?st1" using Suc by (intro creach_call) auto
  moreover have "c_pc ?st1 n = Some (Running (nth_key n) 0 n)" by (simp add: st1)
  ultimately have "creach p (\<lambda>_. True) (failing_run (Suc n) :: 'v cstate)"
    unfolding failing_run.simps by (rule creach_raises) simp
  then show ?case
    using Suc by (simp add: st1 func_raises_def is_exception_def finish_def release_def dset_new dget_nth_keys)
qed

text \<open>
  The \<open>maxsize\<close> of \<open>ttl_cache\<close> bounds its entries only. The failures of a collector that
  keeps failing under new keys, and the locks of those keys, are never dropped: for every number
  there is a run that has collected that many of both, whatever the bound.
\<close>

theorem cache_failures_unbounded:
  "\<exists>st :: 'v cstate. creach p (\<lambda>_. True) st \<and> c_cache st = [] \<and>
     length (c_failures st) = n \<and> length (c_locks st) = n"
  using failing_run_state [of n p] by (intro exI [of _ "failing_run n"]) simp

section \<open>The bound of the entries, and what evicting an entry costs\<close>

text \<open>
  Whatever callers, wake-ups, failures, cancellations and clears happen, and in whatever
  order, a cache never holds more than \<open>maxsize\<close> entries, and no key has two.
\<close>

theorem cache_bounded:
  assumes "creach p allowed st"
  shows "length (c_cache st) \<le> p_maxsize p \<and> distinct (dkeys (c_cache st))"
  using creach_cache_ok [OF assms] by (simp add: cache_ok_def dwf_def dkeys_def)

text \<open>
  Evicting an entry drops the lock of its key too, even when a task is computing that key under
  it. A run of a cache of one entry: the entry of a key expires and is being recomputed, another
  key is stored, and a second call for the first key finds no lock.
\<close>

definition evicting_run :: "nat \<Rightarrow> int cstate" where
  "evicting_run n = fold (\<lambda>f. f) (take n
     [call_wrapper 0 ''a'', func_returns (demo_params 1) 0 ''a'' 0 1,
      (\<lambda>st. st\<lparr>c_now := c_now st + 2\<rparr>), call_wrapper 1 ''a'', call_wrapper 2 ''b'',
      func_returns (demo_params 1) 2 ''b'' 1 1, call_wrapper 3 ''a'']) cinit"

lemma evicting_run_simps:
  "evicting_run 1 = call_wrapper 0 ''a'' cinit"
  "evicting_run 2 = func_returns (demo_params 1) 0 ''a'' 0 1 (evicting_run 1)"
  "evicting_run 3 = (evicting_run 2)\<lparr>c_now := c_now (evicting_run 2) + 2\<rparr>"
  "evicting_run 4 = call_wrapper 1 ''a'' (evicting_run 3)"
  "evicting_run 5 = call_wrapper 2 ''b'' (evicting_run 4)"
  "evicting_run 6 = func_returns (demo_params 1) 2 ''b'' 1 1 (evicting_run 5)"
  "evicting_run 7 = call_wrapper 3 ''a'' (evicting_run 6)"
  by (simp_all add: evicting_run_def)

lemma evicting_run_pcs:
  "c_pc (cinit :: int cstate) 0 = None"
  "c_pc (evicting_run 1) 0 = Some (Running ''a'' 0 0)"
  "c_pc (evicting_run 3) 1 = None" "c_pc (evicting_run 4) 2 = None"
  "c_pc (evicting_run 5) 2 = Some (Running ''b'' 2 1)" "c_pc (evicting_run 6) 3 = None"
  "c_pc (evicting_run 7) 1 = Some (Running ''a'' 2 0)"
  "c_pc (evicting_run 7) 3 = Some (Running ''a'' 2 2)"
  by code_simp+

lemma evicting_run_reachable: "creach (demo_params 1) (\<lambda>_. True) (evicting_run 7)"
proof -
  note pcs = evicting_run_pcs and rs = evicting_run_simps
  let ?R = "creach (demo_params 1) (\<lambda>_. True)"
  have r1: "?R (evicting_run 1)" unfolding rs by (rule creach_call [OF creach.init pcs(1)]) simp
  have r2: "?R (evicting_run 2)" unfolding rs(2) by (rule creach_returns [OF r1 pcs(2)]) simp
  have r3: "?R (evicting_run 3)" unfolding rs(3) by (rule creach_tick [OF r2]) simp_all
  have r4: "?R (evicting_run 4)" unfolding rs(4) by (rule creach_call [OF r3 pcs(3)]) simp
  have r5: "?R (evicting_run 5)" unfolding rs(5) by (rule creach_call [OF r4 pcs(4)]) simp
  have r6: "?R (evicting_run 6)" unfolding rs(6) by (rule creach_returns [OF r5 pcs(5)]) simp
  show ?thesis unfolding rs(7) by (rule creach_call [OF r6 pcs(6)]) simp
qed

theorem cache_bounded_witness: "length (c_cache (evicting_run 7)) \<le> 1"
  using cache_bounded [OF evicting_run_reachable] by (simp add: demo_params_def)

text \<open>
  C38: The single flight of \<open>ttl_cache\<close> is lost once entries are evicted: with a cache of one
  entry there is a reachable state in which two tasks run the wrapped function for the same key
  at the same time, each under a lock of its own.
\<close>

theorem cache_double_flight:
  "\<exists>st :: int cstate. creach (demo_params 1) (\<lambda>_. True) st \<and>
     (\<exists>t u a b l m. t \<noteq> u \<and> l \<noteq> m \<and> c_pc st t = Some (Running ''a'' a l) \<and>
        c_pc st u = Some (Running ''a'' b m))"
proof -
  have "(1 :: nat) \<noteq> 3" "(0 :: nat) \<noteq> 2" by simp_all
  then show ?thesis using evicting_run_reachable evicting_run_pcs(7,8) by blast
qed

end
