(* ===== verification/CacheLive.thy ===== *)
theory CacheLive
  imports Cache
begin

text \<open>
  Every call of a cached collector ends. The locks of the cache never hold a caller for ever: the
  owner of a lock is at work, a free lock with waiters can be handed on, and each hand-over,
  computation and cancellation leaves less to do.
\<close>

section \<open>Nobody waits without a reason\<close>

text \<open>
  The converse of the discipline of the locks: a task that waits for a lock is in its queue, and a
  lock that is held is held by a task at work under it.
\<close>

definition waits_queued :: "'v cstate \<Rightarrow> bool" where
  "waits_queued st = (\<forall>t key a l. c_pc st t = Some (Waiting key a l) \<longrightarrow> t \<in> set (c_queue st l))"

definition owner_runs :: "'v cstate \<Rightarrow> bool" where
  "owner_runs st = (\<forall>l t. c_owner st l = Some t \<longrightarrow> (\<exists>key a. c_pc st t = Some (Running key a l)))"

definition live_ok :: "'v cstate \<Rightarrow> bool" where
  "live_ok st = (waits_queued st \<and> owner_runs st \<and> finite (dom (c_pc st)))"

lemma waits_queuedD: "waits_queued st \<Longrightarrow> c_pc st t = Some (Waiting key a l) \<Longrightarrow> t \<in> set (c_queue st l)"
  by (auto simp: waits_queued_def)

lemma owner_runsD: "owner_runs st \<Longrightarrow> c_owner st l = Some t \<Longrightarrow> \<exists>key a. c_pc st t = Some (Running key a l)"
  by (auto simp: owner_runs_def)

lemma live_ok_cong:
  assumes "live_ok st" "c_pc st' = c_pc st" "c_owner st' = c_owner st" "c_queue st' = c_queue st"
  shows "live_ok st'"
  using assms by (simp add: live_ok_def waits_queued_def owner_runs_def)

text \<open>A task that holds no lock and waits for none may end.\<close>

lemma live_ok_finish:
  assumes "waits_queued st" "\<And>l u. c_owner st l = Some u \<Longrightarrow> u \<noteq> t \<and> (\<exists>key a. c_pc st u = Some (Running key a l))"
    "finite (dom (c_pc st))"
  shows "live_ok (finish t r st)"
  using assms unfolding live_ok_def finish_def waits_queued_def owner_runs_def by auto

text \<open>A task in no queue that finds its lock free runs under it or ends and frees it.\<close>

lemma live_ok_locked_body:
  assumes "\<And>u k b m. u \<noteq> t \<Longrightarrow> c_pc st u = Some (Waiting k b m) \<Longrightarrow> u \<in> set (c_queue st m)"
    "owner_runs st" "finite (dom (c_pc st))" "c_owner st l = None" "\<And>k b m. c_pc st t \<noteq> Some (Running k b m)"
  shows "live_ok (locked_body t key a l (acquire t l st))"
proof -
  have other: "c_owner st m = Some u \<Longrightarrow> u \<noteq> t \<and> m \<noteq> l \<and> (\<exists>k b. c_pc st u = Some (Running k b m))" for m u
    using owner_runsD [OF assms(2), of m u] assms(4,5) by fastforce
  show ?thesis
    by (cases rule: locked_body_cases [of t key a l "acquire t l st"])
      (use assms(1,3) other in \<open>auto simp: live_ok_def waits_queued_def owner_runs_def split: if_splits\<close>)
qed

lemma live_ok_call:
  assumes "live_ok st" "owner_ok st" "c_pc st t = None"
  shows "live_ok (call_wrapper t key st)"
proof -
  have idle: "c_owner st l = Some u \<Longrightarrow> u \<noteq> t \<and> (\<exists>key a. c_pc st u = Some (Running key a l))" for l u
    using owner_runsD [of st l u] assms(1,3) by (auto simp: live_ok_def)
  let ?st1 = "snd (lock_for key st)" and ?l = "fst (lock_for key st)"
  have fin: "live_ok (finish t r st)" for r
    using assms(1) idle by (intro live_ok_finish) (auto simp: live_ok_def)
  have body: "live_ok (locked_body t key (c_now st) ?l (acquire t ?l ?st1))" if "c_owner st ?l = None"
    using assms(1,3) that by (intro live_ok_locked_body) (auto simp: live_ok_def waits_queued_def owner_runs_def)
  have join: "live_ok (?st1\<lparr>c_queue := (c_queue st)(?l := c_queue st ?l @ [t]),
      c_pc := (c_pc st)(t := Some (Waiting key (c_now st) ?l))\<rparr>)"
    using assms(1) idle by (auto simp: live_ok_def waits_queued_def owner_runs_def)
  show ?thesis
    using fin body join by (simp add: call_wrapper_def Let_def split: option.splits)
qed

lemma live_ok_wake:
  assumes "live_ok st" "c_pc st t = Some (Waiting key a l)" "c_owner st l = None" "c_queue st l = t # ts"
  shows "live_ok (wake_waiter t key a l st)"
  unfolding wake_waiter_def
proof (rule live_ok_locked_body)
  fix u k b m
  assume "u \<noteq> t" "c_pc (st\<lparr>c_queue := (c_queue st)(l := tl (c_queue st l))\<rparr>) u = Some (Waiting k b m)"
  then have "u \<in> set (c_queue st m)" using assms(1) waits_queuedD by (auto simp: live_ok_def)
  then show "u \<in> set (c_queue (st\<lparr>c_queue := (c_queue st)(l := tl (c_queue st l))\<rparr>) m)"
    using assms(4) \<open>u \<noteq> t\<close> by auto
qed (use assms in \<open>auto simp: live_ok_def owner_runs_def\<close>)

lemma live_ok_ends:
  assumes "live_ok st" "owner_ok st" "c_pc st t = Some (Running key a l)"
  shows "live_ok (finish t r (release l st))"
proof (rule live_ok_finish)
  fix m u assume u: "c_owner (release l st) m = Some u"
  then have m: "m \<noteq> l" "c_owner st m = Some u" by (auto simp: release_def split: if_splits)
  then obtain k b where k: "c_pc st u = Some (Running k b m)"
    using assms(1) owner_runsD by (fastforce simp: live_ok_def)
  then show "u \<noteq> t \<and> (\<exists>k b. c_pc (release l st) u = Some (Running k b m))"
    using assms(3) m(1) by (auto simp: release_def)
qed (use assms(1) in \<open>auto simp: live_ok_def waits_queued_def release_def\<close>)

lemma live_ok_cancel:
  assumes "live_ok st" "c_pc st t = Some (Waiting key a l)"
  shows "live_ok (cancel_waiter t l st)"
proof -
  have "c_owner st m = Some u \<Longrightarrow> u \<noteq> t" for m u
    using assms owner_runsD [of st m u] by (auto simp: live_ok_def)
  then show ?thesis
    using assms by (auto simp: cancel_waiter_def finish_def live_ok_def waits_queued_def owner_runs_def)
qed

lemma cstep_live_ok: "cstep p ev st st' \<Longrightarrow> live_ok st \<Longrightarrow> owner_ok st \<Longrightarrow> live_ok st'"
proof (induction rule: cstep.induct)
  case (call st t key)
  then show ?case by (intro live_ok_call)
next
  case (wake st t key arrived l ts)
  then show ?case by (intro live_ok_wake)
next
  case (returns st t key arrived l v)
  have "live_ok (store_result p key v st)" "owner_ok (store_result p key v st)"
    using returns by (auto intro: live_ok_cong simp: owner_ok_def)
  then show ?case unfolding func_returns_def using returns by (intro live_ok_ends [where key = key]) simp_all
next
  case (raises st t key arrived l e)
  let ?st = "if is_exception e then st\<lparr>c_failures := dset key (e, c_now st) (c_failures st)\<rparr> else st"
  have "live_ok ?st" "owner_ok ?st" using raises by (auto intro: live_ok_cong simp: owner_ok_def)
  then show ?case unfolding func_raises_def using raises by (intro live_ok_ends [where key = key]) simp_all
next
  case (cancel st t key arrived l)
  then show ?case by (intro live_ok_cancel)
next
  case (tick d st)
  then show ?case by (auto intro: live_ok_cong)
next
  case (clear st)
  then show ?case by (auto intro: live_ok_cong simp: cache_clear_def)
qed

lemma creach_live_ok: "creach p allowed st \<Longrightarrow> live_ok st"
proof (induction rule: creach.induct)
  case init
  then show ?case by (simp add: live_ok_def waits_queued_def owner_runs_def cinit_def)
next
  case (step st ev st')
  then show ?case using cstep_live_ok creach_locks_ok by (fastforce simp: locks_ok_def)
qed

section \<open>Each step leaves less to do\<close>

fun steps_left :: "'v task_pc option \<Rightarrow> nat" where
  "steps_left (Some (Waiting key a l)) = 2"
| "steps_left (Some (Running key a l)) = 1"
| "steps_left _ = 0"

definition unfinished :: "'v cstate \<Rightarrow> nat set" where
  "unfinished st = {t. 0 < steps_left (c_pc st t)}"

definition work_left :: "'v cstate \<Rightarrow> nat" where
  "work_left st = (\<Sum>t \<in> dom (c_pc st). steps_left (c_pc st t))"

text \<open>The steps that serve a call already made; of these, all but the cancellation happen of themselves.\<close>

fun serves :: "'v cevent \<Rightarrow> bool" where
  "serves (Wake t) = True"
| "serves (Returns t v) = True"
| "serves (Raises t e) = True"
| "serves _ = False"

fun settles :: "'v cevent \<Rightarrow> bool" where
  "settles (Cancel t) = True"
| "settles ev = serves ev"

lemma steps_left_cases:
  "0 < steps_left q \<longleftrightarrow> (\<exists>key a l. q = Some (Waiting key a l) \<or> q = Some (Running key a l))"
  by (cases q rule: steps_left.cases) auto

lemma steps_left_le: "steps_left q \<le> 2"
  by (cases q rule: steps_left.cases) auto

text \<open>One task has come closer to its end, the others are where they were.\<close>

definition advances :: "(nat \<Rightarrow> 'v task_pc option) \<Rightarrow> (nat \<Rightarrow> 'v task_pc option) \<Rightarrow> bool" where
  "advances f g = (\<exists>t q'. g = f(t \<mapsto> q') \<and> steps_left (Some q') < steps_left (f t))"

lemma advancesI: "g = f(t \<mapsto> q') \<Longrightarrow> steps_left (Some q') < steps_left (f t) \<Longrightarrow> advances f g"
  by (auto simp: advances_def)

lemma settles_pc: "cstep p ev st st' \<Longrightarrow> settles ev \<Longrightarrow> advances (c_pc st) (c_pc st')"
proof (induction rule: cstep.induct)
  case (wake st t key arrived l ts)
  let ?st = "acquire t l (st\<lparr>c_queue := (c_queue st)(l := tl (c_queue st l))\<rparr>)"
  have "\<exists>q'. c_pc (locked_body t key arrived l ?st) = (c_pc st)(t \<mapsto> q') \<and> steps_left (Some q') < 2"
    by (cases rule: locked_body_cases [of t key arrived l ?st]) (auto intro: exI)
  then obtain q' where "c_pc (locked_body t key arrived l ?st) = (c_pc st)(t \<mapsto> q')" "steps_left (Some q') < 2" by blast
  moreover from this(2) have "advances (c_pc st) ((c_pc st)(t \<mapsto> q'))"
    by (intro advancesI [where t = t and q' = q', OF refl]) (simp add: wake(1))
  ultimately show ?case unfolding wake_waiter_def by (simp only:)
next
  case (returns st t key arrived l v)
  have "c_pc (func_returns p t key l v st) = (c_pc st)(t \<mapsto> Finished (Returned v))"
    by (simp add: func_returns_def finish_def release_def)
  then show ?case by (rule advancesI) (simp add: returns(1))
next
  case (raises st t key arrived l e)
  have "c_pc (func_raises t key l e st) = (c_pc st)(t \<mapsto> Finished (RaisedExn e))"
    by (simp add: func_raises_def finish_def release_def)
  then show ?case by (rule advancesI) (simp add: raises(1))
next
  case (cancel st t key arrived l)
  have "c_pc (cancel_waiter t l st) = (c_pc st)(t \<mapsto> Finished (RaisedExn (Exn CancelledError [])))"
    by (simp add: cancel_waiter_def finish_def)
  then show ?case by (rule advancesI) (simp add: cancel(1))
qed simp_all

lemma settles_less:
  assumes "live_ok st" "cstep p ev st st'" "settles ev"
  shows "work_left st' < work_left st"
proof -
  obtain t q' where t: "c_pc st' = (c_pc st)(t \<mapsto> q')" "steps_left (Some q') < steps_left (c_pc st t)"
    using settles_pc [OF assms(2,3)] unfolding advances_def by blast
  have "t \<in> dom (c_pc st)" using t(2) by (cases "c_pc st t") auto
  then have dom: "dom (c_pc st') = dom (c_pc st)" "t \<in> dom (c_pc st)" using t(1) by auto
  have "(\<Sum>u \<in> dom (c_pc st). steps_left (c_pc st' u)) < (\<Sum>u \<in> dom (c_pc st). steps_left (c_pc st u))"
    by (rule sum_strict_mono_ex1) (use assms(1) t dom(2) in \<open>auto simp: live_ok_def intro!: bexI [of _ t]\<close>)
  then show ?thesis by (simp add: work_left_def dom)
qed

lemma work_left_unfinished:
  assumes "live_ok st" shows "work_left st \<le> 2 * card (unfinished st)"
proof -
  have sub: "unfinished st \<subseteq> dom (c_pc st)"
    by (auto simp: unfinished_def steps_left_cases)
  have fin: "finite (dom (c_pc st))" using assms by (simp add: live_ok_def)
  have "work_left st = (\<Sum>t \<in> unfinished st. steps_left (c_pc st t))"
    unfolding work_left_def by (rule sum.mono_neutral_right [OF fin sub]) (auto simp: unfinished_def)
  also have "\<dots> \<le> (\<Sum>t \<in> unfinished st. 2)" by (rule sum_mono) (rule steps_left_le)
  finally show ?thesis by simp
qed

section \<open>There is always a next step\<close>

lemma next_step:
  assumes "locks_ok st" "live_ok st" "t \<in> unfinished st"
  shows "\<exists>ev st'. serves ev \<and> cstep p ev st st'"
proof -
  obtain key a l where t: "c_pc st t = Some (Waiting key a l) \<or> c_pc st t = Some (Running key a l)"
    using assms(3) by (auto simp: unfinished_def steps_left_cases)
  have run: "\<exists>ev st'. serves ev \<and> cstep p ev st st'" if "c_pc st u = Some (Running k b m)" for u k b m
    using cstep.raises [OF that] serves.simps(3) by blast
  show ?thesis
  proof (cases "c_owner st l")
    case (Some u)
    then show ?thesis using run owner_runsD assms(2) unfolding live_ok_def by blast
  next
    case None
    show ?thesis
    proof (cases "c_queue st l")
      case Nil
      then show ?thesis using t run waits_queuedD [of st t] assms(2) by (fastforce simp: live_ok_def)
    next
      case (Cons u us)
      then obtain k b where "c_pc st u = Some (Waiting k b l)"
        using assms(1) queue_ok_waiting [of st u l] by (auto simp: locks_ok_def)
      then show ?thesis using cstep.wake [OF _ None Cons] serves.simps(1) by blast
    qed
  qed
qed

text \<open>A run of steps that settle calls.\<close>

definition settle_step :: "'v cparams \<Rightarrow> 'v cstate \<Rightarrow> 'v cstate \<Rightarrow> bool" where
  "settle_step p st st' = (\<exists>ev. settles ev \<and> cstep p ev st st')"

lemma settle_run:
  assumes "(settle_step p ^^ n) st st'" "creach p (\<lambda>_. True) st"
  shows "creach p (\<lambda>_. True) st' \<and> n + work_left st' \<le> work_left st"
  using assms
proof (induction n arbitrary: st')
  case (Suc n)
  then obtain st1 where st1': "(settle_step p ^^ n) st st1" "settle_step p st1 st'" by auto
  from st1'(2) obtain ev where ev: "settles ev" "cstep p ev st1 st'" unfolding settle_step_def by blast
  have ih: "creach p (\<lambda>_. True) st1" "n + work_left st1 \<le> work_left st" using Suc.IH [OF st1'(1)] Suc.prems(2) by auto
  show ?case
    using settles_less [OF creach_live_ok [OF ih(1)] ev(2,1)] creach.step [OF ih(1) _ ev(2)] ih(2) by simp
qed auto

text \<open>
  C10: Every call of a cached function ends. From any state the cache can reach, without new calls
  at most two steps per unfinished caller are left, whatever ends the computations and whoever
  is cancelled on the way; and while a caller is unfinished the run is not stuck: a computation
  is under way that can end, or the first waiter of a free lock can take it.
\<close>

theorem cached_calls_end:
  assumes "creach p (\<lambda>_. True) st" "(settle_step p ^^ n) st st'"
  shows "n \<le> 2 * card (unfinished st)
    \<and> (if unfinished st' = {} then True else \<exists>ev st''. serves ev \<and> cstep p ev st' st'')"
proof -
  have run: "creach p (\<lambda>_. True) st'" "n + work_left st' \<le> work_left st" using settle_run [OF assms(2,1)] by auto
  show ?thesis
    using run(2) work_left_unfinished [OF creach_live_ok [OF assms(1)]]
      next_step [OF creach_locks_ok [OF run(1)] creach_live_ok [OF run(1)]] by auto
qed

text \<open>One caller computes, another waits; the computation fails, and the other gets its failure.\<close>

theorem cached_calls_end_witness:
  "\<exists>st' :: int cstate. (settle_step (demo_params 1) ^^ 1) (call_wrapper 1 ''a'' (call_wrapper 0 ''a'' cinit)) st'
     \<and> (1 :: nat) \<le> 2 * card (unfinished (call_wrapper 1 ''a'' (call_wrapper 0 ''a'' (cinit :: int cstate))))
     \<and> (\<exists>ev st''. serves ev \<and> cstep (demo_params 1) ev st' st'')"
proof -
  let ?st = "call_wrapper 1 ''a'' (call_wrapper 0 ''a'' (cinit :: int cstate))"
  let ?st' = "func_raises 0 ''a'' 0 (Exn OSError []) ?st"
  have "settle_step (demo_params 1) ?st ?st'"
    unfolding settle_step_def
    by (rule exI [of _ "Raises 0 (Exn OSError [])"]) (intro conjI cstep.raises [OF demo_second_call(1)], simp)
  then have run: "(settle_step (demo_params 1) ^^ 1) ?st ?st'" by (simp only: relpowp_1)
  have "c_pc ?st' 1 = c_pc ?st 1" by (simp add: func_raises_def finish_def release_def)
  then have "1 \<in> unfinished ?st'" using demo_second_call(2) by (simp add: unfinished_def)
  then have "unfinished ?st' \<noteq> {}" by blast
  then have "(1 :: nat) \<le> 2 * card (unfinished ?st)" "\<exists>ev st''. serves ev \<and> cstep (demo_params 1) ev ?st' st''"
    using cached_calls_end [OF demo_two_calls run] by simp_all
  then show ?thesis using run by blast
qed

section \<open>The state is well formed\<close>

text \<open>
  C37: The state of a cache is well formed whatever callers, wake-ups, failures, cancellations and
  clears happened, in whatever order: at most \<open>maxsize\<close> entries, one for a key; the queue of
  a lock holds exactly the tasks that wait for it, each once; a lock is held by exactly the task that
  computes under it, so by nobody when no task does; and a lock serves one key only.
\<close>

theorem cache_well_formed:
  assumes "creach p allowed st"
  shows "length (c_cache st) \<le> p_maxsize p \<and> distinct (dkeys (c_cache st))
    \<and> distinct (c_queue st l) \<and> (t \<in> set (c_queue st l) \<longleftrightarrow> (\<exists>key a. c_pc st t = Some (Waiting key a l)))
    \<and> (c_owner st l = Some t \<longleftrightarrow> (\<exists>key a. c_pc st t = Some (Running key a l)))
    \<and> (\<exists>kf. keyed_by kf st)"
proof -
  have ok: "locks_ok st" "live_ok st" by (rule creach_locks_ok [OF assms], rule creach_live_ok [OF assms])
  have "t \<in> set (c_queue st l) \<longleftrightarrow> (\<exists>key a. c_pc st t = Some (Waiting key a l))"
    using ok queue_ok_waiting waits_queuedD unfolding locks_ok_def live_ok_def by metis
  moreover have "c_owner st l = Some t \<longleftrightarrow> (\<exists>key a. c_pc st t = Some (Running key a l))"
    using ok owner_runsD unfolding locks_ok_def live_ok_def owner_ok_def by metis
  moreover have "distinct (c_queue st l)" using ok(1) queue_ok_distinct unfolding locks_ok_def by blast
  ultimately show ?thesis
    using creach_cache_ok [OF assms] ok(1) by (simp add: cache_ok_def dwf_def dkeys_def locks_ok_def)
qed

theorem cache_well_formed_witness:
  "length (c_cache (evicting_run 7)) \<le> 1 \<and> c_owner (evicting_run 7) 0 = Some 1"
  using cache_well_formed [OF evicting_run_reachable, of 0 1] evicting_run_pcs(7) by (simp add: demo_params_def)

end
