(* ===== verification/PyJson.thy ===== *)
theory PyJson
  imports PyFloat
begin

text \<open>
  JSON values as Python holds them after \<open>json.loads\<close>, the decoder itself, and the dynamic
  operations collectors apply to a value whose type they have not checked: \<open>get\<close>, iteration,
  truth, \<open>str\<close>. An operation a type does not have raises, as it does in the interpreter.
\<close>

section \<open>Values\<close>

datatype json =
    JNull | JBool bool | JInt int | JFloat pyfloat | JStr string
  | JList "json list" | JObj "(string \<times> json) list"

fun type_name :: "json \<Rightarrow> string" where
  "type_name JNull = ''NoneType''"
| "type_name (JBool b) = ''bool''"
| "type_name (JInt i) = ''int''"
| "type_name (JFloat f) = ''float''"
| "type_name (JStr s) = ''str''"
| "type_name (JList xs) = ''list''"
| "type_name (JObj d) = ''dict''"

text \<open>\<open>bool(v)\<close>\<close>

fun truthy :: "json \<Rightarrow> bool" where
  "truthy JNull = False"
| "truthy (JBool b) = b"
| "truthy (JInt i) = (i \<noteq> 0)"
| "truthy (JFloat f) = (f \<noteq> Fin 0)"
| "truthy (JStr s) = (s \<noteq> [])"
| "truthy (JList xs) = (xs \<noteq> [])"
| "truthy (JObj d) = (d \<noteq> [])"

text \<open>\<open>a or b\<close>\<close>

definition jor :: "json \<Rightarrow> json \<Rightarrow> json" where
  "jor a b = (if truthy a then a else b)"

text \<open>\<open>v.get(k, d)\<close>, and \<open>d.get(k)\<close> on a value known to be a dict.\<close>

definition jget :: "json \<Rightarrow> string \<Rightarrow> json \<Rightarrow> json result" where
  "jget v k d = (case v of
     JObj m \<Rightarrow> Inr (opt_default d (dget m k))
   | _ \<Rightarrow> Inl (Exn AttributeError ([squote] @ type_name v @ [squote] @ '' object has no attribute ''
             @ [squote] @ ''get'' @ [squote])))"

definition oget :: "(string \<times> json) list \<Rightarrow> string \<Rightarrow> json" where
  "oget m k = opt_default JNull (dget m k)"

lemma jget_JObj [simp, res_simps]: "jget (JObj m) k d = Inr (opt_default d (dget m k))"
  by (simp add: jget_def)

text \<open>\<open>for x in v\<close>\<close>

definition jiter :: "json \<Rightarrow> json list result" where
  "jiter v = (case v of
     JList xs \<Rightarrow> Inr xs
   | JStr s \<Rightarrow> Inr (map (\<lambda>c. JStr [c]) s)
   | JObj m \<Rightarrow> Inr (map JStr (dkeys m))
   | _ \<Rightarrow> Inl (Exn TypeError ([squote] @ type_name v @ [squote] @ '' object is not iterable'')))"

lemma jiter_JList [simp, res_simps]: "jiter (JList xs) = Inr xs"
  by (simp add: jiter_def)

section \<open>Text of a value\<close>

text \<open>\<open>repr\<close> of a string, \<open>repr\<close> and \<open>str\<close> of a value.\<close>

definition hex_digit :: "nat \<Rightarrow> char" where
  "hex_digit n = (if n < 10 then char_of (48 + n) else char_of (87 + n))"

definition is_printable :: "char \<Rightarrow> bool" where
  "is_printable c = (let n = cp c in (32 \<le> n \<and> n \<le> 126) \<or> (161 \<le> n \<and> n \<noteq> 173))"

definition repr_char :: "char \<Rightarrow> char \<Rightarrow> string" where
  "repr_char q c =
     (if c = q \<or> c = bslash then [bslash, c]
      else if c = nl then [bslash, CHR ''n'']
      else if c = CHR 0x0D then [bslash, CHR ''r'']
      else if c = tab then [bslash, CHR ''t'']
      else if is_printable c then [c]
      else [bslash, CHR ''x'', hex_digit (cp c div 16), hex_digit (cp c mod 16)])"

definition repr_str :: "string \<Rightarrow> string" where
  "repr_str s = (let q = (if squote \<in> set s \<and> dquote \<notin> set s then dquote else squote) in
     [q] @ concat (map (repr_char q) s) @ [q])"

fun repr_pyfloat :: "pyfloat \<Rightarrow> string" where
  "repr_pyfloat (Fin x) = float_repr x"
| "repr_pyfloat PosInf = ''inf''"
| "repr_pyfloat NegInf = ''-inf''"
| "repr_pyfloat NotANumber = ''nan''"

fun json_repr :: "json \<Rightarrow> string" where
  "json_repr JNull = ''None''"
| "json_repr (JBool b) = (if b then ''True'' else ''False'')"
| "json_repr (JInt i) = str_of_int i"
| "json_repr (JFloat f) = repr_pyfloat f"
| "json_repr (JStr s) = repr_str s"
| "json_repr (JList xs) = ''['' @ join '', '' (map json_repr xs) @ '']''"
| "json_repr (JObj d) =
     ''{'' @ join '', '' (map (\<lambda>p. repr_str (fst p) @ '': '' @ json_repr (snd p)) d) @ ''}''"

definition json_str :: "json \<Rightarrow> string" where
  "json_str v = (case v of JStr s \<Rightarrow> s | _ \<Rightarrow> json_repr v)"

section \<open>Decoding\<close>

definition is_json_ws :: "char \<Rightarrow> bool" where
  "is_json_ws c = (c = CHR '' '' \<or> c = tab \<or> c = nl \<or> c = CHR 0x0D)"

definition skip_ws :: "string \<Rightarrow> string" where
  "skip_ws s = dropWhile is_json_ws s"

lemma length_skip_ws: "length (skip_ws s) \<le> length s"
  by (simp add: skip_ws_def length_dropWhile_le)

lemma skip_ws_less: "length s < n \<Longrightarrow> length (skip_ws s) < n"
  using length_skip_ws [of s] by simp

lemma skip_ws_less_Suc: "2 * length (skip_ws s) < Suc (2 * length s)"
  using length_skip_ws [of s] by simp

lemma skip_ws_bounds:
  "length s < Suc n \<Longrightarrow> 2 * length (skip_ws s) < Suc (Suc (2 * n))"
  "length s < Suc n \<Longrightarrow> 2 * length (skip_ws s) < Suc (Suc (Suc (2 * n)))"
  using length_skip_ws [of s] by simp_all

definition hex_val :: "char \<Rightarrow> nat option" where
  "hex_val c = (let n = cp (lower_char c) in
     if 48 \<le> n \<and> n \<le> 57 then Some (n - 48)
     else if 97 \<le> n \<and> n \<le> 102 then Some (n - 87) else None)"

definition hex4 :: "char \<Rightarrow> char \<Rightarrow> char \<Rightarrow> char \<Rightarrow> nat option" where
  "hex4 a b c d = (case (hex_val a, hex_val b, hex_val c, hex_val d) of
     (Some w, Some x, Some y, Some z) \<Rightarrow> Some (4096 * w + 256 * x + 16 * y + z) | _ \<Rightarrow> None)"

definition escape_char :: "char \<Rightarrow> char option" where
  "escape_char c =
     (if c = dquote \<or> c = bslash \<or> c = CHR ''/'' then Some c
      else if c = CHR ''b'' then Some CHR 0x08 else if c = CHR ''f'' then Some CHR 0x0C
      else if c = CHR ''n'' then Some nl else if c = CHR ''r'' then Some CHR 0x0D
      else if c = CHR ''t'' then Some tab else None)"

text \<open>A string body up to its closing quote. A \<open>\u\<close> escape above U+00FF lies outside the
  modelled code points and is read as a question mark.\<close>

fun pstring :: "string \<Rightarrow> (string \<times> string) option" where
  "pstring [] = None"
| "pstring (c # s) =
     (if c = dquote then Some ([], s)
      else if c = bslash then
        (case s of [] \<Rightarrow> None
         | e # t \<Rightarrow>
             if e = CHR ''u'' then
               (case t of h1 # h2 # h3 # h4 # u \<Rightarrow>
                  (case hex4 h1 h2 h3 h4 of None \<Rightarrow> None
                   | Some n \<Rightarrow> map_option (\<lambda>(x, r). ((if n < 256 then char_of n else CHR ''?'') # x, r))
                                (pstring u))
                | _ \<Rightarrow> None)
             else (case escape_char e of None \<Rightarrow> None
                   | Some d \<Rightarrow> map_option (\<lambda>(x, r). (d # x, r)) (pstring t)))
      else if cp c < 32 then None
      else map_option (\<lambda>(x, r). (c # x, r)) (pstring s))"

text \<open>A number: integer part without leading zeros, then fraction and exponent if complete.\<close>

definition pfrac :: "string \<Rightarrow> string \<times> string" where
  "pfrac s = (case s of c # t \<Rightarrow>
       if c = CHR ''.'' \<and> takeWhile is_decimal t \<noteq> []
       then (c # takeWhile is_decimal t, dropWhile is_decimal t) else ([], s)
     | [] \<Rightarrow> ([], s))"

definition pexpo :: "string \<Rightarrow> string \<times> string" where
  "pexpo s = (case s of c # t \<Rightarrow>
       if c = CHR ''e'' \<or> c = CHR ''E'' then
         (let sg = takeWhile (\<lambda>x. x = CHR ''+'' \<or> x = CHR ''-'') (take 1 t);
              u = drop (length sg) t; ds = takeWhile is_decimal u in
          if ds \<noteq> [] then (c # sg @ ds, dropWhile is_decimal u) else ([], s))
       else ([], s)
     | [] \<Rightarrow> ([], s))"

definition pnumber :: "string \<Rightarrow> (json \<times> string) option" where
  "pnumber s = (let sg = (if startswith s ''-'' then ''-'' else []);
       t = drop (length sg) s;
       ip = (if startswith t ''0'' then ''0'' else takeWhile is_decimal t);
       r = drop (length ip) t; (fp, r1) = pfrac r; (ep, r2) = pexpo r1 in
     if ip = [] then None
     else if fp = [] \<and> ep = []
     then Some (JInt (if sg = [] then digits_val 0 ip else - digits_val 0 ip), r2)
     else map_option (\<lambda>f. (JFloat f, r2)) (float_of_str (sg @ ip @ fp @ ep)))"

definition pword :: "string \<Rightarrow> json \<Rightarrow> string \<Rightarrow> (json \<times> string) option" where
  "pword w v s = (if startswith s w then Some (v, drop (length w) s) else None)"

definition patom :: "string \<Rightarrow> (json \<times> string) option" where
  "patom s =
     (if startswith s ''null'' then pword ''null'' JNull s
      else if startswith s ''true'' then pword ''true'' (JBool True) s
      else if startswith s ''false'' then pword ''false'' (JBool False) s
      else if startswith s ''NaN'' then pword ''NaN'' (JFloat NotANumber) s
      else if startswith s ''Infinity'' then pword ''Infinity'' (JFloat PosInf) s
      else if startswith s ''-Infinity'' then pword ''-Infinity'' (JFloat NegInf) s
      else pnumber s)"

text \<open>
  Values, the elements of an array and the members of an object. A recursive call on the rest
  of the text is taken only when that rest is shorter, which it always is.
\<close>

function pval :: "string \<Rightarrow> (json \<times> string) option"
  and pelems :: "string \<Rightarrow> (json list \<times> string) option"
  and pmembers :: "string \<Rightarrow> ((string \<times> json) list \<times> string) option" where
  "pval [] = None"
| "pval (c # t) =
     (if c = dquote then map_option (\<lambda>(x, r). (JStr x, r)) (pstring t)
      else if c = CHR ''['' then
        (if startswith (skip_ws t) '']'' then Some (JList [], drop 1 (skip_ws t))
         else map_option (\<lambda>(xs, r). (JList xs, r)) (pelems (skip_ws t)))
      else if c = CHR ''{'' then
        (if startswith (skip_ws t) ''}'' then Some (JObj [], drop 1 (skip_ws t))
         else map_option (\<lambda>(ms, r). (JObj (foldl (\<lambda>d (k, v). dset k v d) [] ms), r))
                (pmembers (skip_ws t)))
      else patom (c # t))"
| "pelems s =
     (case pval s of None \<Rightarrow> None
      | Some (v, r) \<Rightarrow>
          (case skip_ws r of [] \<Rightarrow> None
           | d # u \<Rightarrow>
               if d = CHR '']'' then Some ([v], u)
               else if d = CHR '','' \<and> length u < length s
               then map_option (\<lambda>(vs, r'). (v # vs, r')) (pelems (skip_ws u))
               else None))"
| "pmembers s =
     (case s of [] \<Rightarrow> None
      | q # t \<Rightarrow>
          if q \<noteq> dquote then None
          else (case pstring t of None \<Rightarrow> None
            | Some (k, r) \<Rightarrow>
                (case skip_ws r of [] \<Rightarrow> None
                 | d # u \<Rightarrow>
                     if d = CHR '':'' \<and> length u < length s then
                       (case pval (skip_ws u) of None \<Rightarrow> None
                        | Some (v, r1) \<Rightarrow>
                            (case skip_ws r1 of [] \<Rightarrow> None
                             | e # u1 \<Rightarrow>
                                 if e = CHR ''}'' then Some ([(k, v)], u1)
                                 else if e = CHR '','' \<and> length u1 < length s
                                 then map_option (\<lambda>(ms, r'). ((k, v) # ms, r'))
                                        (pmembers (skip_ws u1))
                                 else None))
                     else None)))"
  by pat_completeness auto
termination
proof (relation "measure (\<lambda>x. case x of Inl s \<Rightarrow> 2 * length s
    | Inr (Inl s) \<Rightarrow> 2 * length s + 1 | Inr (Inr s) \<Rightarrow> 2 * length s + 1)", goal_cases)
  case 1
  show ?case by simp
qed (auto simp: skip_ws_less skip_ws_less_Suc skip_ws_bounds)

definition json_loads :: "string \<Rightarrow> json option" where
  "json_loads s = (case pval (skip_ws s) of
     None \<Rightarrow> None
   | Some (v, r) \<Rightarrow> if skip_ws r = [] then Some v else None)"

end
