(* ===== verification/Degrade.thy ===== *)
theory Degrade
  imports PyJson
begin

text \<open>
  \<open>app/routers/degrade.py\<close>: gathering independent sections so that one failure costs one
  section. A section is the result of a collector; the lemmas describe what is gathered.
\<close>

text \<open>The loop over the sections and their results; an interrupted one raises.\<close>

fun gather_loop :: "(string \<times> 'a result) list \<Rightarrow> (string, 'a option) dict \<Rightarrow> string list
    \<Rightarrow> ((string, 'a option) dict \<times> string list) result" where
  "gather_loop [] out failed = Inr (out, failed)"
| "gather_loop ((name, Inr x) # ss) out failed = gather_loop ss (dset name (Some x) out) failed"
| "gather_loop ((name, Inl e) # ss) out failed =
     (if is_exception e then gather_loop ss (dset name None out) (failed @ [name]) else Inl e)"

definition gather_sections :: "(string \<times> 'a result) list \<Rightarrow> ((string, 'a option) dict \<times> string list) result" where
  "gather_sections sections = gather_loop sections [] []"

text \<open>\<open>dump\<close> on a model, on a list or on anything else; \<open>md\<close> is \<open>model_dump\<close>.\<close>

datatype 'm pyval = Model 'm | Items "'m pyval list" | Plain json

definition dump_item :: "('m \<Rightarrow> json) \<Rightarrow> 'm pyval \<Rightarrow> 'm pyval" where
  "dump_item md v = (case v of Model m \<Rightarrow> Plain (md m) | _ \<Rightarrow> v)"

definition dump :: "('m \<Rightarrow> json) \<Rightarrow> 'm pyval \<Rightarrow> 'm pyval" where
  "dump md v = (case v of Items vs \<Rightarrow> Items (map (dump_item md) vs) | _ \<Rightarrow> dump_item md v)"

definition dump_list :: "('m \<Rightarrow> json) \<Rightarrow> 'm pyval \<Rightarrow> 'm pyval" where
  "dump_list md v = (if v = Plain JNull then Items [] else dump md v)"

section \<open>What is gathered\<close>

definition section_value :: "'a result \<Rightarrow> 'a option" where
  "section_value r = (case r of Inl e \<Rightarrow> None | Inr x \<Rightarrow> Some x)"

lemma section_value_simps [simp]: "section_value (Inl e) = None" "section_value (Inr x) = Some x"
  by (simp_all add: section_value_def)

definition failed_names :: "(string \<times> 'a result) list \<Rightarrow> string list" where
  "failed_names sections = map fst (filter (\<lambda>s. isl (snd s)) sections)"

definition only_exceptions :: "(string \<times> 'a result) list \<Rightarrow> bool" where
  "only_exceptions sections = (\<forall>s \<in> set sections. \<forall>e. snd s = Inl e \<longrightarrow> is_exception e)"

lemma dset_last: "k \<notin> fst ` set d \<Longrightarrow> dset k v d = d @ [(k, v)]"
  by (induction k v d rule: dset.induct) auto

lemma gather_loop_result:
  assumes "only_exceptions ss" "distinct (map fst ss)" "fst ` set ss \<inter> fst ` set out = {}"
  shows "gather_loop ss out failed =
    Inr (out @ map (\<lambda>s. (fst s, section_value (snd s))) ss, failed @ failed_names ss)"
  using assms
proof (induction ss out failed rule: gather_loop.induct)
  case (2 name x ss out failed)
  then show ?case by (simp add: only_exceptions_def failed_names_def dset_last)
next
  case (3 name e ss out failed)
  then have "is_exception e" by (simp add: only_exceptions_def)
  then show ?case using 3 by (simp add: only_exceptions_def failed_names_def dset_last)
qed (simp add: failed_names_def)

lemma gather_sections_result:
  "only_exceptions ss \<Longrightarrow> distinct (map fst ss) \<Longrightarrow> gather_sections ss =
     Inr (map (\<lambda>s. (fst s, section_value (snd s))) ss, failed_names ss)"
  by (simp add: gather_sections_def gather_loop_result)

lemma gather_loop_raises: "\<not> only_exceptions ss \<Longrightarrow> \<exists>e. gather_loop ss out failed = Inl e \<and> \<not> is_exception e"
  by (induction ss out failed rule: gather_loop.induct) (auto simp: only_exceptions_def)

lemma gather_sections_Inr:
  assumes "gather_sections ss = Inr (out, failed)" "distinct (map fst ss)"
  shows "out = map (\<lambda>s. (fst s, section_value (snd s))) ss \<and> failed = failed_names ss"
proof -
  have "only_exceptions ss"
    using gather_loop_raises [of ss "[]" "[]"] assms(1) by (auto simp: gather_sections_def)
  then show ?thesis using gather_sections_result [OF _ assms(2)] assms(1) by simp
qed

end
