(* ===== verification/Regex.thy ===== *)
theory Regex
  imports PyStr
begin

text \<open>
  The part of Python's \<open>re\<close> module the sources use: a backtracking matcher over the syntax
  tree of a pattern. \<open>mt\<close> lists every way a pattern matches at a position, in the order in
  which the engine tries them (greedy before lazy, left alternative first); \<open>match\<close> takes the
  first. A position is what was consumed before it (reversed), what follows, and the groups
  captured so far. The lemmas say that matching consumes a prefix, that a literal matches its
  own text, and that a greedy class takes the longest run first.
\<close>

section \<open>Patterns\<close>

datatype cclass = CChar char | CRange char char | CDigit | CWord | CSpace | CNonSpace

text \<open>\<open>RSet True cs\<close> is a negated class; \<open>RAny\<close> is the dot, which stops at a newline.\<close>

datatype regex =
    RSet bool "cclass list" | RAny | REps | RSeq regex regex | RAlt regex regex
  | RStar regex | RLazy regex | RGroup nat regex | RWordB | RBol | REol | RNegLook regex

definition upper_char :: "char \<Rightarrow> char" where
  "upper_char c = (let n = cp c in
     if (97 \<le> n \<and> n \<le> 122) \<or> (224 \<le> n \<and> n \<le> 254 \<and> n \<noteq> 247) then char_of (n - 32) else c)"

definition in_range :: "char \<Rightarrow> char \<Rightarrow> char \<Rightarrow> bool" where
  "in_range a b c = (cp a \<le> cp c \<and> cp c \<le> cp b)"

fun in_class :: "bool \<Rightarrow> cclass \<Rightarrow> char \<Rightarrow> bool" where
  "in_class ic (CChar a) c = (if ic then lower_char c = lower_char a else c = a)"
| "in_class ic (CRange a b) c = (in_range a b c
     \<or> (ic \<and> (in_range a b (lower_char c) \<or> in_range a b (upper_char c))))"
| "in_class ic CDigit c = is_decimal c"
| "in_class ic CWord c = is_word c"
| "in_class ic CSpace c = is_space c"
| "in_class ic CNonSpace c = nonspace c"

definition in_set :: "bool \<Rightarrow> bool \<Rightarrow> cclass list \<Rightarrow> char \<Rightarrow> bool" where
  "in_set ic neg cs c = (neg \<noteq> list_ex (\<lambda>k. in_class ic k c) cs)"

text \<open>Patterns built from these: literals, \<open>?\<close>, \<open>+\<close>, \<open>{n}\<close> and alternatives.\<close>

definition rchr :: "char \<Rightarrow> regex" where
  "rchr c = RSet False [CChar c]"

fun rlit :: "string \<Rightarrow> regex" where
  "rlit [] = REps"
| "rlit (c # s) = RSeq (rchr c) (rlit s)"

definition ropt :: "regex \<Rightarrow> regex" where
  "ropt r = RAlt r REps"

definition rplus :: "regex \<Rightarrow> regex" where
  "rplus r = RSeq r (RStar r)"

fun rtimes :: "nat \<Rightarrow> regex \<Rightarrow> regex" where
  "rtimes 0 r = REps"
| "rtimes (Suc n) r = RSeq r (rtimes n r)"

fun rseq :: "regex list \<Rightarrow> regex" where
  "rseq [] = REps"
| "rseq [r] = r"
| "rseq (r # rs) = RSeq r (rseq rs)"

fun ralt :: "regex list \<Rightarrow> regex" where
  "ralt [] = RSet False []"
| "ralt [r] = r"
| "ralt (r # rs) = RAlt r (ralt rs)"

definition rdigit :: regex where "rdigit = RSet False [CDigit]"
definition rspace :: regex where "rspace = RSet False [CSpace]"
definition rnonspace :: regex where "rnonspace = RSet False [CNonSpace]"
definition rword :: regex where "rword = RSet False [CWord]"
definition rdots :: regex where "rdots = RStar RAny"

section \<open>Matching\<close>

type_synonym mstate = "string \<times> string \<times> (nat, string) dict"

text \<open>Repetition: an iteration that consumes nothing ends the loop, so the length of the
  remaining text bounds the iterations.\<close>

fun star_m :: "nat \<Rightarrow> (mstate \<Rightarrow> mstate list) \<Rightarrow> mstate \<Rightarrow> mstate list" where
  "star_m 0 m st = [st]"
| "star_m (Suc n) m st =
     concat (map (\<lambda>st'. if length (fst (snd st')) < length (fst (snd st))
                        then star_m n m st' else []) (m st)) @ [st]"

fun lazy_m :: "nat \<Rightarrow> (mstate \<Rightarrow> mstate list) \<Rightarrow> mstate \<Rightarrow> mstate list" where
  "lazy_m 0 m st = [st]"
| "lazy_m (Suc n) m st =
     st # concat (map (\<lambda>st'. if length (fst (snd st')) < length (fst (snd st))
                             then lazy_m n m st' else []) (m st))"

text \<open>More iterations than characters change nothing.\<close>

lemma star_m_bound:
  "length (fst (snd st)) \<le> n \<Longrightarrow> length (fst (snd st)) \<le> k \<Longrightarrow> star_m n m st = star_m k m st"
proof (induction n arbitrary: k st)
  case 0
  then show ?case by (cases k) simp_all
next
  case (Suc n)
  then show ?case
    by (cases k) (auto intro!: arg_cong [where f = concat] map_cong)
qed

lemma lazy_m_bound:
  "length (fst (snd st)) \<le> n \<Longrightarrow> length (fst (snd st)) \<le> k \<Longrightarrow> lazy_m n m st = lazy_m k m st"
proof (induction n arbitrary: k st)
  case 0
  then show ?case by (cases k) simp_all
next
  case (Suc n)
  then show ?case
    by (cases k) (auto intro!: arg_cong [where f = concat] map_cong)
qed

definition set_step :: "(char \<Rightarrow> bool) \<Rightarrow> mstate \<Rightarrow> mstate list" where
  "set_step P st = (case st of (b, s, g) \<Rightarrow>
     (case s of [] \<Rightarrow> [] | c # s' \<Rightarrow> if P c then [(c # b, s', g)] else []))"

definition word_boundary :: "string \<Rightarrow> string \<Rightarrow> bool" where
  "word_boundary b s = ((b \<noteq> [] \<and> is_word (hd b)) \<noteq> (s \<noteq> [] \<and> is_word (hd s)))"

primrec mt :: "bool \<Rightarrow> regex \<Rightarrow> mstate \<Rightarrow> mstate list" where
  "mt ic (RSet neg cs) = set_step (in_set ic neg cs)"
| "mt ic RAny = set_step (\<lambda>c. c \<noteq> nl)"
| "mt ic REps = (\<lambda>st. [st])"
| "mt ic (RSeq r q) = (\<lambda>st. concat (map (mt ic q) (mt ic r st)))"
| "mt ic (RAlt r q) = (\<lambda>st. mt ic r st @ mt ic q st)"
| "mt ic (RStar r) = (\<lambda>st. star_m (length (fst (snd st))) (mt ic r) st)"
| "mt ic (RLazy r) = (\<lambda>st. lazy_m (length (fst (snd st))) (mt ic r) st)"
| "mt ic (RGroup n r) = (\<lambda>st. map (\<lambda>st'. (fst st', fst (snd st'),
      dset n (take (length (fst (snd st)) - length (fst (snd st'))) (fst (snd st))) (snd (snd st'))))
      (mt ic r st))"
| "mt ic RWordB = (\<lambda>st. if word_boundary (fst st) (fst (snd st)) then [st] else [])"
| "mt ic RBol = (\<lambda>st. if fst st = [] then [st] else [])"
| "mt ic REol = (\<lambda>st. if fst (snd st) = [] \<or> fst (snd st) = [nl] then [st] else [])"
| "mt ic (RNegLook r) = (\<lambda>st. if mt ic r st = [] then [st] else [])"

definition match_at :: "bool \<Rightarrow> regex \<Rightarrow> string \<Rightarrow> string \<Rightarrow> mstate option" where
  "match_at ic r b s = (case mt ic r (b, s, []) of [] \<Rightarrow> None | st # _ \<Rightarrow> Some st)"

text \<open>\<open>re.match\<close> gives the captured groups and the text after the match.\<close>

definition re_match :: "bool \<Rightarrow> regex \<Rightarrow> string \<Rightarrow> ((nat, string) dict \<times> string) option" where
  "re_match ic r s = map_option (\<lambda>(b, t, g). (g, t)) (match_at ic r [] s)"

definition re_fullmatch :: "bool \<Rightarrow> regex \<Rightarrow> string \<Rightarrow> bool" where
  "re_fullmatch ic r s = list_ex (\<lambda>st. fst (snd st) = []) (mt ic r ([], s, []))"

fun search_from :: "bool \<Rightarrow> regex \<Rightarrow> string \<Rightarrow> string \<Rightarrow> bool" where
  "search_from ic r b [] = (match_at ic r b [] \<noteq> None)"
| "search_from ic r b (c # s) = (match_at ic r b (c # s) \<noteq> None \<or> search_from ic r (c # b) s)"

definition re_search :: "bool \<Rightarrow> regex \<Rightarrow> string \<Rightarrow> bool" where
  "re_search ic r s = search_from ic r [] s"

text \<open>\<open>pattern.sub\<close>: every pattern it is used with consumes at least one character.\<close>

function sub_from :: "bool \<Rightarrow> regex \<Rightarrow> ((nat, string) dict \<Rightarrow> string) \<Rightarrow> string \<Rightarrow> string \<Rightarrow> string"
  where
  "sub_from ic r f b [] = []"
| "sub_from ic r f b (c # s) =
     (case match_at ic r b (c # s) of
        None \<Rightarrow> c # sub_from ic r f (c # b) s
      | Some (b', s', g) \<Rightarrow>
          if length s' \<le> length s then f g @ sub_from ic r f b' s'
          else c # sub_from ic r f (c # b) s)"
  by pat_completeness auto
termination
  by (relation "measure (\<lambda>(ic, r, f, b, s). length s)") auto

definition re_sub :: "bool \<Rightarrow> regex \<Rightarrow> ((nat, string) dict \<Rightarrow> string) \<Rightarrow> string \<Rightarrow> string" where
  "re_sub ic r f s = sub_from ic r f [] s"

definition grp :: "(nat, string) dict \<Rightarrow> nat \<Rightarrow> string" where
  "grp g n = opt_default [] (dget g n)"

section \<open>Matching consumes a prefix\<close>

definition consumes :: "mstate \<Rightarrow> mstate \<Rightarrow> bool" where
  "consumes st st' = (\<exists>u. fst (snd st) = u @ fst (snd st') \<and> fst st' = rev u @ fst st)"

lemma consumes_refl [simp]: "consumes st st"
  by (simp add: consumes_def)

lemma consumes_trans: "consumes a b \<Longrightarrow> consumes b c \<Longrightarrow> consumes a c"
  by (auto simp: consumes_def)

lemma consumes_length: "consumes a b \<Longrightarrow> length (fst (snd b)) \<le> length (fst (snd a))"
  by (auto simp: consumes_def)

lemma star_m_consumes:
  assumes "\<And>st st'. st' \<in> set (m st) \<Longrightarrow> consumes st st'"
  shows "st' \<in> set (star_m n m st) \<Longrightarrow> consumes st st'"
  by (induction n arbitrary: st) (auto split: if_splits intro: consumes_trans assms)

lemma lazy_m_consumes:
  assumes "\<And>st st'. st' \<in> set (m st) \<Longrightarrow> consumes st st'"
  shows "st' \<in> set (lazy_m n m st) \<Longrightarrow> consumes st st'"
  by (induction n arbitrary: st) (auto split: if_splits intro: consumes_trans assms)

lemma set_step_consumes: "st' \<in> set (set_step P st) \<Longrightarrow> consumes st st'"
  by (auto simp: set_step_def consumes_def split: prod.splits list.splits if_splits)

lemma mt_consumes: "st' \<in> set (mt ic r st) \<Longrightarrow> consumes st st'"
proof (induction r arbitrary: st st')
  case (RSeq r q)
  then obtain m where "m \<in> set (mt ic r st)" "st' \<in> set (mt ic q m)" by auto
  then show ?case using RSeq.IH consumes_trans by blast
next
  case (RStar r)
  then show ?case using star_m_consumes [of "mt ic r"] by auto
next
  case (RLazy r)
  then show ?case using lazy_m_consumes [of "mt ic r"] by auto
next
  case (RGroup n r)
  then obtain st1 where "st1 \<in> set (mt ic r st)" "fst st' = fst st1" "fst (snd st') = fst (snd st1)"
    by auto
  then show ?case using RGroup.IH by (metis consumes_def)
qed (auto dest: set_step_consumes split: if_splits)

lemma match_at_in: "match_at ic r b s = Some st \<Longrightarrow> st \<in> set (mt ic r (b, s, []))"
  by (auto simp: match_at_def split: list.splits)

lemma match_at_prefix:
  assumes "match_at ic r b s = Some (b', s', g)"
  shows "\<exists>u. s = u @ s' \<and> b' = rev u @ b"
  using mt_consumes [OF match_at_in [OF assms]] by (auto simp: consumes_def)

section \<open>Literals and classes\<close>

definition same_text :: "bool \<Rightarrow> string \<Rightarrow> string \<Rightarrow> bool" where
  "same_text ic s t = (if ic then lower s = lower t else s = t)"

lemma mt_rlit:
  "mt ic (rlit p) (b, s, g) =
     (if length p \<le> length s \<and> same_text ic (take (length p) s) p
      then [(rev (take (length p) s) @ b, drop (length p) s, g)] else [])"
proof (induction p arbitrary: b s)
  case Nil
  then show ?case by (simp add: same_text_def)
next
  case (Cons c p)
  then show ?case
    by (cases s) (auto simp: rchr_def set_step_def in_set_def same_text_def lower_def)
qed

lemma search_from_iff:
  "search_from ic r b s \<longleftrightarrow> (\<exists>u v. s = u @ v \<and> match_at ic r (rev u @ b) v \<noteq> None)"
proof (induction s arbitrary: b)
  case Nil
  then show ?case by simp
next
  case (Cons c s)
  have "(\<exists>u v. c # s = u @ v \<and> match_at ic r (rev u @ b) v \<noteq> None) \<longleftrightarrow>
    match_at ic r b (c # s) \<noteq> None \<or>
    (\<exists>u v. s = u @ v \<and> match_at ic r (rev u @ c # b) v \<noteq> None)"
    (is "?L \<longleftrightarrow> ?R")
  proof
    assume ?L
    then obtain u v where uv: "c # s = u @ v" "match_at ic r (rev u @ b) v \<noteq> None" by blast
    then show ?R by (cases u) auto
  next
    assume ?R
    then show ?L
    proof
      assume "match_at ic r b (c # s) \<noteq> None"
      then show ?L by (intro exI [of _ "[]"] exI [of _ "c # s"]) simp
    next
      assume "\<exists>u v. s = u @ v \<and> match_at ic r (rev u @ c # b) v \<noteq> None"
      then obtain u v where "s = u @ v" "match_at ic r (rev u @ c # b) v \<noteq> None" by blast
      then show ?L by (intro exI [of _ "c # u"] exI [of _ v]) simp
    qed
  qed
  then show ?case by (simp add: Cons.IH)
qed

lemma match_at_None_iff: "match_at ic r b s \<noteq> None \<longleftrightarrow> mt ic r (b, s, []) \<noteq> []"
  by (simp add: match_at_def split: list.splits)

lemma re_search_iff:
  "re_search ic r s \<longleftrightarrow> (\<exists>u v. s = u @ v \<and> mt ic r (rev u, v, []) \<noteq> [])"
  unfolding re_search_def search_from_iff match_at_None_iff by simp

text \<open>Searching for a literal is a substring test, up to case when case is ignored.\<close>

lemma re_search_rlit:
  "re_search ic (rlit p) s \<longleftrightarrow> (\<exists>a x b. s = a @ x @ b \<and> same_text ic x p)"
proof
  assume "re_search ic (rlit p) s"
  then obtain u v where "s = u @ v" "length p \<le> length v" "same_text ic (take (length p) v) p"
    by (auto simp: re_search_iff mt_rlit split: if_splits)
  then show "\<exists>a x b. s = a @ x @ b \<and> same_text ic x p"
    by (metis append_take_drop_id)
next
  assume "\<exists>a x b. s = a @ x @ b \<and> same_text ic x p"
  then obtain a x b where s: "s = a @ x @ b" and eq: "same_text ic x p" by blast
  have len: "length x = length p"
    using eq by (auto simp: same_text_def split: if_splits dest: arg_cong [of _ _ length])
  have "mt ic (rlit p) (rev a, x @ b, []) \<noteq> []"
    using eq len by (simp add: mt_rlit)
  then show "re_search ic (rlit p) s"
    unfolding re_search_iff using s by blast
qed

text \<open>A greedy class star: all prefixes of the longest run, the longest first.\<close>

fun run_states :: "(char \<Rightarrow> bool) \<Rightarrow> mstate \<Rightarrow> mstate list" where
  "run_states P (b, [], g) = [(b, [], g)]"
| "run_states P (b, c # s, g) =
     (if P c then run_states P (c # b, s, g) @ [(b, c # s, g)] else [(b, c # s, g)])"

lemma star_m_set_step: "length s \<le> n \<Longrightarrow> star_m n (set_step P) (b, s, g) = run_states P (b, s, g)"
proof (induction n arbitrary: b s)
  case 0
  then show ?case by simp
next
  case (Suc n)
  then show ?case by (cases s) (auto simp: set_step_def)
qed

lemma mt_star_set: "mt ic (RStar (RSet neg cs)) (b, s, g) = run_states (in_set ic neg cs) (b, s, g)"
  by (simp add: star_m_set_step)

lemma hd_run_states:
  "\<exists>tl. run_states P (b, s, g) = (rev (takeWhile P s) @ b, dropWhile P s, g) # tl"
proof (induction s arbitrary: b)
  case Nil
  then show ?case by simp
next
  case (Cons c s)
  show ?case
  proof (cases "P c")
    case True
    from Cons [of "c # b"] obtain tl where
      "run_states P (c # b, s, g) = (rev (takeWhile P s) @ c # b, dropWhile P s, g) # tl" by blast
    then show ?thesis using True by simp
  next
    case False
    then show ?thesis by simp
  qed
qed

section \<open>Captured groups are pieces of the text\<close>

definition groups_over :: "char set \<Rightarrow> mstate \<Rightarrow> bool" where
  "groups_over A st = (set (fst (snd st)) \<subseteq> A \<and> (\<forall>n w. (n, w) \<in> set (snd (snd st)) \<longrightarrow> set w \<subseteq> A))"

lemma set_dset: "(k', v') \<in> set (dset k v d) \<Longrightarrow> (k', v') = (k, v) \<or> (k', v') \<in> set d"
  by (induction k v d rule: dset.induct) (auto split: if_splits)

lemma set_step_groups_over:
  "st' \<in> set (set_step P st) \<Longrightarrow> groups_over A st \<Longrightarrow> groups_over A st'"
  by (cases st; cases "fst (snd st)") (simp_all add: set_step_def groups_over_def split: if_splits)

lemma mt_groups_over: "st' \<in> set (mt ic r st) \<Longrightarrow> groups_over A st \<Longrightarrow> groups_over A st'"
proof (induction r arbitrary: st st')
  case (RStar r)
  have "st' \<in> set (star_m n (mt ic r) st) \<Longrightarrow> groups_over A st \<Longrightarrow> groups_over A st'" for n
    by (induction n arbitrary: st) (auto split: if_splits dest: RStar.IH)
  then show ?case using RStar.prems by simp
next
  case (RLazy r)
  have "st' \<in> set (lazy_m n (mt ic r) st) \<Longrightarrow> groups_over A st \<Longrightarrow> groups_over A st'" for n
    by (induction n arbitrary: st) (auto split: if_splits dest: RLazy.IH)
  then show ?case using RLazy.prems by simp
next
  case (RGroup n r)
  then obtain st1 where st1: "st1 \<in> set (mt ic r st)"
    and st': "st' = (fst st1, fst (snd st1),
      dset n (take (length (fst (snd st)) - length (fst (snd st1))) (fst (snd st))) (snd (snd st1)))"
    by auto
  have "groups_over A st1" using RGroup.IH [OF st1 RGroup.prems(2)] .
  moreover have "set (take k (fst (snd st))) \<subseteq> A" for k
    using RGroup.prems(2) set_take_subset [of k "fst (snd st)"] by (auto simp: groups_over_def)
  ultimately show ?case
    unfolding st' groups_over_def by (metis Pair_inject fst_conv set_dset snd_conv)
qed (auto simp: set_step_groups_over split: if_splits)

lemma match_at_groups_over:
  assumes "match_at ic r b s = Some (b', s', g)" "set s \<subseteq> A"
  shows "set s' \<subseteq> A" and "set (grp g n) \<subseteq> A"
proof -
  have "groups_over A (b', s', g)"
    using mt_groups_over [OF match_at_in [OF assms(1)]] assms(2) by (simp add: groups_over_def)
  then have "set s' \<subseteq> A" and gs: "\<And>k w. (k, w) \<in> set g \<Longrightarrow> set w \<subseteq> A"
    by (simp_all add: groups_over_def)
  then show "set s' \<subseteq> A" by simp
  show "set (grp g n) \<subseteq> A"
    using gs [OF dget_mem] by (cases "dget g n") (simp_all add: grp_def)
qed

text \<open>A substitution whose replacement stays in a character set keeps the text in it.\<close>

lemma sub_from_over:
  assumes "\<And>g. (\<And>n. set (grp g n) \<subseteq> A) \<Longrightarrow> set (f g) \<subseteq> A" and "set s \<subseteq> A"
  shows "set (sub_from ic r f b s) \<subseteq> A"
  using assms
proof (induction ic r f b s rule: sub_from.induct)
  case (1 ic r f b)
  then show ?case by simp
next
  case (2 ic r f b c s)
  note rep = 2(4) and over = 2(5)
  show ?case
  proof (cases "match_at ic r b (c # s)")
    case None
    then show ?thesis using 2(1) [OF None rep] over by simp
  next
    case (Some st)
    then obtain b' s' g where st: "match_at ic r b (c # s) = Some (b', s', g)" by (cases st) auto
    have s': "set s' \<subseteq> A" and g: "\<And>n. set (grp g n) \<subseteq> A"
      using match_at_groups_over [OF st over] by blast+
    show ?thesis
    proof (cases "length s' \<le> length s")
      case True
      then show ?thesis using 2(2) [OF st refl refl True rep s'] st rep [OF g] by simp
    next
      case False
      then show ?thesis using 2(3) [OF st refl refl False rep] over st by simp
    qed
  qed
qed

end
