(* ===== verification/PyDate.thy ===== *)
theory PyDate
  imports Regex PyFloat
begin

text \<open>
  The part of Python's \<open>datetime\<close> the sources use. An aware datetime is its distance from the
  epoch in microseconds: two of them are compared and subtracted as instants. A date outside
  the calendar raises ValueError, a result outside the years 1 to 9999 OverflowError.
\<close>

section \<open>The calendar\<close>

definition leap_year :: "int \<Rightarrow> bool" where
  "leap_year y = (y mod 4 = 0 \<and> (y mod 100 \<noteq> 0 \<or> y mod 400 = 0))"

definition days_in_month :: "int \<Rightarrow> int \<Rightarrow> int" where
  "days_in_month y m =
     (if m = 2 then (if leap_year y then 29 else 28)
      else if m = 4 \<or> m = 6 \<or> m = 9 \<or> m = 11 then 30 else 31)"

definition days_before_year :: "int \<Rightarrow> int" where
  "days_before_year y = (let p = y - 1 in p * 365 + p div 4 - p div 100 + p div 400)"

definition days_before_month :: "int \<Rightarrow> int \<Rightarrow> int" where
  "days_before_month y m = sum_list (map (days_in_month y) [1..m - 1])"

text \<open>\<open>date.toordinal\<close>: the first of January of the year 1 has ordinal 1.\<close>

definition date_ordinal :: "int \<Rightarrow> int \<Rightarrow> int \<Rightarrow> int" where
  "date_ordinal y m d = days_before_year y + days_before_month y m + d"

definition valid_date :: "int \<Rightarrow> int \<Rightarrow> int \<Rightarrow> bool" where
  "valid_date y m d = (1 \<le> y \<and> y \<le> 9999 \<and> 1 \<le> m \<and> m \<le> 12 \<and> 1 \<le> d \<and> d \<le> days_in_month y m)"

definition valid_time :: "int \<Rightarrow> int \<Rightarrow> int \<Rightarrow> bool" where
  "valid_time h mi s = (0 \<le> h \<and> h \<le> 23 \<and> 0 \<le> mi \<and> mi \<le> 59 \<and> 0 \<le> s \<and> s \<le> 59)"

lemma days_before_month_1 [simp]: "days_before_month y 1 = 0"
  by (simp add: days_before_month_def)

lemma days_before_month_Suc:
  "1 \<le> m \<Longrightarrow> days_before_month y (m + 1) = days_before_month y m + days_in_month y m"
  using upto_rec2 [of 1 m] by (simp add: days_before_month_def)

lemma div_pred:
  assumes "0 < (k :: int)"
  shows "y div k = (y - 1) div k + (if y mod k = 0 then 1 else 0)"
proof -
  define q r where "q = (y - 1) div k" and "r = (y - 1) mod k"
  then have y: "y = k * q + (r + 1)" "0 \<le> r" "r < k"
    using assms by (simp_all add: algebra_simps) 
  show ?thesis
  proof (cases "r + 1 = k")
    case True
    then have "y = k * (q + 1)" using y by (simp add: algebra_simps)
    then have "y div k = q + 1" "y mod k = 0" using assms by simp_all
    then show ?thesis using q_def by simp
  next
    case False
    then have "y div k = q" "y mod k = r + 1"
      using y by (auto intro: int_div_pos_eq [of _ k q "r + 1"] int_mod_pos_eq [of _ k q "r + 1"])
    then show ?thesis using y(2) q_def by simp
  qed
qed

lemma days_before_year_Suc:
  "days_before_year (y + 1) = days_before_year y + (if leap_year y then 366 else 365)"
proof -
  have "(400 :: int) dvd y \<Longrightarrow> 100 dvd y" "(100 :: int) dvd y \<Longrightarrow> 4 dvd y"
    by (auto intro: dvd_trans [of 100 400] dvd_trans [of 4 100])
  then have m: "y mod 400 = 0 \<Longrightarrow> y mod 100 = 0" "y mod 100 = 0 \<Longrightarrow> y mod 4 = 0"
    by (simp_all add: mod_eq_0_iff_dvd)
  have "days_before_year (y + 1) = y * 365 + y div 4 - y div 100 + y div 400"
    "days_before_year y = (y - 1) * 365 + (y - 1) div 4 - (y - 1) div 100 + (y - 1) div 400"
    by (simp_all add: days_before_year_def Let_def)
  then show ?thesis
    using m div_pred [of 4 y] div_pred [of 100 y] div_pred [of 400 y]
    unfolding leap_year_def by (smt (verit))
qed

lemma days_of_year: "days_before_month y 12 + 31 = (if leap_year y then 366 else 365)"
  by (simp add: days_before_month_def upto_rec1 days_in_month_def)

text \<open>Consecutive days have consecutive ordinals, across months and years.\<close>

lemma date_ordinal_next:
  "date_ordinal y m (d + 1) = date_ordinal y m d + 1"
  "1 \<le> m \<Longrightarrow> date_ordinal y (m + 1) 1 = date_ordinal y m (days_in_month y m) + 1"
  "date_ordinal (y + 1) 1 1 = date_ordinal y 12 31 + 1"
  using days_of_year [of y]
  by (simp_all add: date_ordinal_def days_before_month_Suc days_before_year_Suc)

section \<open>Instants\<close>

text \<open>Microseconds since the epoch of a civil time at a UTC offset in seconds.\<close>

definition instant ::
  "int \<Rightarrow> int \<Rightarrow> int \<Rightarrow> int \<Rightarrow> int \<Rightarrow> int \<Rightarrow> int \<Rightarrow> int \<Rightarrow> int" where
  "instant y m d h mi s us off =
     ((date_ordinal y m d - 719163) * 86400 + h * 3600 + mi * 60 + s - off) * 1000000 + us"

definition make_datetime ::
  "int \<Rightarrow> int \<Rightarrow> int \<Rightarrow> int \<Rightarrow> int \<Rightarrow> int \<Rightarrow> int \<Rightarrow> int \<Rightarrow> int result" where
  "make_datetime y m d h mi s us off =
     (if valid_date y m d \<and> valid_time h mi s \<and> \<bar>off\<bar> < 86400
      then Inr (instant y m d h mi s us off)
      else Inl (Exn ValueError ''value out of range''))"

definition now_us :: "rat \<Rightarrow> int" where
  "now_us now = \<lfloor>now * 1000000\<rfloor>"

text \<open>\<open>(a - b).days\<close>\<close>

definition delta_days :: "int \<Rightarrow> int \<Rightarrow> int" where
  "delta_days a b = (a - b) div 86400000000"

text \<open>\<open>timedelta(seconds=x)\<close>: the fraction is rounded to a microsecond.\<close>

definition timedelta_of_seconds :: "pyfloat \<Rightarrow> int result" where
  "timedelta_of_seconds x = (case x of
     Fin q \<Rightarrow>
       (let ip = (if 0 \<le> q then \<lfloor>q\<rfloor> else \<lceil>q\<rceil>);
            us = ip * 1000000 + round_he (fmul 1000000 (q - of_int ip)) in
        if \<bar>us div 86400000000\<bar> \<le> 999999999 then Inr us
        else Inl (Exn OverflowError ''days out of range''))
   | NotANumber \<Rightarrow> Inl (Exn ValueError ''cannot convert float NaN to integer'')
   | _ \<Rightarrow> Inl (Exn OverflowError ''cannot convert float infinity to integer''))"

text \<open>\<open>t + d\<close> for a datetime in UTC.\<close>

definition datetime_add :: "int \<Rightarrow> int \<Rightarrow> int result" where
  "datetime_add t d =
     (if instant 1 1 1 0 0 0 0 0 \<le> t + d \<and> t + d \<le> instant 9999 12 31 23 59 59 999999 0
      then Inr (t + d) else Inl (Exn OverflowError ''date value out of range''))"

section \<open>Parsing\<close>

text \<open>Digits the regular expression has checked.\<close>

definition num :: "string \<Rightarrow> int" where
  "num s = digits_val 0 s"

definition month_names :: "string list" where
  "month_names = [''jan'', ''feb'', ''mar'', ''apr'', ''may'', ''jun'', ''jul'', ''aug'', ''sep'',
     ''oct'', ''nov'', ''dec'']"

fun index_of :: "'a list \<Rightarrow> 'a \<Rightarrow> int" where
  "index_of [] x = 0"
| "index_of (y # ys) x = (if y = x then 0 else 1 + index_of ys x)"

text \<open>
  The pattern \<open>strptime\<close> builds for \<open>"%b %d %H:%M:%S %Y %Z"\<close>, in a container whose local zone
  is UTC; its whole input must match, without regard to case.
\<close>

definition openssl_time_re :: regex where
  "openssl_time_re = rseq
     [RGroup 1 (ralt (map rlit month_names)), rplus rspace,
      RGroup 2 (ralt [RSeq (rchr CHR ''3'') (RSet False [CRange CHR ''0'' CHR ''1'']),
        RSeq (RSet False [CRange CHR ''1'' CHR ''2'']) rdigit,
        RSeq (rchr CHR ''0'') (RSet False [CRange CHR ''1'' CHR ''9'']),
        RSet False [CRange CHR ''1'' CHR ''9''],
        RSeq (rchr CHR '' '') (RSet False [CRange CHR ''1'' CHR ''9''])]), rplus rspace,
      RGroup 3 (ralt [RSeq (rchr CHR ''2'') (RSet False [CRange CHR ''0'' CHR ''3'']),
        RSeq (RSet False [CRange CHR ''0'' CHR ''1'']) rdigit, rdigit]), rchr CHR '':'',
      RGroup 4 (ralt [RSeq (RSet False [CRange CHR ''0'' CHR ''5'']) rdigit, rdigit]), rchr CHR '':'',
      RGroup 5 (ralt [RSeq (rchr CHR ''6'') (RSet False [CRange CHR ''0'' CHR ''1'']),
        RSeq (RSet False [CRange CHR ''0'' CHR ''5'']) rdigit, rdigit]), rplus rspace,
      RGroup 6 (rtimes 4 rdigit), rplus rspace,
      RGroup 7 (ralt [rlit ''utc'', rlit ''gmt''])]"

definition strptime_openssl :: "string \<Rightarrow> int result" where
  "strptime_openssl s = (case re_match True openssl_time_re s of
     Some (g, []) \<Rightarrow>
       make_datetime (num (grp g 6)) (1 + index_of month_names (lower (grp g 1)))
         (num (strip (grp g 2))) (num (grp g 3)) (num (grp g 4)) (num (grp g 5)) 0 0
   | _ \<Rightarrow> Inl (Exn ValueError ''time data does not match format''))"

text \<open>\<open>datetime.fromisoformat\<close> of a date, a time with an optional fraction and an offset;
  the fraction keeps six digits.\<close>

definition iso_fraction :: "string \<Rightarrow> int" where
  "iso_fraction ds = num (take 6 (ds @ replicate 6 CHR ''0''))"

definition fromisoformat :: "string \<Rightarrow> int result" where
  "fromisoformat s =
     (let t = drop 19 s;
          frac = (if t \<noteq> [] \<and> hd t = CHR ''.'' then takeWhile is_decimal (tl t) else []);
          z = (if t \<noteq> [] \<and> hd t = CHR ''.'' then dropWhile is_decimal (tl t) else t);
          zd = filter (\<lambda>c. c \<noteq> CHR '':'') (tl z);
          off = num (take 2 zd) * 3600 + num (drop 2 zd) * 60
      in make_datetime (num (take 4 s)) (num (take 2 (drop 5 s))) (num (take 2 (drop 8 s)))
           (num (take 2 (drop 11 s))) (num (take 2 (drop 14 s))) (num (take 2 (drop 17 s)))
           (iso_fraction frac) (if hd z = CHR ''-'' then - off else off))"

lemma demo_dates:
  "strptime_openssl ''Mar  1 00:00:00 2024 GMT'' = Inr 1709251200000000"
  "fromisoformat ''2024-03-01T01:00:00.25+01:00'' = Inr 1709251200250000"
  by code_simp+

end
