(* ===== verification/Dmesg.thy ===== *)
theory Dmesg
  imports PyDate Base
begin

text \<open>
  \<open>app/collectors/dmesg.py\<close>: the rules that tell hardware faults from boot chatter in the kernel
  log, the time stamps of its lines, and the summary of what matched within the window. The
  lemmas replace the loop over lines by its meaning: for each rule, the recent lines it is the
  first to match.
\<close>

section \<open>Rules\<close>

text \<open>A warning as the API shows it (\<open>app/models/warnings.py\<close>).\<close>

record node_warning =
  nw_severity :: severity
  nw_source :: string
  nw_message :: string
  nw_device :: "string option"

record rule =
  ru_source :: string
  ru_severity :: severity
  ru_label :: string
  ru_patterns :: "regex list"
  ru_excludes :: "regex list"

definition rule_matches :: "string \<Rightarrow> rule \<Rightarrow> bool" where
  "rule_matches message r =
     (\<not> list_ex (\<lambda>p. re_search True p message) (ru_excludes r)
      \<and> list_ex (\<lambda>p. re_search True p message) (ru_patterns r))"

definition blanks :: regex where "blanks = RStar rspace"
definition blanks1 :: regex where "blanks1 = rplus rspace"
definition digits1 :: regex where "digits1 = rplus rdigit"

definition mce_banners :: "regex list" where
  "mce_banners =
     [rseq [rlit ''mce:'', blanks, rlit ''CPU'', RStar rdigit, blanks, rlit ''supports''],
      rseq [rlit ''mce:'', blanks, rlit ''Machine check'', rdots, RGroup 1 (ralt [rlit ''enabled'', rlit ''initialized''])],
      rlit ''no mce'']"

definition aer_re :: regex where "aer_re = RSeq RWordB (rlit ''AER:'')"
definition bus_error_re :: regex where "bus_error_re = rlit ''PCIe Bus Error''"

definition mce_rule :: rule where
  "mce_rule = \<lparr>ru_source = ''memory'', ru_severity = SevCritical, ru_label = ''Machine check exceptions'',
     ru_patterns = [rlit ''Machine Check Exception'', rlit ''Fatal machine check'',
       rlit ''Processor context corrupt'', rlit ''Uncorrected hardware memory error'',
       rseq [RWordB, rlit ''mce:'', rdots, rlit ''Action required''],
       rseq [RWordB, rlit ''MCE'', RWordB, rdots, RWordB, RGroup 1 (ralt [rlit ''uncorrected'', rlit ''fatal'']), RWordB]],
     ru_excludes = mce_banners\<rparr>"

definition mce_event_rule :: rule where
  "mce_event_rule = \<lparr>ru_source = ''memory'', ru_severity = SevWarning, ru_label = ''Machine check events'',
     ru_patterns = [rseq [RWordB, rlit ''mce:'', rdots, rlit ''hardware error''],
       rlit ''machine check events logged'',
       rseq [rlit ''CPU'', blanks, digits1, rlit '': Machine Check'', RWordB]],
     ru_excludes = mce_banners\<rparr>"

definition ecc_ue_rule :: rule where
  "ecc_ue_rule = \<lparr>ru_source = ''memory'', ru_severity = SevCritical, ru_label = ''Uncorrectable ECC errors'',
     ru_patterns = [rseq [RWordB, digits1, blanks1, rlit ''UE'', RWordB],
       rlit ''uncorrected error'', rlit ''uncorrectable error''],
     ru_excludes = [rseq [RWordB, rlit ''0'', blanks1, rlit ''UE'', RWordB], aer_re, bus_error_re]\<rparr>"

definition ecc_ce_rule :: rule where
  "ecc_ce_rule = \<lparr>ru_source = ''memory'', ru_severity = SevWarning, ru_label = ''Correctable ECC errors'',
     ru_patterns = [rseq [rlit ''EDAC'', blanks1, rlit ''MC'', digits1, rlit '':'', blanks, digits1, blanks1, rlit ''CE'', RWordB],
       rseq [RWordB, rlit ''corrected error'', RWordB]],
     ru_excludes = [rseq [rlit ''EDAC'', blanks1, rlit ''MC'', digits1, rlit '':'', blanks, rlit ''0'', blanks1, rlit ''CE'', RWordB],
       rseq [rlit ''EDAC MC:'', blanks, rlit ''Ver''], rlit ''no ecc support'',
       rseq [rlit ''EDAC'', rdots, rlit ''giving out device''], aer_re, bus_error_re]\<rparr>"

definition lockup_rule :: rule where
  "lockup_rule = \<lparr>ru_source = ''cpu'', ru_severity = SevCritical, ru_label = ''CPU lockups or RCU stalls'',
     ru_patterns = [rlit ''soft lockup'', rlit ''hard LOCKUP'',
       rseq [rlit ''rcu'', rdots, rlit ''detected stall''], rseq [rlit ''rcu'', rdots, rlit ''self-detected stall'']],
     ru_excludes = []\<rparr>"

definition throttle_rule :: rule where
  "throttle_rule = \<lparr>ru_source = ''cpu'', ru_severity = SevWarning, ru_label = ''CPU thermal throttling'',
     ru_patterns = [rlit ''temperature above threshold'', rlit ''package temperature above'',
       rlit ''clock throttled'', rlit ''thermal throttl''],
     ru_excludes = [rlit ''thermal monitoring enabled'', rlit ''registered thermal governor'',
       rlit ''registered as thermal_zone'', rlit ''interrupt throttling rate'',
       rseq [rlit ''temperature'', blanks, rlit ''/'', blanks, rlit ''speed normal'']]\<rparr>"

definition disk_rule :: rule where
  "disk_rule = \<lparr>ru_source = ''disk'', ru_severity = SevCritical, ru_label = ''Disk I/O errors'',
     ru_patterns = [rseq [RWordB, rlit ''I/O error'', RWordB],
       rseq [rlit ''critical '', RGroup 1 (ralt [rlit ''medium'', rlit ''target'']), rlit '' error''],
       rlit ''failed command:'', rlit ''exception Emask'',
       rseq [rlit ''SCSI error'', rdots, rlit ''return code''], rlit ''rejecting I/O to offline device''],
     ru_excludes = [rseq [RWordB, rlit ''dev '', RGroup 1 (ralt [rlit ''sr'', rlit ''fd'', rlit ''loop'']), digits1]]\<rparr>"

definition pcie_fatal_rule :: rule where
  "pcie_fatal_rule = \<lparr>ru_source = ''pcie'', ru_severity = SevCritical, ru_label = ''PCIe uncorrected errors (AER)'',
     ru_patterns = [rseq [aer_re, rdots, rlit ''Uncorrect''],
       rseq [aer_re, rdots, RWordB, rlit ''Fatal'', RWordB], rlit ''PCIe Bus Error: severity=Uncorrect''],
     ru_excludes = []\<rparr>"

definition pcie_corrected_rule :: rule where
  "pcie_corrected_rule = \<lparr>ru_source = ''pcie'', ru_severity = SevWarning, ru_label = ''PCIe corrected errors (AER)'',
     ru_patterns = [rseq [aer_re, rdots, RWordB, rlit ''Correct'', RGroup 1 (ralt [rlit ''ed'', rlit ''able'']), rlit '' error''],
       rlit ''PCIe Bus Error: severity=Correct''],
     ru_excludes = []\<rparr>"

definition RULES :: "rule list" where
  "RULES = [mce_rule, mce_event_rule, ecc_ue_rule, ecc_ce_rule, lockup_rule, throttle_rule, disk_rule,
     pcie_fatal_rule, pcie_corrected_rule]"

section \<open>Time stamps\<close>

definition monotonic_re :: regex where
  "monotonic_re = rseq [RBol, rlit ''['', blanks, RGroup 1 (rseq [digits1, rlit ''.'', digits1]), rlit '']'',
     blanks, RGroup 2 rdots, REol]"

definition iso_re :: regex where
  "iso_re = rseq [RBol, RGroup 1 (rseq [rtimes 4 rdigit, rlit ''-'', rtimes 2 rdigit, rlit ''-'', rtimes 2 rdigit,
       rlit ''T'', rtimes 2 rdigit, rlit '':'', rtimes 2 rdigit, rlit '':'', rtimes 2 rdigit,
       ropt (rseq [RSet False [CChar CHR '','', CChar CHR ''.''], digits1]),
       RSet False [CChar CHR ''+'', CChar CHR ''-''], rtimes 2 rdigit, ropt (rlit '':''), rtimes 2 rdigit]),
     blanks, RGroup 2 rdots, REol]"

definition parse_line :: "string \<Rightarrow> int option \<Rightarrow> (int option \<times> string) result" where
  "parse_line raw boot_time =
     (case re_match False iso_re raw of
        Some (g, _) \<Rightarrow>
          (case fromisoformat (replace_char CHR '','' ''.'' (grp g 1)) of
             Inr t \<Rightarrow> Inr (Some t, grp g 2) | Inl e \<Rightarrow> Inr (None, grp g 2))
      | None \<Rightarrow>
          (case re_match False monotonic_re raw of
             Some (g, _) \<Rightarrow>
               (case boot_time of
                  None \<Rightarrow> Inr (None, grp g 2)
                | Some boot \<Rightarrow>
                    rbind (py_float (grp g 1)) (\<lambda>f. rbind (timedelta_of_seconds f) (\<lambda>d.
                    rbind (datetime_add boot d) (\<lambda>t. Inr (Some t, grp g 2)))))
           | None \<Rightarrow> Inr (None, raw)))"

section \<open>Scanning\<close>

text \<open>The hits are kept by the label of the rule; labels are distinct.\<close>

type_synonym hits = "(string, string list) dict"

definition add_hit :: "string \<Rightarrow> hits \<Rightarrow> hits" where
  "add_hit message hits = (case List.find (rule_matches message) RULES of
     None \<Rightarrow> hits
   | Some r \<Rightarrow> dset (ru_label r) (dget_or hits (ru_label r) [] @ [strip message]) hits)"

definition too_old :: "int option \<Rightarrow> int option \<Rightarrow> bool" where
  "too_old cutoff stamp = (case (cutoff, stamp) of (Some c, Some t) \<Rightarrow> t < c | _ \<Rightarrow> False)"

fun scan_lines :: "string list \<Rightarrow> int option \<Rightarrow> int option \<Rightarrow> hits \<Rightarrow> hits result" where
  "scan_lines [] boot cutoff hits = Inr hits"
| "scan_lines (raw # ls) boot cutoff hits =
     (if strip raw = [] then scan_lines ls boot cutoff hits
      else rbind (parse_line raw boot) (\<lambda>sm.
        if too_old cutoff (fst sm) then scan_lines ls boot cutoff hits
        else scan_lines ls boot cutoff (add_hit (snd sm) hits)))"

definition rule_warning :: "int \<Rightarrow> rule \<Rightarrow> string list \<Rightarrow> node_warning option" where
  "rule_warning window r messages =
     (if messages = [] then None
      else Some \<lparr>nw_severity = ru_severity r, nw_source = ru_source r,
        nw_message = ru_label r @ '': '' @ str_of_nat (length messages) @ '' in the last ''
          @ str_of_int window @ ''h '' @ em_dash @ '' ''
          @ join ''; '' (map (take 120) (drop (length messages - 2) messages)), nw_device = None\<rparr>)"

definition scan :: "string list \<Rightarrow> int option \<Rightarrow> int option \<Rightarrow> int \<Rightarrow> node_warning list result" where
  "scan lines boot cutoff window =
     rbind (scan_lines lines boot cutoff []) (\<lambda>hits.
       Inr (List.map_filter (\<lambda>r. rule_warning window r (dget_or hits (ru_label r) [])) RULES))"

section \<open>Collecting\<close>

definition timedelta_of_hours :: "int \<Rightarrow> int result" where
  "timedelta_of_hours n = (if \<bar>n * 3600 div 86400\<bar> \<le> 999999999 then Inr (n * 3600 * 1000000)
     else Inl (Exn OverflowError ''days out of range''))"

definition boot_time :: "config \<Rightarrow> host \<Rightarrow> int option result" where
  "boot_time cf h =
     (let raw = read_file h (HOST_PROC cf @ ''/uptime'') in
      if raw = [] then Inr None
      else (case split_ws raw of
          [] \<Rightarrow> Inr None
        | w # _ \<Rightarrow>
            (case rbind (py_float w) timedelta_of_seconds of
               Inl e \<Rightarrow> if is_value_error e then Inr None else Inl e
             | Inr d \<Rightarrow> rbind (datetime_add (now_us (h_now h)) (- d)) (\<lambda>t. Inr (Some t)))))"

definition dmesg_output :: "host \<Rightarrow> string option" where
  "dmesg_output h = (case h_run h [''dmesg'', ''--time-format'', ''iso''] of (out, _, rc) \<Rightarrow>
     if rc = 0 then Some out
     else (case h_run h [''dmesg''] of (out2, _, rc2) \<Rightarrow> if rc2 = 0 then Some out2 else None))"

definition collect_dmesg_warnings :: "config \<Rightarrow> host \<Rightarrow> node_warning list result" where
  "collect_dmesg_warnings cf h = (case dmesg_output h of
     None \<Rightarrow> Inr []
   | Some out \<Rightarrow>
       rbind (boot_time cf h) (\<lambda>boot.
       rbind (timedelta_of_hours (DMESG_WINDOW_HOURS cf)) (\<lambda>window.
       rbind (datetime_add (now_us (h_now h)) (- window)) (\<lambda>cutoff.
         scan (splitlines out) boot (Some cutoff) (DMESG_WINDOW_HOURS cf)))))"

section \<open>What a scan means\<close>

text \<open>The message a line adds for a rule, if any: the line is not blank, not too old, and the rule
  is the first that matches it.\<close>

definition line_hit :: "int option \<Rightarrow> int option \<Rightarrow> rule \<Rightarrow> string \<Rightarrow> string option" where
  "line_hit boot cutoff r raw =
     (case parse_line raw boot of
        Inr (stamp, message) \<Rightarrow>
          if strip raw \<noteq> [] \<and> \<not> too_old cutoff stamp \<and> List.find (rule_matches message) RULES = Some r
          then Some (strip message) else None
      | Inl e \<Rightarrow> None)"

definition rule_hits :: "string list \<Rightarrow> int option \<Rightarrow> int option \<Rightarrow> rule \<Rightarrow> string list" where
  "rule_hits lines boot cutoff r = List.map_filter (line_hit boot cutoff r) lines"

lemma labels_distinct: "distinct (map ru_label RULES)"
  by code_simp

lemma label_inj: "r \<in> set RULES \<Longrightarrow> q \<in> set RULES \<Longrightarrow> ru_label r = ru_label q \<longleftrightarrow> r = q"
  using labels_distinct by (auto simp: distinct_map inj_on_def)

lemma dget_or_dset: "dget_or (dset k v d) k' v' = (if k' = k then v else dget_or d k' v')"
  by (simp add: dget_or_def)

lemma add_hit_get:
  assumes "r \<in> set RULES"
  shows "dget_or (add_hit m hits) (ru_label r) [] = dget_or hits (ru_label r) []
    @ (if List.find (rule_matches m) RULES = Some r then [strip m] else [])"
proof (cases "List.find (rule_matches m) RULES")
  case (Some q)
  then have "q \<in> set RULES" using find_SomeD by fast
  then show ?thesis using Some label_inj [OF assms] by (auto simp: add_hit_def dget_or_dset)
qed (simp add: add_hit_def)

lemma scan_lines_hits:
  "scan_lines ls boot cutoff hits = Inr hits' \<Longrightarrow> r \<in> set RULES \<Longrightarrow>
     dget_or hits' (ru_label r) [] = dget_or hits (ru_label r) [] @ rule_hits ls boot cutoff r"
proof (induction ls arbitrary: hits)
  case (Cons raw ls)
  show ?case
  proof (cases "strip raw = []")
    case True
    then show ?thesis
      using Cons by (auto simp: rule_hits_def List.map_filter_def line_hit_def split: sum.splits)
  next
    case False
    then obtain stamp m where p: "parse_line raw boot = Inr (stamp, m)"
      using Cons.prems(1) by (auto simp: rbind_Inr_iff)
    then show ?thesis
      using False Cons.prems Cons.IH [of hits] Cons.IH [of "add_hit m hits"] add_hit_get [OF Cons.prems(2)]
      by (auto simp: rule_hits_def List.map_filter_def line_hit_def split: if_splits)
  qed
qed (simp add: rule_hits_def List.map_filter_def)

section \<open>Properties\<close>

text \<open>
  C14: The summary of a scan says of each rule exactly what the recent log says: a rule raises a
  warning when some line of the window has it as the first rule it matches, the count is the
  number of these lines, and the warnings come in the order of the rules. Blank lines and lines
  from before the window count for nothing, and no line counts twice.
\<close>

theorem scan_meaning:
  assumes "scan lines boot cutoff window = Inr ws"
  shows "ws = List.map_filter (\<lambda>r. rule_warning window r (rule_hits lines boot cutoff r)) RULES"
proof -
  obtain hits where h: "scan_lines lines boot cutoff [] = Inr hits"
      "ws = List.map_filter (\<lambda>r. rule_warning window r (dget_or hits (ru_label r) [])) RULES"
    using assms by (auto simp: scan_def rbind_Inr_iff)
  have "dget_or hits (ru_label r) [] = rule_hits lines boot cutoff r" if "r \<in> set RULES" for r
    using scan_lines_hits [OF h(1) that] by (simp add: dget_or_def dget_def)
  then show ?thesis unfolding h(2) by (intro map_filter_cong) simp
qed

definition old_line :: string where
  "old_line = ''2024-02-01T00:00:00,000000+00:00 1 UE''"
definition banner_line :: string where
  "banner_line = ''2024-03-02T00:00:00,000000+00:00 no mce''"
definition new_line :: string where
  "new_line = ''2024-03-02T00:00:00,000000+00:00 2 UE''"

lemma demo_lines:
  "parse_line old_line None = Inr (Some 1706745600000000, ''1 UE'')"
  "parse_line banner_line None = Inr (Some 1709337600000000, ''no mce'')"
  "parse_line new_line None = Inr (Some 1709337600000000, ''2 UE'')"
  "strip old_line \<noteq> []" "strip banner_line \<noteq> []" "strip new_line \<noteq> []"
  by code_simp+

lemma demo_matches:
  "List.find (rule_matches ''no mce'') RULES = None"
  "add_hit ''2 UE'' [] = [(''Uncorrectable ECC errors'', [''2 UE''])]"
  by code_simp+

lemma demo_scan:
  "scan [old_line, banner_line, new_line] None (Some 1709251200000000) 24 = Inr [\<lparr>nw_severity = SevCritical, nw_source = ''memory'',
     nw_message = ''Uncorrectable ECC errors: 1 in the last 24h '' @ em_dash @ '' 2 UE'', nw_device = None\<rparr>]"
proof -
  have "add_hit ''no mce'' [] = []" using demo_matches(1) by (simp add: add_hit_def)
  then have "scan_lines [old_line, banner_line, new_line] None (Some 1709251200000000) []
      = Inr [(''Uncorrectable ECC errors'', [''2 UE''])]"
    using demo_lines demo_matches(2) by (simp add: too_old_def)
  moreover have "List.map_filter (\<lambda>r. rule_warning 24 r (dget_or
      [(''Uncorrectable ECC errors'', [''2 UE''])] (ru_label r) [])) RULES
    = [\<lparr>nw_severity = SevCritical, nw_source = ''memory'',
     nw_message = ''Uncorrectable ECC errors: 1 in the last 24h '' @ em_dash @ '' 2 UE'', nw_device = None\<rparr>]"
    by code_simp
  ultimately show ?thesis by (simp add: scan_def)
qed

theorem scan_meaning_witness:
  "[\<lparr>nw_severity = SevCritical, nw_source = ''memory'', nw_message = ''Uncorrectable ECC errors: 1 in the last 24h ''
      @ em_dash @ '' 2 UE'', nw_device = None\<rparr>]
   = List.map_filter (\<lambda>r. rule_warning 24 r (rule_hits [old_line, banner_line, new_line] None (Some 1709251200000000) r)) RULES"
  by (rule scan_meaning [OF demo_scan])

text \<open>
  A PCIe link error is never taken for a memory fault: a message that mentions AER or a PCIe
  bus error is counted by neither of the ECC rules, whatever else it says.
\<close>

theorem pcie_is_not_memory:
  assumes "re_search True aer_re message \<or> re_search True bus_error_re message"
  shows "List.find (rule_matches message) RULES \<notin> {Some ecc_ue_rule, Some ecc_ce_rule}"
proof -
  have "\<not> rule_matches message ecc_ue_rule" "\<not> rule_matches message ecc_ce_rule"
    using assms by (auto simp: rule_matches_def ecc_ue_rule_def ecc_ce_rule_def)
  then show ?thesis using find_SomeD [of "rule_matches message" RULES] by blast
qed

theorem pcie_is_not_memory_witness:
  "List.find (rule_matches ''pcieport 0000:00:1c.0: AER: Corrected error received'') RULES
     \<notin> {Some ecc_ue_rule, Some ecc_ce_rule}"
  by (rule pcie_is_not_memory) code_simp

end
