(* ===== verification/Mounts.thy ===== *)
theory Mounts
  imports Regex Base
begin

text \<open>
  The disk usage half of \<open>app/collectors/storage.py\<close>: reading \<open>/proc/1/mountinfo\<close>, choosing
  one mount point for each filesystem, and reading the numbers of \<open>df\<close>. Characters past
  Latin-1 do not occur, so an escape above \<open>\377\<close>, which the kernel never writes, is taken modulo
  256. The lemmas show what is listed, that unescaping inverts the kernel's escaping, and when a
  filesystem is reported as filling up.
\<close>

section \<open>Mount points\<close>

definition df_skip_types :: "string list" where
  "df_skip_types = [''tmpfs'', ''devtmpfs'', ''ramfs'', ''squashfs'', ''iso9660'', ''udf'', ''erofs'',
     ''proc'', ''sysfs'', ''cgroup'', ''cgroup2'', ''devpts'', ''mqueue'', ''debugfs'',
     ''tracefs'', ''securityfs'', ''pstore'', ''bpf'', ''configfs'', ''fusectl'',
     ''hugetlbfs'', ''nsfs'', ''autofs'', ''rpc_pipefs'', ''binfmt_misc'', ''efivarfs'',
     ''selinuxfs'']"

definition octal_digit :: "char \<Rightarrow> bool" where
  "octal_digit c = in_range CHR ''0'' CHR ''7'' c"

definition octal_val :: "string \<Rightarrow> nat" where
  "octal_val s = foldl (\<lambda>n c. 8 * n + (cp c - 48)) 0 s"

definition octal_escape :: regex where
  "octal_escape = RSeq (rchr bslash) (RGroup 1 (rtimes 3 (RSet False [CRange CHR ''0'' CHR ''7''])))"

definition unescape_mountinfo :: "string \<Rightarrow> string" where
  "unescape_mountinfo field = re_sub False octal_escape (\<lambda>g. [char_of (octal_val (grp g 1))]) field"

record mount =
  mt_source :: string
  mt_type :: string
  mt_point :: string

lemma mount_eta [simp]: "\<lparr>mt_source = mt_source m, mt_type = mt_type m, mt_point = mt_point m\<rparr> = m"
  by simp

text \<open>The device and the mount a line describes, with its mount options; None when the line is
  skipped for its form, IndexError when it has no options.\<close>

definition mount_line :: "string \<Rightarrow> (string \<times> mount \<times> string list) option result" where
  "mount_line line = (case partition_str '' - '' line of (pre, sep, post) \<Rightarrow>
     (let fields = split_ws pre; tail = split_ws post in
      if \<not> sep \<or> length fields < 5 \<or> length tail < 2 then Inr None
      else if hd tail \<in> set df_skip_types then Inr None
      else if length fields < 6 then Inl (Exn IndexError ''list index out of range'')
      else Inr (Some (fields ! 2,
             \<lparr>mt_source = unescape_mountinfo (tail ! 1), mt_type = hd tail,
               mt_point = unescape_mountinfo (fields ! 4)\<rparr>,
             split_char CHR '','' (fields ! 5)))))"

type_synonym mstate_df = "(string, mount) dict \<times> bool"

definition keep_mount :: "string \<Rightarrow> mount \<Rightarrow> (string, mount) dict \<Rightarrow> (string, mount) dict" where
  "keep_mount dev m by_dev = (case dget by_dev dev of
     None \<Rightarrow> dset dev m by_dev
   | Some prev \<Rightarrow>
       if length (mt_point m) < length (mt_point prev) then dset dev m by_dev else by_dev)"

definition mount_step :: "string \<times> mount \<times> string list \<Rightarrow> mstate_df \<Rightarrow> mstate_df" where
  "mount_step dmo st = (case dmo of (dev, m, opts) \<Rightarrow> case st of (by_dev, overlay_seen) \<Rightarrow>
     if ''ro'' \<in> set opts then st
     else if mt_type m = ''overlay'' then
       (if overlay_seen \<or> mt_point m \<noteq> ''/'' then st else (keep_mount dev m by_dev, True))
     else (keep_mount dev m by_dev, overlay_seen))"

fun mount_lines :: "string list \<Rightarrow> mstate_df \<Rightarrow> mstate_df result" where
  "mount_lines [] st = Inr st"
| "mount_lines (l # ls) st = rbind (mount_line l) (\<lambda>r. case r of
     None \<Rightarrow> mount_lines ls st | Some dmo \<Rightarrow> mount_lines ls (mount_step dmo st))"

definition parse_mountinfo :: "string \<Rightarrow> mount list result" where
  "parse_mountinfo text =
     rbind (mount_lines (splitlines text) ([], False)) (\<lambda>st. Inr (map snd (fst st)))"

section \<open>Usage\<close>

record disk_usage =
  du_filesystem :: string
  du_mount :: string
  du_fs_type :: string
  du_size :: string
  du_used :: string
  du_available :: string
  du_percent :: int
  du_severity :: severity

definition usage_severity :: "int \<Rightarrow> severity" where
  "usage_severity pct = (if 95 \<le> pct then SevCritical else if 85 \<le> pct then SevWarning else SevOk)"

interpretation usage: threshold_scale usage_severity "(\<le>)"
  by unfold_locales (auto simp: usage_severity_def severity_order)

definition percent_of :: "string \<Rightarrow> int result" where
  "percent_of pct = (let digits = filter (\<lambda>c. c \<noteq> CHR ''%'') pct in
     if str_isdigit digits then py_int digits else Inr 0)"

definition df_line :: "(string, mount) dict \<Rightarrow> string \<Rightarrow> disk_usage option result" where
  "df_line by_path line = (case rsplit_ws 4 (strip line) of
     [path, sz, used, avail, pct] \<Rightarrow>
       (case dget by_path path of
          None \<Rightarrow> Inr None
        | Some m \<Rightarrow>
            if sz = ''0'' then Inr None
            else rbind (percent_of pct) (\<lambda>pct_num.
              Inr (Some \<lparr>du_filesystem = mt_source m, du_mount = mt_point m, du_fs_type = mt_type m, du_size = sz,
                du_used = used, du_available = avail, du_percent = pct_num,
                du_severity = usage_severity pct_num\<rparr>)))
   | _ \<Rightarrow> Inr None)"

definition df_paths :: "string \<Rightarrow> mount list \<Rightarrow> (string, mount) dict" where
  "df_paths prefix mounts = fold (\<lambda>m. dset (prefix @ mt_point m) m) mounts []"

definition df_usage :: "host \<Rightarrow> string \<Rightarrow> mount list \<Rightarrow> disk_usage list result" where
  "df_usage h prefix mounts =
     (if mounts = [] then Inr []
      else (let by_path = df_paths prefix mounts in
        case h_run h ([''df'', ''-h'', ''--output=file,size,used,avail,pcent'', ''--''] @ dkeys by_path) of
          (stdout, _, _) \<Rightarrow>
            rbind (rmap (df_line by_path) (splitlines stdout)) (\<lambda>us. Inr (List.map_filter id us))))"

definition collect_disk_usage :: "config \<Rightarrow> host \<Rightarrow> disk_usage list result" where
  "collect_disk_usage cf h =
     rbind (parse_mountinfo (read_file h (HOST_PROC cf @ ''/1/mountinfo''))) (\<lambda>mounts.
     rbind (df_usage h (HOST_PROC cf @ ''/1/root'') mounts) (\<lambda>usages.
     if usages \<noteq> [] then Inr usages
     else rbind (parse_mountinfo (read_file h ''/proc/self/mountinfo'')) (df_usage h [])))"

section \<open>Unescaping\<close>

text \<open>How the kernel writes a path: the characters of a set that has the backslash in it become a
  backslash and three octal digits.\<close>

definition octal3 :: "nat \<Rightarrow> string" where
  "octal3 n = [char_of (48 + n div 64), char_of (48 + n div 8 mod 8), char_of (48 + n mod 8)]"

definition kernel_escape :: "char list \<Rightarrow> string \<Rightarrow> string" where
  "kernel_escape special s =
     concat (map (\<lambda>c. if c \<in> set special then bslash # octal3 (cp c) else [c]) s)"

lemma octal_digit_char: "n < 8 \<Longrightarrow> octal_digit (char_of (48 + n)) \<and> cp (char_of (48 + n)) = 48 + n"
  by (simp add: octal_digit_def in_range_def cp_def)

lemma octal3_facts:
  assumes "n < 256"
  shows "list_all octal_digit (octal3 n)" "octal_val (octal3 n) = n" "length (octal3 n) = 3"
proof -
  have b: "n div 64 < 8" "n div 8 mod 8 < 8" "n mod 8 < 8" using assms by linarith+
  note d = octal_digit_char [OF b(1)] octal_digit_char [OF b(2)] octal_digit_char [OF b(3)]
  show "list_all octal_digit (octal3 n)" "length (octal3 n) = 3" using d by (simp_all add: octal3_def)
  have "n div 64 = n div 8 div 8" by (simp add: div_mult2_eq [symmetric])
  then have "8 * (8 * (n div 64) + n div 8 mod 8) + n mod 8 = n" by presburger
  then show "octal_val (octal3 n) = n" using d by (simp add: octal3_def octal_val_def)
qed

lemma match_escape:
  assumes "octal_digit a" "octal_digit b" "octal_digit c"
  shows "match_at False octal_escape p (bslash # a # b # c # s)
    = Some (c # b # a # bslash # p, s, [(1, [a, b, c])])"
  using assms
  by (simp add: match_at_def octal_escape_def rchr_def set_step_def in_set_def octal_digit_def
      numeral_3_eq_3)

lemma match_plain: "c \<noteq> bslash \<Longrightarrow> match_at False octal_escape p (c # s) = None"
  by (simp add: match_at_def octal_escape_def rchr_def set_step_def in_set_def)

lemma unescape_escape_from:
  assumes "bslash \<in> set special"
  shows "sub_from False octal_escape (\<lambda>g. [char_of (octal_val (grp g 1))]) p (kernel_escape special s) = s"
proof (induction s arbitrary: p)
  case (Cons c s)
  let ?f = "\<lambda>g. [char_of (octal_val (grp g 1))]"
  show ?case
  proof (cases "c \<in> set special")
    case True
    obtain x y z where o3: "octal3 (cp c) = [x, y, z]" by (simp add: octal3_def)
    then have d: "octal_digit x" "octal_digit y" "octal_digit z" "octal_val [x, y, z] = cp c"
      using octal3_facts [of "cp c"] by auto
    have "kernel_escape special (c # s) = bslash # x # y # z # kernel_escape special s"
      using True o3 by (simp add: kernel_escape_def)
    moreover have "char_of (cp c) = c" by (simp add: cp_def)
    ultimately show ?thesis
      using match_escape [OF d(1-3)] d(4) Cons.IH by (simp add: grp_def dget_def)
  next
    case False
    then have "c \<noteq> bslash" using assms by auto
    then show ?thesis
      using False Cons.IH match_plain by (simp add: kernel_escape_def)
  qed
qed (simp add: kernel_escape_def)

section \<open>What is kept\<close>

lemma keep_mount_wf: "dwf d \<Longrightarrow> dwf (keep_mount dev m d)"
  by (simp add: keep_mount_def split: option.splits)

lemma keep_mount_get:
  "dget (keep_mount dev m d) k =
     (if k = dev \<and> (\<forall>prev. dget d dev = Some prev \<longrightarrow> length (mt_point m) < length (mt_point prev))
      then Some m else dget d k)"
  by (auto simp: keep_mount_def split: option.splits)

text \<open>Lines that name a writable filesystem of their own, and what of an overlay is kept.\<close>

definition writable :: "string \<times> mount \<times> string list \<Rightarrow> bool" where
  "writable dmo = (''ro'' \<notin> set (snd (snd dmo)))"

definition mounts_ok :: "(string \<times> mount \<times> string list) set \<Rightarrow> mstate_df \<Rightarrow> bool" where
  "mounts_ok seen st = (dwf (fst st)
     \<and> (\<forall>dev m. dget (fst st) dev = Some m \<longrightarrow> (\<exists>opts. (dev, m, opts) \<in> seen \<and> writable (dev, m, opts)))
     \<and> (\<forall>dev m opts. (dev, m, opts) \<in> seen \<and> writable (dev, m, opts) \<and> mt_type m \<noteq> ''overlay''
          \<longrightarrow> (\<exists>m'. dget (fst st) dev = Some m' \<and> length (mt_point m') \<le> length (mt_point m))))"

lemma mount_step_keeps:
  "mount_step dmo st = st \<or> (writable dmo \<and> fst (mount_step dmo st) = keep_mount (fst dmo) (fst (snd dmo)) (fst st))"
  by (auto simp: mount_step_def writable_def split: prod.splits)

text \<open>The two things a step does: keeping the mount of a writable line, or passing it over.\<close>

lemma mount_kept_ok:
  assumes "mounts_ok seen st" "fst st' = keep_mount dev m (fst st)" "writable (dev, m, opts)"
  shows "mounts_ok (insert (dev, m, opts) seen) st'"
  unfolding mounts_ok_def
proof (intro conjI allI impI)
  show "dwf (fst st')" using assms(1,2) by (simp add: mounts_ok_def keep_mount_wf)
next
  fix k x assume "dget (fst st') k = Some x"
  then have "k = dev \<and> x = m \<or> dget (fst st) k = Some x"
    using assms(2) by (auto simp: keep_mount_get split: if_splits)
  then show "\<exists>os. (k, x, os) \<in> insert (dev, m, opts) seen \<and> writable (k, x, os)"
    using assms(1,3) unfolding mounts_ok_def by blast
next
  fix k x os assume a: "(k, x, os) \<in> insert (dev, m, opts) seen \<and> writable (k, x, os) \<and> mt_type x \<noteq> ''overlay''"
  have old: "\<exists>y. dget (fst st) k = Some y \<and> length (mt_point y) \<le> length (mt_point x)" if "(k, x, os) \<in> seen"
    using assms(1) a that unfolding mounts_ok_def by blast
  have new: "\<exists>y. dget (fst st') dev = Some y \<and> length (mt_point y) \<le> length (mt_point m)
      \<and> (\<forall>z. dget (fst st) dev = Some z \<longrightarrow> length (mt_point y) \<le> length (mt_point z))"
    using assms(2) by (cases "dget (fst st) dev") (auto simp: keep_mount_get)
  have other: "k \<noteq> dev \<Longrightarrow> dget (fst st') k = dget (fst st) k"
    using assms(2) by (simp add: keep_mount_get)
  show "\<exists>y. dget (fst st') k = Some y \<and> length (mt_point y) \<le> length (mt_point x)"
  proof (cases "(k, x, os) \<in> seen")
    case True
    then show ?thesis using old new other by (cases "k = dev") (auto intro: le_trans)
  next
    case False
    then show ?thesis using a new by auto
  qed
qed

lemma mount_skipped_ok:
  assumes "mounts_ok seen st" "\<not> writable (dev, m, opts) \<or> mt_type m = ''overlay''"
  shows "mounts_ok (insert (dev, m, opts) seen) st"
  unfolding mounts_ok_def
proof (intro conjI allI impI)
  show "dwf (fst st)" using assms(1) by (simp add: mounts_ok_def)
  show "\<exists>os. (k, x, os) \<in> insert (dev, m, opts) seen \<and> writable (k, x, os)"
    if "dget (fst st) k = Some x" for k x
    using assms(1) that unfolding mounts_ok_def by blast
  show "\<exists>y. dget (fst st) k = Some y \<and> length (mt_point y) \<le> length (mt_point x)"
    if a: "(k, x, os) \<in> insert (dev, m, opts) seen \<and> writable (k, x, os) \<and> mt_type x \<noteq> ''overlay''" for k x os
  proof -
    have "(k, x, os) \<in> seen" using a assms(2) by auto
    then show ?thesis using assms(1) a unfolding mounts_ok_def by blast
  qed
qed

lemma mount_step_ok:
  assumes "mounts_ok seen st"
  shows "mounts_ok (insert dmo seen) (mount_step dmo st)"
proof -
  obtain dev m opts where d: "dmo = (dev, m, opts)" by (cases dmo)
  have "(mount_step dmo st = st \<and> (\<not> writable dmo \<or> mt_type m = ''overlay''))
    \<or> (writable dmo \<and> fst (mount_step dmo st) = keep_mount dev m (fst st))"
    by (cases st) (simp add: d mount_step_def writable_def)
  then show ?thesis using mount_kept_ok [OF assms] mount_skipped_ok [OF assms] unfolding d by fastforce
qed

definition line_mounts :: "string list \<Rightarrow> (string \<times> mount \<times> string list) set" where
  "line_mounts ls = {dmo. \<exists>l \<in> set ls. mount_line l = Inr (Some dmo)}"

lemma line_mounts_simps [simp]:
  "line_mounts [] = {}"
  "mount_line l = Inr None \<Longrightarrow> line_mounts (l # ls) = line_mounts ls"
  "mount_line l = Inr (Some dmo) \<Longrightarrow> line_mounts (l # ls) = insert dmo (line_mounts ls)"
  by (auto simp: line_mounts_def)

lemma mount_lines_ok:
  "mount_lines ls st = Inr st' \<Longrightarrow> mounts_ok seen st \<Longrightarrow> mounts_ok (seen \<union> line_mounts ls) st'"
proof (induction ls arbitrary: st seen)
  case (Cons l ls)
  then obtain r where r: "mount_line l = Inr r" by (auto simp: rbind_Inr_iff)
  show ?case
  proof (cases r)
    case None
    then show ?thesis using Cons r by simp
  next
    case (Some dmo)
    then have "mounts_ok (insert dmo seen \<union> line_mounts ls) st'"
      using Cons.prems r Cons.IH [OF _ mount_step_ok [OF Cons.prems(2)]] by simp
    then show ?thesis using Some r by simp
  qed
qed simp

lemma mount_line_type:
  "mount_line l = Inr (Some (dev, m, opts)) \<Longrightarrow> mt_type m \<notin> set df_skip_types"
  by (auto simp: mount_line_def Let_def split: prod.splits if_splits)

section \<open>Properties\<close>

text \<open>
  C33: One mount point is listed for each device. It stands on a writable line of a filesystem
  someone can fill, and no writable line of the device names a shorter one; every writable
  filesystem that is not a container's overlay is listed.
\<close>

theorem mounts_listed:
  assumes "parse_mountinfo text = Inr ms"
  shows "\<exists>d. ms = map snd d \<and> distinct (map fst d)
    \<and> (\<forall>(dev, m) \<in> set d. mt_type m \<notin> set df_skip_types \<and>
         (\<exists>l opts. l \<in> set (splitlines text) \<and> mount_line l = Inr (Some (dev, m, opts)) \<and> ''ro'' \<notin> set opts))
    \<and> (\<forall>l \<in> set (splitlines text). \<forall>dev m opts. mount_line l = Inr (Some (dev, m, opts))
         \<and> ''ro'' \<notin> set opts \<and> mt_type m \<noteq> ''overlay'' \<longrightarrow>
         (\<exists>m'. (dev, m') \<in> set d \<and> length (mt_point m') \<le> length (mt_point m)))"
proof -
  obtain d ov where d: "mount_lines (splitlines text) ([], False) = Inr (d, ov)" "ms = map snd d"
    using assms by (auto simp: parse_mountinfo_def rbind_Inr_iff)
  have ok: "mounts_ok (line_mounts (splitlines text)) (d, ov)"
    using mount_lines_ok [OF d(1), of "{}"] by (simp add: mounts_ok_def)
  have wf: "dwf d" and
    from_line: "\<And>dev m. dget d dev = Some m \<Longrightarrow>
      \<exists>opts. (dev, m, opts) \<in> line_mounts (splitlines text) \<and> writable (dev, m, opts)" and
    to_line: "\<And>dev m opts. (dev, m, opts) \<in> line_mounts (splitlines text) \<Longrightarrow> writable (dev, m, opts) \<Longrightarrow>
      mt_type m \<noteq> ''overlay'' \<Longrightarrow>
      \<exists>m'. dget d dev = Some m' \<and> length (mt_point m') \<le> length (mt_point m)"
    using ok unfolding mounts_ok_def fst_conv by blast+
  have get: "dget d dev = Some m \<longleftrightarrow> (dev, m) \<in> set d" for dev m
    using wf by (simp add: dget_def dwf_def)
  show ?thesis
  proof (intro exI [of _ d] conjI ballI allI impI)
    show "case dm of (dev, m) \<Rightarrow> mt_type m \<notin> set df_skip_types \<and>
         (\<exists>l opts. l \<in> set (splitlines text) \<and> mount_line l = Inr (Some (dev, m, opts)) \<and> ''ro'' \<notin> set opts)"
      if "dm \<in> set d" for dm
    proof -
      obtain dev m where dm: "dm = (dev, m)" by (cases dm)
      then have "dget d dev = Some m" using that get by simp
      then obtain opts where "(dev, m, opts) \<in> line_mounts (splitlines text)" "writable (dev, m, opts)"
        using from_line by blast
      moreover from this(2) have "''ro'' \<notin> set opts" by (simp add: writable_def)
      ultimately obtain l where "l \<in> set (splitlines text)" "mount_line l = Inr (Some (dev, m, opts))"
        "''ro'' \<notin> set opts"
        unfolding line_mounts_def by blast
      then show ?thesis using mount_line_type [of l dev m opts] dm by auto
    qed
    show "\<exists>m'. (dev, m') \<in> set d \<and> length (mt_point m') \<le> length (mt_point m)"
      if "l \<in> set (splitlines text)" "mount_line l = Inr (Some (dev, m, opts))
         \<and> ''ro'' \<notin> set opts \<and> mt_type m \<noteq> ''overlay''" for l dev m opts
      using that to_line [of dev m opts] get by (auto simp: line_mounts_def writable_def)
  qed (use d wf in \<open>simp_all add: dwf_def\<close>)
qed

definition demo_mountinfo :: string where
  "demo_mountinfo = ''36 35 98:0 /sub /var/lib rw - ext4 /dev/a rw'' @ [nl] @
     ''37 35 98:0 / /var rw,noatime - ext4 /dev/a rw'' @ [nl] @
     ''38 35 0:4 / /proc rw - proc proc rw'' @ [nl]"

lemma demo_mounts: "parse_mountinfo demo_mountinfo = Inr [\<lparr>mt_source = ''/dev/a'', mt_type = ''ext4'', mt_point = ''/var''\<rparr>]"
  by code_simp

theorem mounts_listed_witness:
  "\<exists>d :: (string, mount) dict. [\<lparr>mt_source = ''/dev/a'', mt_type = ''ext4'', mt_point = ''/var''\<rparr>] = map snd d \<and> distinct (map fst d)"
proof (rule exE [OF mounts_listed [OF demo_mounts]], elim conjE)
  fix d :: "(string, mount) dict"
  assume "[\<lparr>mt_source = ''/dev/a'', mt_type = ''ext4'', mt_point = ''/var''\<rparr>] = map snd d"
    "distinct (map fst d)"
  then show ?thesis by (intro exI [of _ d]) simp
qed

text \<open>
  C34: Unescaping a field gives back the path the kernel wrote, whichever characters the kernel
  escapes as long as the backslash is one of them.
\<close>

theorem unescape_inverts_kernel:
  assumes "bslash \<in> set special"
  shows "unescape_mountinfo (kernel_escape special path) = path"
  using unescape_escape_from [OF assms] by (simp add: unescape_mountinfo_def re_sub_def)

theorem unescape_inverts_kernel_witness:
  "unescape_mountinfo (kernel_escape [CHR '' '', tab, nl, bslash] (''/mnt/a b'' @ [bslash])) = ''/mnt/a b'' @ [bslash]"
  by (rule unescape_inverts_kernel) simp

text \<open>
  A line of five fields before the separator, the fewest the guard of the parser lets
  through, makes it raise: it reads the sixth field, the mount options, which is not there.
\<close>

theorem mountinfo_five_fields:
  assumes "partition_str '' - '' line = (pre, True, post)" "length (split_ws pre) = 5"
    "2 \<le> length (split_ws post)" "hd (split_ws post) \<notin> set df_skip_types" "splitlines text = line # rest"
  shows "parse_mountinfo text = Inl (Exn IndexError ''list index out of range'')"
  using assms by (simp add: parse_mountinfo_def mount_line_def Let_def)

definition five_fields :: string where
  "five_fields = ''36 35 98:0 / /mnt - ext4 /dev/a rw''"

theorem mountinfo_five_fields_witness:
  "parse_mountinfo five_fields = Inl (Exn IndexError ''list index out of range'')"
proof (rule mountinfo_five_fields)
  show "partition_str '' - '' five_fields = (''36 35 98:0 / /mnt'', True, ''ext4 /dev/a rw'')" by code_simp
  show "length (split_ws ''36 35 98:0 / /mnt'') = 5" by code_simp
  show "2 \<le> length (split_ws ''ext4 /dev/a rw'')" by code_simp
  show "hd (split_ws ''ext4 /dev/a rw'') \<notin> set df_skip_types" by code_simp
  show "splitlines five_fields = [five_fields]" by code_simp
qed

text \<open>
  Every filesystem in the usage report is one that was asked about, and it is marked
  critical from 95 percent and at least a warning from 85 percent of what \<open>df\<close> said.
\<close>

theorem usage_reported:
  assumes "df_usage h prefix mounts = Inr us" "u \<in> set us"
  shows "\<lparr>mt_source = du_filesystem u, mt_type = du_fs_type u, mt_point = du_mount u\<rparr> \<in> set mounts
    \<and> (du_severity u = SevCritical \<longleftrightarrow> 95 \<le> du_percent u) \<and> (du_severity u = SevOk \<longleftrightarrow> du_percent u < 85)"
proof -
  obtain stdout err rc rs where r: "rmap (df_line (df_paths prefix mounts)) (splitlines stdout) = Inr rs"
      "us = List.map_filter id rs"
    using assms by (auto simp: df_usage_def Let_def rbind_Inr_iff split: if_splits prod.splits)
  then have "Some u \<in> set rs" using assms(2) by (auto simp: List.map_filter_def)
  then obtain line where "df_line (df_paths prefix mounts) line = Inr (Some u)"
    using rmap_in [OF r(1)] by blast
  then obtain path where p: "dget (df_paths prefix mounts) path = Some \<lparr>mt_source = du_filesystem u, mt_type = du_fs_type u, mt_point = du_mount u\<rparr>"
      "du_severity u = usage_severity (du_percent u)"
    by (auto simp: df_line_def rbind_Inr_iff split: list.splits option.splits if_splits)
  have "dget (fold (\<lambda>m. dset (prefix @ mt_point m) m) ms d) path = Some m \<Longrightarrow>
      m \<in> set ms \<or> dget d path = Some m" for m d ms
    by (induction ms arbitrary: d) (fastforce split: if_splits)+
  from this [OF p(1) [unfolded df_paths_def]]
  have "\<lparr>mt_source = du_filesystem u, mt_type = du_fs_type u, mt_point = du_mount u\<rparr> \<in> set mounts" by simp
  then show ?thesis using p(2) by (auto simp: usage_severity_def)
qed

definition df_host :: host where
  "df_host = null_host\<lparr>h_run := (\<lambda>_. (''/p/var    10G  9.6G  400M  96%'' @ [nl], [], 1))\<rparr>"

definition demo_row :: disk_usage where
  "demo_row = \<lparr>du_filesystem = ''/dev/a'', du_mount = ''/var'', du_fs_type = ''ext4'', du_size = ''10G'',
     du_used = ''9.6G'', du_available = ''400M'', du_percent = 96, du_severity = SevCritical\<rparr>"

lemma demo_usage:
  "df_usage df_host ''/p'' [\<lparr>mt_source = ''/dev/a'', mt_type = ''ext4'', mt_point = ''/var''\<rparr>] = Inr [demo_row]"
  by code_simp

theorem usage_reported_witness:
  "(du_severity demo_row = SevCritical \<longleftrightarrow> 95 \<le> du_percent demo_row)
     \<and> (du_severity demo_row = SevOk \<longleftrightarrow> du_percent demo_row < 85)"
  using usage_reported [OF demo_usage, of demo_row] by simp

end
