(* ===== verification/Pydantic.thy ===== *)
theory Pydantic
  imports PyJson
begin

text \<open>
  What the collectors use of \<open>pydantic\<close> on values they have not checked themselves: the
  validation of one field. The library is outside the repository, so the validators are
  parameters; \<open>pyd_ok\<close> states the documented behaviour that a value of the declared type is
  accepted unchanged and that a rejected one raises ValidationError. The rest of the theory are
  dynamic operations on JSON values that several collectors share.
\<close>

record pyd =
  pd_str :: "json \<Rightarrow> string result"
  pd_int :: "json \<Rightarrow> int result"
  pd_bool :: "json \<Rightarrow> bool result"
  pd_float :: "json \<Rightarrow> pyfloat result"

definition pyd_ok :: "pyd \<Rightarrow> bool" where
  "pyd_ok pd = ((\<forall>s. pd_str pd (JStr s) = Inr s) \<and> (\<forall>i. pd_int pd (JInt i) = Inr i)
     \<and> (\<forall>b. pd_bool pd (JBool b) = Inr b) \<and> (\<forall>f. pd_float pd (JFloat f) = Inr f)
     \<and> (\<forall>v e. pd_str pd v = Inl e \<or> pd_int pd v = Inl e \<or> pd_bool pd v = Inl e \<or> pd_float pd v = Inl e
          \<longrightarrow> exn_cls e = ValidationError))"

definition invalid :: "'a result" where
  "invalid = Inl (Exn ValidationError ''validation error'')"

text \<open>An instance without any conversion, for the witnesses.\<close>

definition strict_pyd :: pyd where
  "strict_pyd = \<lparr>pd_str = (\<lambda>v. case v of JStr s \<Rightarrow> Inr s | _ \<Rightarrow> invalid),
     pd_int = (\<lambda>v. case v of JInt i \<Rightarrow> Inr i | _ \<Rightarrow> invalid),
     pd_bool = (\<lambda>v. case v of JBool b \<Rightarrow> Inr b | _ \<Rightarrow> invalid),
     pd_float = (\<lambda>v. case v of JFloat f \<Rightarrow> Inr f | _ \<Rightarrow> invalid)\<rparr>"

lemma strict_pyd_ok: "pyd_ok strict_pyd"
  by (auto simp: pyd_ok_def strict_pyd_def invalid_def split: json.splits)

lemma pyd_okD:
  assumes "pyd_ok pd"
  shows "pd_str pd (JStr s) = Inr s" "pd_int pd (JInt i) = Inr i" "pd_bool pd (JBool b) = Inr b"
    "pd_float pd (JFloat f) = Inr f"
    "pd_str pd v = Inl e \<Longrightarrow> exn_cls e = ValidationError"
    "pd_int pd v = Inl e \<Longrightarrow> exn_cls e = ValidationError"
    "pd_bool pd v = Inl e \<Longrightarrow> exn_cls e = ValidationError"
    "pd_float pd v = Inl e \<Longrightarrow> exn_cls e = ValidationError"
  using assms unfolding pyd_ok_def by blast+

section \<open>Dynamic operations\<close>

text \<open>\<open>key in v\<close>, \<open>v[key]\<close>, \<open>len(v)\<close> and \<open>int(v)\<close>\<close>

definition jmem :: "string \<Rightarrow> json \<Rightarrow> bool result" where
  "jmem key v = (case v of
     JObj m \<Rightarrow> Inr (key \<in> set (dkeys m))
   | JStr s \<Rightarrow> Inr (contains s key)
   | JList xs \<Rightarrow> Inr (JStr key \<in> set xs)
   | _ \<Rightarrow> Inl (Exn TypeError (''argument of type '' @ [squote] @ type_name v @ [squote] @ '' is not iterable'')))"

definition jindex :: "json \<Rightarrow> string \<Rightarrow> json result" where
  "jindex v key = (case v of
     JObj m \<Rightarrow> (case dget m key of None \<Rightarrow> Inl (Exn KeyError key) | Some x \<Rightarrow> Inr x)
   | _ \<Rightarrow> Inl (Exn TypeError ''indices must be integers''))"

definition jlen :: "json \<Rightarrow> int result" where
  "jlen v = (case v of
     JObj m \<Rightarrow> Inr (int (length m))
   | JStr s \<Rightarrow> Inr (int (length s))
   | JList xs \<Rightarrow> Inr (int (length xs))
   | _ \<Rightarrow> Inl (Exn TypeError (''object of type '' @ [squote] @ type_name v @ [squote] @ '' has no len()'')))"

definition rat_trunc :: "rat \<Rightarrow> int" where
  "rat_trunc q = (if 0 \<le> q then \<lfloor>q\<rfloor> else \<lceil>q\<rceil>)"

definition jint :: "json \<Rightarrow> int result" where
  "jint v = (case v of
     JInt i \<Rightarrow> Inr i
   | JBool b \<Rightarrow> Inr (if b then 1 else 0)
   | JStr s \<Rightarrow> py_int s
   | JFloat (Fin q) \<Rightarrow> Inr (rat_trunc q)
   | JFloat NotANumber \<Rightarrow> Inl (Exn ValueError ''cannot convert float NaN to integer'')
   | JFloat _ \<Rightarrow> Inl (Exn OverflowError ''cannot convert float infinity to integer'')
   | _ \<Rightarrow> Inl (Exn TypeError (''int() argument must not be '' @ type_name v)))"

definition is_dict :: "json \<Rightarrow> bool" where
  "is_dict v = (case v of JObj _ \<Rightarrow> True | _ \<Rightarrow> False)"

definition as_dict :: "json \<Rightarrow> (string \<times> json) list" where
  "as_dict v = (case v of JObj m \<Rightarrow> m | _ \<Rightarrow> [])"

text \<open>The first element of a loop for which the body breaks; the body may raise.\<close>

fun rfind :: "('a \<Rightarrow> 'b option result) \<Rightarrow> 'a list \<Rightarrow> 'b option result" where
  "rfind f [] = Inr None"
| "rfind f (x # xs) = rbind (f x) (\<lambda>r. case r of None \<Rightarrow> rfind f xs | Some y \<Rightarrow> Inr (Some y))"

end
