(* ===== verification/Smart.thy ===== *)
theory Smart
  imports Mounts Pydantic
begin

text \<open>
  The disks half of \<open>app/collectors/storage.py\<close>: the inventory \<open>lsblk\<close> prints, which of the
  disks are asked for their SMART data, how \<open>smartctl\<close>'s JSON becomes a report, and what is
  reported when there is none. The lemmas settle when a drive reads as healthy or failing, and
  that no drive that exists drops out of the list.
\<close>

section \<open>The inventory\<close>

record partition =
  pa_name :: string
  pa_size :: string
  pa_type :: string
  pa_mountpoint :: "string option"
  pa_fstype :: "string option"

record disk =
  di_name :: string
  di_model :: "string option"
  di_serial :: "string option"
  di_size :: string
  di_transport :: "string option"
  di_rotational :: bool
  di_partitions :: "partition list"

text \<open>A field of type \<open>str | None\<close>\<close>

definition pd_opt_str :: "pyd \<Rightarrow> json \<Rightarrow> string option result" where
  "pd_opt_str pd v = (if v = JNull then Inr None else rbind (pd_str pd v) (\<lambda>s. Inr (Some s)))"

definition parse_partition :: "pyd \<Rightarrow> json \<Rightarrow> partition result" where
  "parse_partition pd child =
     rbind (rbind (jget child ''name'' (JStr [])) (pd_str pd)) (\<lambda>name.
     rbind (rbind (jget child ''size'' (JStr [])) (pd_str pd)) (\<lambda>sz.
     rbind (rbind (jget child ''type'' (JStr ''part'')) (pd_str pd)) (\<lambda>ty.
     rbind (rbind (jget child ''mountpoint'' JNull) (pd_opt_str pd)) (\<lambda>mp.
     rbind (rbind (jget child ''fstype'' JNull) (pd_opt_str pd)) (\<lambda>fs.
       Inr \<lparr>pa_name = name, pa_size = sz, pa_type = ty, pa_mountpoint = mp, pa_fstype = fs\<rparr>)))))"

text \<open>\<open>(v or "").strip() or None\<close>\<close>

definition stripped_or_none :: "json \<Rightarrow> string option result" where
  "stripped_or_none v = (if truthy v
     then (case v of
         JStr s \<Rightarrow> Inr (if strip s = [] then None else Some (strip s))
       | _ \<Rightarrow> Inl (Exn AttributeError ([squote] @ type_name v @ [squote] @ '' object has no attribute ''
             @ [squote] @ ''strip'' @ [squote])))
     else Inr None)"

definition parse_disk :: "pyd \<Rightarrow> json \<Rightarrow> disk option result" where
  "parse_disk pd dev =
     rbind (jget dev ''type'' JNull) (\<lambda>ty.
     if ty \<noteq> JStr ''disk'' then Inr None
     else
       rbind (rbind (rbind (jget dev ''children'' (JList [])) jiter) (rmap (parse_partition pd))) (\<lambda>parts.
       rbind (rbind (jget dev ''model'' JNull) stripped_or_none) (\<lambda>model.
       rbind (rbind (jget dev ''serial'' JNull) stripped_or_none) (\<lambda>serial.
       rbind (rbind (jget dev ''name'' (JStr [])) (pd_str pd)) (\<lambda>name.
       rbind (rbind (jget dev ''size'' (JStr [])) (pd_str pd)) (\<lambda>sz.
       rbind (rbind (jget dev ''tran'' JNull) (pd_opt_str pd)) (\<lambda>tran.
       rbind (rbind (jget dev ''rota'' (JBool False)) (pd_bool pd)) (\<lambda>rota.
         Inr (Some \<lparr>di_name = name, di_model = model, di_serial = serial, di_size = sz,
           di_transport = tran, di_rotational = rota, di_partitions = parts\<rparr>)))))))))"

definition collect_disks :: "pyd \<Rightarrow> host \<Rightarrow> disk list result" where
  "collect_disks pd h =
     (case h_run h [''lsblk'', ''-J'', ''-o'', ''NAME,SIZE,TYPE,MOUNTPOINT,FSTYPE,MODEL,SERIAL,ROTA,TRAN''] of
        (stdout, _, rc) \<Rightarrow>
          if rc \<noteq> 0 then Inr []
          else (case json_loads stdout of
              None \<Rightarrow> Inr []
            | Some data \<Rightarrow>
                rbind (rbind (jget data ''blockdevices'' (JList [])) jiter) (\<lambda>devs.
                rbind (rmap (parse_disk pd) devs) (\<lambda>ds. Inr (List.map_filter id ds)))))"

section \<open>Candidates\<close>

definition remote_transports :: "string list" where
  "remote_transports = [''iscsi'', ''fc'', ''fcoe'', ''nbd'', ''rbd'']"

definition virtual_prefixes :: "string list" where
  "virtual_prefixes = [''rbd'', ''nbd'', ''zram'', ''drbd'', ''dm-'', ''loop'']"

definition nvme_over_fabrics :: "config \<Rightarrow> host \<Rightarrow> string \<Rightarrow> bool" where
  "nvme_over_fabrics cf h name =
     (startswith name ''nvme'' \<and>
      (case h_read h (HOST_SYS cf @ ''/block/'' @ name @ ''/device/transport'') of
         None \<Rightarrow> False | Some t \<Rightarrow> strip t \<noteq> [] \<and> strip t \<noteq> ''pcie''))"

definition smart_candidate :: "config \<Rightarrow> host \<Rightarrow> disk \<Rightarrow> bool" where
  "smart_candidate cf h d =
     (lower (opt_default [] (di_transport d)) \<notin> set remote_transports
      \<and> \<not> startswith_any (di_name d) virtual_prefixes \<and> \<not> nvme_over_fabrics cf h (di_name d))"

definition smart_candidates :: "config \<Rightarrow> host \<Rightarrow> disk list \<Rightarrow> string list" where
  "smart_candidates cf h disks = map (\<lambda>d. ''/dev/'' @ di_name d) (filter (smart_candidate cf h) disks)"

section \<open>Reports\<close>

record smart_attribute =
  sa_id :: int
  sa_name :: string
  sa_value :: int
  sa_worst :: int
  sa_threshold :: int
  sa_raw :: string

record smart_health =
  sh_device :: string
  sh_model :: "string option"
  sh_serial :: "string option"
  sh_available :: bool
  sh_health :: "bool option"
  sh_temperature :: "int option"
  sh_hours :: "int option"
  sh_wear :: "int option"
  sh_realloc :: "int option"
  sh_pending :: "int option"
  sh_uncorrectable :: "int option"
  sh_issues :: "string list"
  sh_standby :: bool
  sh_error :: "string option"
  sh_attributes :: "smart_attribute list"

definition smart_blank :: "string \<Rightarrow> smart_health" where
  "smart_blank dev = \<lparr>sh_device = dev, sh_model = None, sh_serial = None, sh_available = False,
     sh_health = None, sh_temperature = None, sh_hours = None, sh_wear = None, sh_realloc = None,
     sh_pending = None, sh_uncorrectable = None, sh_issues = [], sh_standby = False,
     sh_error = None, sh_attributes = []\<rparr>"

definition smart_error :: "string \<Rightarrow> string \<Rightarrow> smart_health" where
  "smart_error dev e = (smart_blank dev)\<lparr>sh_error := Some e\<rparr>"

definition smart_standby :: "string \<Rightarrow> smart_health" where
  "smart_standby dev = (smart_blank dev)\<lparr>sh_standby := True\<rparr>"

definition as_int :: "json \<Rightarrow> int option" where
  "as_int v = (case v of JInt i \<Rightarrow> Some i | _ \<Rightarrow> None)"

text \<open>\<open>_dict(v).get(key)\<close>\<close>

definition dict_get :: "json \<Rightarrow> string \<Rightarrow> json" where
  "dict_get v key = oget (as_dict v) key"

definition raw_count :: "string \<Rightarrow> int option" where
  "raw_count raw = (case split_ws raw of [] \<Rightarrow> None | w # _ \<Rightarrow> int_of_str w)"

definition has_bit :: "int \<Rightarrow> nat \<Rightarrow> bool" where
  "has_bit s n = odd (s div 2 ^ n)"

definition smartctl_issues :: "(nat \<times> string) list" where
  "smartctl_issues = [(4, ''Prefail attribute at or below threshold''),
     (5, ''Attribute was at or below threshold in the past''),
     (6, ''Device error log contains errors''), (7, ''Self-test log contains errors'')]"

definition wear_attrs :: "int list" where
  "wear_attrs = [177, 231, 233, 202, 169]"

definition standby_re :: regex where
  "standby_re = rseq [RWordB, rlit ''is in '', RGroup 1 (ralt [rlit ''STANDBY'', rlit ''SLEEP'']), RWordB]"

definition says_standby :: "string \<Rightarrow> bool" where
  "says_standby s = re_search True standby_re s"

text \<open>The exit status of \<open>smartctl\<close>: from its JSON, else the status of the process.\<close>

definition exit_status :: "json \<Rightarrow> int option \<Rightarrow> int" where
  "exit_status meta rc = (case as_int (dict_get meta ''exit_status'') of
     Some s \<Rightarrow> s
   | None \<Rightarrow> (case rc of Some r \<Rightarrow> if 0 \<le> r then r else 0 | None \<Rightarrow> 0))"

definition support_disabled :: "json \<Rightarrow> bool" where
  "support_disabled support =
     (is_dict support \<and>
      opt_default (dict_get support ''available'') (dget (as_dict support) ''enabled'') = JBool False)"

definition health_passed :: "json \<Rightarrow> int \<Rightarrow> bool option" where
  "health_passed data status =
     (let p = dict_get (dict_get data ''smart_status'') ''passed'';
          h1 = (case p of JBool b \<Rightarrow> Some b | _ \<Rightarrow> None);
          h2 = (if has_bit status 3 then Some False else h1)
      in if support_disabled (dict_get data ''smart_support'') then None else h2)"

definition smart_messages :: "json \<Rightarrow> json list result" where
  "smart_messages meta =
     rbind (jiter (jor (opt_default (JList []) (dget (as_dict meta) ''messages'')) (JList []))) (\<lambda>ms.
       Inr (filter (\<lambda>m. is_dict m \<and> truthy (dict_get m ''string'')) ms))"

definition open_error :: "int \<Rightarrow> bool \<Rightarrow> json list \<Rightarrow> string option" where
  "open_error status standby messages =
     (if has_bit status 1 \<and> \<not> standby
      then (case filter (\<lambda>m. dict_get m ''severity'' = JStr ''error'') messages of
          [] \<Rightarrow> Some (''smartctl could not open the device (exit '' @ str_of_int status @ '')'')
        | m # _ \<Rightarrow> Some (strip (json_str (dict_get m ''string''))))
      else None)"

record ata_state =
  at_realloc :: "int option"
  at_pending :: "int option"
  at_uncorrectable :: "int option"
  at_wear :: "(int, int) dict"
  at_attributes :: "smart_attribute list"

definition smart_attribute_of :: "(string \<times> json) list \<Rightarrow> smart_attribute" where
  "smart_attribute_of m = \<lparr>sa_id = opt_default 0 (as_int (oget m ''id'')),
     sa_name = json_str (opt_default (JStr []) (dget m ''name'')),
     sa_value = opt_default 0 (as_int (oget m ''value'')),
     sa_worst = opt_default 0 (as_int (oget m ''worst'')),
     sa_threshold = opt_default 0 (as_int (oget m ''thresh'')),
     sa_raw = json_str (opt_default (JStr []) (dget (as_dict (oget m ''raw'')) ''string''))\<rparr>"

definition ata_attribute :: "json \<Rightarrow> ata_state \<Rightarrow> ata_state" where
  "ata_attribute attr st = (case attr of
     JObj m \<Rightarrow>
       (let sa = smart_attribute_of m;
            st1 = st\<lparr>at_attributes := at_attributes st @ [sa]\<rparr> in
        if sa_id sa = 5 then st1\<lparr>at_realloc := raw_count (sa_raw sa)\<rparr>
        else if sa_id sa = 197 then st1\<lparr>at_pending := raw_count (sa_raw sa)\<rparr>
        else if sa_id sa = 198 then st1\<lparr>at_uncorrectable := raw_count (sa_raw sa)\<rparr>
        else if sa_id sa \<in> set wear_attrs
        then st1\<lparr>at_wear := dset (sa_id sa) (sa_value sa) (at_wear st)\<rparr>
        else st1)
   | _ \<Rightarrow> st)"

definition ata_attributes :: "json \<Rightarrow> ata_state" where
  "ata_attributes data =
     (case opt_default (JList []) (dget (as_dict (dict_get data ''ata_smart_attributes'')) ''table'') of
        JList attrs \<Rightarrow> fold ata_attribute attrs
          \<lparr>at_realloc = None, at_pending = None, at_uncorrectable = None, at_wear = [], at_attributes = []\<rparr>
      | _ \<Rightarrow> \<lparr>at_realloc = None, at_pending = None, at_uncorrectable = None, at_wear = [], at_attributes = []\<rparr>)"

definition vendor_wear :: "(int, int) dict \<Rightarrow> int option" where
  "vendor_wear d = (case List.find (\<lambda>i. i \<in> set (dkeys d)) wear_attrs of
     None \<Rightarrow> None | Some i \<Rightarrow> dget d i)"

text \<open>Device statistics: the last entry of that name counts.\<close>

definition stat_entry :: "int option \<Rightarrow> json \<Rightarrow> int option" where
  "stat_entry wear entry = (case as_int (dict_get entry ''value'') of
     Some used \<Rightarrow>
       if dict_get entry ''name'' = JStr ''Percentage Used Endurance Indicator''
       then Some (max 0 (100 - used)) else wear
   | None \<Rightarrow> wear)"

definition list_or_empty :: "json \<Rightarrow> string \<Rightarrow> json list result" where
  "list_or_empty v key = jiter (jor (opt_default (JList []) (dget (as_dict v) key)) (JList []))"

fun stat_pages :: "json list \<Rightarrow> int option \<Rightarrow> int option result" where
  "stat_pages [] wear = Inr wear"
| "stat_pages (p # ps) wear =
     rbind (list_or_empty p ''table'') (\<lambda>entries. stat_pages ps (foldl stat_entry wear entries))"

definition ata_wear :: "json \<Rightarrow> (int, int) dict \<Rightarrow> int option result" where
  "ata_wear data wears = (case vendor_wear wears of
     Some w \<Rightarrow> Inr (Some w)
   | None \<Rightarrow> rbind (list_or_empty (dict_get data ''ata_device_statistics'') ''pages'') (\<lambda>ps. stat_pages ps None))"

definition parse_smart :: "pyd \<Rightarrow> json \<Rightarrow> string \<Rightarrow> int option \<Rightarrow> smart_health result" where
  "parse_smart pd raw dev_path rc =
     (let data = JObj (as_dict raw); meta = JObj (as_dict (dict_get data ''smartctl''));
          status = exit_status meta rc; health = health_passed data status;
          issues = map snd (filter (\<lambda>bm. has_bit status (fst bm)) smartctl_issues)
      in rbind (smart_messages meta) (\<lambda>messages.
      (let standby = list_ex (\<lambda>m. says_standby (json_str (dict_get m ''string''))) messages;
           error = open_error status standby messages;
           temp = as_int (dict_get (dict_get data ''temperature'') ''current'');
           hours = as_int (dict_get (dict_get data ''power_on_time'') ''hours'');
           ata = ata_attributes data
       in rbind (ata_wear data (at_wear ata)) (\<lambda>wear.
       (let realloc = opt_or (at_realloc ata) (as_int (dict_get data ''scsi_grown_defect_list''));
            nvme = opt_default (JObj []) (dget (as_dict data) ''nvme_smart_health_information_log'');
            wear' = (case as_int (dict_get nvme ''percentage_used'') of
                Some used \<Rightarrow> Some (max 0 (100 - used)) | None \<Rightarrow> wear);
            temp' = opt_or temp (as_int (dict_get nvme ''temperature''));
            hours' = opt_or hours (as_int (dict_get nvme ''power_on_hours''))
        in rbind (pd_opt_str pd (jor (jor (dict_get data ''model_name'') (dict_get data ''model_family''))
              (dict_get data ''scsi_model_name''))) (\<lambda>model.
           rbind (pd_opt_str pd (dict_get data ''serial_number'')) (\<lambda>serial.
           Inr \<lparr>sh_device = dev_path, sh_model = model, sh_serial = serial,
             sh_available = (health \<noteq> None), sh_health = health, sh_temperature = temp',
             sh_hours = hours', sh_wear = wear', sh_realloc = realloc, sh_pending = at_pending ata,
             sh_uncorrectable = at_uncorrectable ata, sh_issues = issues, sh_standby = standby,
             sh_error = error, sh_attributes = at_attributes ata\<rparr>)))))))"

section \<open>Asking one device\<close>

text \<open>Whether a process with exactly these arguments is alive; the arguments of a process are
  separated by NUL.\<close>

definition alive_with_argv :: "host \<Rightarrow> string \<Rightarrow> string \<Rightarrow> bool" where
  "alive_with_argv h want pid =
     (case h_read h (''/proc/'' @ pid @ ''/cmdline'') of
        None \<Rightarrow> False
      | Some argv \<Rightarrow>
          rev (dropWhile (\<lambda>c. c = nul) (rev argv)) = want \<and>
          (case h_read h (''/proc/'' @ pid @ ''/stat'') of
             None \<Rightarrow> False
           | Some stat \<Rightarrow> take 1 (split_ws (after_last CHR '')'' stat)) \<noteq> [''Z'']))"

definition still_running :: "host \<Rightarrow> string list \<Rightarrow> bool" where
  "still_running h cmd = (case h_listdir h ''/proc'' of
     None \<Rightarrow> False
   | Some names \<Rightarrow> list_ex (alive_with_argv h (join [nul] cmd)) (filter str_isdigit names))"

definition smartctl_cmd :: "string \<Rightarrow> string list" where
  "smartctl_cmd dev_path = [''smartctl'', ''-a'', ''-n'', ''standby'', dev_path, ''--json'']"

definition device_path :: "string \<Rightarrow> string" where
  "device_path device = (if startswith device ''/dev/'' then device else ''/dev/'' @ device)"

definition smart_of_output :: "pyd \<Rightarrow> string \<Rightarrow> string \<Rightarrow> string \<Rightarrow> int \<Rightarrow> smart_health result" where
  "smart_of_output pd dev_path stdout stderr rc =
     (if strip stdout = [] then
        (if says_standby stderr then Inr (smart_standby dev_path)
         else Inr (smart_error dev_path (if strip stderr \<noteq> [] then strip stderr
           else ''smartctl exited '' @ str_of_int rc @ '' with no output'')))
      else (case json_loads stdout of
          None \<Rightarrow>
            if says_standby stdout then Inr (smart_standby dev_path)
            else Inr (smart_error dev_path ''smartctl output is not valid JSON'')
        | Some data \<Rightarrow>
            (case parse_smart pd data dev_path (Some rc) of
               Inr r \<Rightarrow> Inr r
             | Inl e \<Rightarrow>
                 if is_exception e
                 then Inr (smart_error dev_path (''Unparseable smartctl output: '' @ str_exn e))
                 else Inl e)))"

definition collect_smart_for_device :: "pyd \<Rightarrow> host \<Rightarrow> string \<Rightarrow> smart_health option result" where
  "collect_smart_for_device pd h device =
     (let dev_path = device_path device; cmd = smartctl_cmd dev_path in
      if \<not> h_exists h dev_path then Inr None
      else if still_running h cmd then Inr (Some (smart_error dev_path
        ''A previous smartctl on this device is still running (device not responding)''))
      else (case h_run h cmd of (stdout, stderr, rc) \<Rightarrow>
        rbind (smart_of_output pd dev_path stdout stderr rc) (\<lambda>r. Inr (Some r))))"

text \<open>The gathered results: one that raised becomes a report too.\<close>

definition smart_report :: "string \<times> smart_health option result \<Rightarrow> smart_health option" where
  "smart_report dr = (case dr of (dev, r) \<Rightarrow> (case r of
     Inr x \<Rightarrow> x | Inl e \<Rightarrow> Some (smart_error dev (''SMART collection failed: '' @ str_exn e))))"

definition collect_all_smart :: "pyd \<Rightarrow> config \<Rightarrow> host \<Rightarrow> smart_health list result" where
  "collect_all_smart pd cf h =
     rbind (collect_disks pd h) (\<lambda>disks.
       Inr (List.map_filter (\<lambda>d. smart_report (d, collect_smart_for_device pd h d)) (smart_candidates cf h disks)))"

section \<open>Lemmas\<close>

lemma as_dict_JObj [simp]: "as_dict (JObj m) = m" "dict_get (JObj m) k = oget m k"
  by (simp_all add: as_dict_def dict_get_def)

text \<open>The status \<open>smartctl\<close> reported in a JSON document, for a process that exited with \<open>rc\<close>.\<close>

definition reported_status :: "json \<Rightarrow> int option \<Rightarrow> int" where
  "reported_status data rc = exit_status (JObj (as_dict (dict_get (JObj (as_dict data)) ''smartctl''))) rc"

lemma parse_smart_Inr:
  assumes "parse_smart pd data dev rc = Inr r"
  shows "\<exists>ms. sh_device r = dev
    \<and> sh_health r = health_passed (JObj (as_dict data)) (reported_status data rc)
    \<and> sh_error r = open_error (reported_status data rc) (sh_standby r) ms"
  using assms
  by (clarsimp simp: parse_smart_def rbind_Inr_iff Let_def reported_status_def simp del: as_dict_JObj) blast

lemma open_error_bit: "has_bit status 1 \<Longrightarrow> standby \<or> open_error status standby ms \<noteq> None"
  by (auto simp: open_error_def split: list.splits)

lemma parse_smart_fields:
  assumes "parse_smart pd data dev rc = Inr r"
  shows "sh_device r = dev" "sh_health r = health_passed (JObj (as_dict data)) (reported_status data rc)"
    "has_bit (reported_status data rc) 1 \<Longrightarrow> sh_standby r \<or> sh_error r \<noteq> None"
  using parse_smart_Inr [OF assms] open_error_bit by fastforce+

lemma smart_output_device: "smart_of_output pd dev out err rc = Inr r \<Longrightarrow> sh_device r = dev"
  by (auto simp: smart_of_output_def smart_error_def smart_standby_def smart_blank_def
      parse_smart_fields(1) split: if_splits option.splits sum.splits)

lemma blank_health [simp]:
  "sh_health (smart_error dev e) = None" "sh_health (smart_standby dev) = None"
  "sh_device (smart_error dev e) = dev" "sh_error (smart_error dev e) = Some e"
  "sh_standby (smart_standby dev)"
  by (simp_all add: smart_error_def smart_standby_def smart_blank_def)

lemma smart_output_health:
  assumes "smart_of_output pd dev out err rc = Inr r" "sh_health r \<noteq> None"
  shows "\<exists>data. json_loads out = Some data
    \<and> sh_health r = health_passed (JObj (as_dict data)) (reported_status data (Some rc))"
  using assms
  by (auto simp: smart_of_output_def parse_smart_fields(2) split: if_splits option.splits sum.splits)

lemma health_passed_True:
  "health_passed data status = Some True \<longleftrightarrow>
     dict_get (dict_get data ''smart_status'') ''passed'' = JBool True \<and> \<not> has_bit status 3
     \<and> \<not> support_disabled (dict_get data ''smart_support'')"
  by (auto simp: health_passed_def Let_def split: json.splits)

lemma device_path_dev [simp]: "device_path (''/dev/'' @ name) = ''/dev/'' @ name"
  by (simp add: device_path_def)

lemma smart_report_device:
  assumes "smart_report (dev, collect_smart_for_device pd h dev) = Some r" "device_path dev = dev"
  shows "sh_device r = dev"
  using assms smart_output_device
  by (auto simp: smart_report_def collect_smart_for_device_def Let_def rbind_Inr_iff
      split: sum.splits if_splits prod.splits)

lemma smart_report_exists:
  assumes "device_path dev = dev"
  shows "smart_report (dev, collect_smart_for_device pd h dev) \<noteq> None \<longleftrightarrow> h_exists h dev"
proof (cases "h_run h (smartctl_cmd dev)")
  case (fields out err rc)
  then show ?thesis
    using assms by (cases "smart_of_output pd dev out err rc")
      (auto simp: smart_report_def collect_smart_for_device_def Let_def)
qed

section \<open>Properties\<close>

text \<open>
  C7: A drive reads as healthy only on the word of \<open>smartctl\<close>: the report of a healthy drive
  comes from a JSON document of that very device which says that the health check passed, with
  the failing bit of the exit status clear and SMART not disabled on the drive. Virtual disks
  and timeouts never read as healthy.
\<close>

theorem healthy_only_when_reported:
  assumes "collect_all_smart pd cf h = Inr rs" "r \<in> set rs" "sh_health r = Some True"
  shows "\<exists>out err rc data. h_run h (smartctl_cmd (sh_device r)) = (out, err, rc) \<and> json_loads out = Some data
    \<and> dict_get (dict_get (JObj (as_dict data)) ''smart_status'') ''passed'' = JBool True
    \<and> \<not> has_bit (reported_status data (Some rc)) 3
    \<and> \<not> support_disabled (dict_get (JObj (as_dict data)) ''smart_support'')"
proof -
  obtain disks where d: "rs = List.map_filter (\<lambda>d. smart_report (d, collect_smart_for_device pd h d))
      (smart_candidates cf h disks)"
    using assms(1) by (auto simp: collect_all_smart_def rbind_Inr_iff)
  then obtain name where dev: "smart_report (''/dev/'' @ name, collect_smart_for_device pd h (''/dev/'' @ name)) = Some r"
    using assms(2) by (auto simp: List.map_filter_def smart_candidates_def)
  let ?dev = "''/dev/'' @ name"
  obtain out err rc where run: "h_run h (smartctl_cmd ?dev) = (out, err, rc)" by (metis prod_cases3)
  have dv: "sh_device r = ?dev" by (rule smart_report_device [OF dev device_path_dev])
  have "smart_of_output pd ?dev out err rc = Inr r"
    using dev run assms(3)
    by (auto simp: smart_report_def collect_smart_for_device_def Let_def rbind_Inr_iff simp del: append_Cons
        split: sum.splits if_splits)
  then obtain data where data: "json_loads out = Some data"
      "sh_health r = health_passed (JObj (as_dict data)) (reported_status data (Some rc))"
    using smart_output_health [of pd ?dev out err rc r] assms(3) by auto
  then have "health_passed (JObj (as_dict data)) (reported_status data (Some rc)) = Some True"
    using assms(3) by simp
  then show ?thesis
    unfolding health_passed_True using run data(1) dv
    by (intro exI [of _ out] exI [of _ err] exI [of _ rc] exI [of _ data]) (simp del: as_dict_JObj)
qed

definition smart_host :: host where
  "smart_host = null_host\<lparr>h_exists := (\<lambda>p. p = ''/dev/sda''),
     h_run := (\<lambda>cmd. if hd cmd = ''lsblk''
       then (''{'' @ quoted ''blockdevices'' @ '':[{'' @ quoted ''name'' @ '':'' @ quoted ''sda''
         @ '','' @ quoted ''type'' @ '':'' @ quoted ''disk'' @ ''}]}'', [], 0)
       else (''{'' @ quoted ''smart_status'' @ '':{'' @ quoted ''passed'' @ '':true}}'', [], 0))\<rparr>"

lemma demo_smart_disks:
  "collect_disks strict_pyd smart_host = Inr [\<lparr>di_name = ''sda'', di_model = None, di_serial = None,
     di_size = [], di_transport = None, di_rotational = False, di_partitions = []\<rparr>]"
  by code_simp

lemma demo_smart:
  "collect_all_smart strict_pyd demo_config smart_host
     = Inr [(smart_blank ''/dev/sda'')\<lparr>sh_available := True, sh_health := Some True\<rparr>]"
  by code_simp

theorem healthy_only_when_reported_witness:
  "\<exists>out err rc data. h_run smart_host (smartctl_cmd ''/dev/sda'') = (out, err, rc) \<and> json_loads out = Some data
    \<and> \<not> has_bit (reported_status data (Some rc)) 3"
  using healthy_only_when_reported [OF demo_smart,
      of "(smart_blank ''/dev/sda'')\<lparr>sh_available := True, sh_health := Some True\<rparr>"]
  by (simp add: smart_blank_def) blast

text \<open>
  C19: No drive is lost: the list has one report, under its own path, for each disk of the
  inventory that is neither remote nor virtual and whose device exists, in the order of the
  inventory, even when \<open>smartctl\<close> hangs, prints nothing or prints nonsense.
\<close>

theorem no_drive_dropped:
  assumes "collect_disks pd h = Inr disks"
  shows "\<exists>rs. collect_all_smart pd cf h = Inr rs
    \<and> map sh_device rs = filter (h_exists h) (smart_candidates cf h disks)"
proof -
  have dev: "device_path x = x" if "x \<in> set (smart_candidates cf h disks)" for x
    using that by (auto simp: smart_candidates_def device_path_def)
  have "map sh_device (List.map_filter (\<lambda>d. smart_report (d, collect_smart_for_device pd h d))
      (smart_candidates cf h disks)) = filter (h_exists h) (smart_candidates cf h disks)"
    by (rule map_filter_names) (use dev smart_report_exists smart_report_device in blast)+
  then show ?thesis using assms by (simp add: collect_all_smart_def)
qed

theorem no_drive_dropped_witness:
  "\<exists>rs. collect_all_smart strict_pyd demo_config smart_host = Inr rs \<and> map sh_device rs
     = filter (h_exists smart_host) (smart_candidates demo_config smart_host
         [\<lparr>di_name = ''sda'', di_model = None, di_serial = None, di_size = [], di_transport = None,
           di_rotational = False, di_partitions = []\<rparr>])"
  by (rule no_drive_dropped [OF demo_smart_disks])

lemma demo_timeout:
  "smart_of_output strict_pyd ''/dev/sda'' [] ''timed out'' (- 1) = Inr (smart_error ''/dev/sda'' ''timed out'')"
  by code_simp

text \<open>
  A drive whose data could not be read says why: when \<open>smartctl\<close> printed nothing, printed
  no JSON, or set the bit that says the device would not open, the report either marks the drive
  as asleep or carries an error.
\<close>

theorem unreadable_drive_explained:
  assumes "smart_of_output pd dev out err rc = Inr r"
    "strip out = [] \<or> json_loads out = None \<or> has_bit (reported_status (the (json_loads out)) (Some rc)) 1"
  shows "sh_standby r \<or> sh_error r \<noteq> None"
  using assms parse_smart_fields(3)
  by (fastforce simp: smart_of_output_def split: if_splits option.splits sum.splits)

theorem unreadable_drive_explained_witness:
  "\<not> (\<not> sh_standby (smart_error ''/dev/sda'' ''timed out'') \<and> sh_error (smart_error ''/dev/sda'' ''timed out'') = None)"
  using unreadable_drive_explained [of strict_pyd "''/dev/sda''" "[]" "''timed out''" "- 1"
      "smart_error ''/dev/sda'' ''timed out''"]
  by (metis demo_timeout strip_Nil)

end
