(* ===== verification/Sensors.thy ===== *)
theory Sensors
  imports Regex Base "HOL-Library.List_Lexorder" "HOL-Library.Char_ord"
begin

text \<open>
  \<open>app/collectors/sensors.py\<close>: temperatures, fans and voltages of the \<open>hwmon\<close> chips, and the
  thermal zones no chip shows. The lemmas settle when a reading is an alarm and that no thermal
  zone repeats a sensor.
\<close>

section \<open>Readings\<close>

text \<open>Values are floats; only a fan may report an infinity or nan. \<open>unit\<close> is the text of the unit.\<close>

record sensor_reading =
  sr_name :: string
  sr_label :: string
  sr_value :: pyfloat
  sr_unit :: string
  sr_critical :: "rat option"
  sr_warning :: "rat option"
  sr_alarm :: bool

definition celsius :: string where
  "celsius = [degree, CHR ''C'']"

definition basename :: "string \<Rightarrow> string" where
  "basename path = after_last CHR ''/'' path"

definition sensor_index :: "string \<Rightarrow> string \<Rightarrow> string" where
  "sensor_index path prefix =
     (case re_match False (rseq [rlit prefix, RGroup 1 (rplus rdigit), rlit ''_input'', REol]) (basename path) of
        None \<Rightarrow> [] | Some (g, _) \<Rightarrow> grp g 1)"

text \<open>\<open>int(val) / 1000.0\<close>, None for the ValueError.\<close>

definition milli_value :: "string \<Rightarrow> rat option" where
  "milli_value val = map_option (\<lambda>i. fdiv (fl (of_int i)) 1000) (int_of_str val)"

definition millis :: "string \<Rightarrow> rat option" where
  "millis val = (if val = [] then None else milli_value val)"

text \<open>\<open>threshold and value >= threshold\<close>: a threshold of zero is none.\<close>

definition reached :: "rat option \<Rightarrow> rat \<Rightarrow> bool" where
  "reached threshold value = (case threshold of None \<Rightarrow> False | Some t \<Rightarrow> t \<noteq> 0 \<and> t \<le> value)"

definition temp_alarm :: "rat \<Rightarrow> rat option \<Rightarrow> rat option \<Rightarrow> bool" where
  "temp_alarm value critical warning =
     (if reached critical value then True else if reached warning value then True else False)"

definition stripped_file :: "host \<Rightarrow> string \<Rightarrow> string" where
  "stripped_file h path = strip (read_file h path)"

definition or_name :: "string \<Rightarrow> string \<Rightarrow> string" where
  "or_name a b = (if a = [] then b else a)"

definition temp_reading :: "host \<Rightarrow> string \<Rightarrow> string \<Rightarrow> string \<Rightarrow> sensor_reading option" where
  "temp_reading h dir chip temp_file =
     (let idx = sensor_index temp_file ''temp''; val_str = stripped_file h temp_file in
      if val_str = [] then None
      else (case milli_value val_str of
          None \<Rightarrow> None
        | Some value \<Rightarrow>
            (let critical = millis (stripped_file h (dir @ ''/temp'' @ idx @ ''_crit''));
                 warning = millis (stripped_file h (dir @ ''/temp'' @ idx @ ''_max''))
             in Some \<lparr>sr_name = chip,
                  sr_label = or_name (stripped_file h (dir @ ''/temp'' @ idx @ ''_label'')) (''temp'' @ idx),
                  sr_value = Fin value, sr_unit = celsius, sr_critical = critical, sr_warning = warning,
                  sr_alarm = temp_alarm value critical warning\<rparr>)))"

definition fan_reading :: "host \<Rightarrow> string \<Rightarrow> string \<Rightarrow> string \<Rightarrow> sensor_reading option" where
  "fan_reading h dir chip fan_file =
     (let idx = sensor_index fan_file ''fan''; val_str = stripped_file h fan_file in
      if val_str = [] then None
      else (case float_of_str val_str of
          None \<Rightarrow> None
        | Some value \<Rightarrow> Some \<lparr>sr_name = chip,
            sr_label = or_name (stripped_file h (dir @ ''/fan'' @ idx @ ''_label'')) (''fan'' @ idx),
            sr_value = value, sr_unit = ''RPM'', sr_critical = None, sr_warning = None, sr_alarm = False\<rparr>))"

definition volt_reading :: "host \<Rightarrow> string \<Rightarrow> string \<Rightarrow> string \<Rightarrow> sensor_reading option" where
  "volt_reading h dir chip in_file =
     (let idx = sensor_index in_file ''in''; val_str = stripped_file h in_file in
      if val_str = [] then None
      else (case milli_value val_str of
          None \<Rightarrow> None
        | Some value \<Rightarrow> Some \<lparr>sr_name = chip,
            sr_label = or_name (stripped_file h (dir @ ''/in'' @ idx @ ''_label'')) (''in'' @ idx),
            sr_value = Fin (round_dec 3 value), sr_unit = ''V'', sr_critical = None, sr_warning = None,
            sr_alarm = False\<rparr>))"

definition sorted_glob :: "host \<Rightarrow> string \<Rightarrow> string list" where
  "sorted_glob h pat = sort_asc (\<lambda>x. x) (h_glob h pat)"

definition chip_readings :: "host \<Rightarrow> string \<Rightarrow> sensor_reading list" where
  "chip_readings h dir =
     (let chip = or_name (stripped_file h (dir @ ''/name'')) (basename dir) in
      List.map_filter (temp_reading h dir chip) (sorted_glob h (dir @ ''/temp*_input''))
      @ List.map_filter (fan_reading h dir chip) (sorted_glob h (dir @ ''/fan*_input''))
      @ List.map_filter (volt_reading h dir chip) (sorted_glob h (dir @ ''/in*_input'')))"

section \<open>Thermal zones\<close>

definition shows_temp :: "string \<Rightarrow> sensor_reading \<Rightarrow> bool" where
  "shows_temp tz_type r = (tz_type \<in> {sr_name r, sr_label r} \<and> sr_unit r = celsius)"

definition zone_step :: "host \<Rightarrow> sensor_reading list \<Rightarrow> string \<Rightarrow> sensor_reading list" where
  "zone_step h readings tz_dir =
     (let temp_str = stripped_file h (tz_dir @ ''/temp'') in
      if temp_str = [] then readings
      else (case milli_value temp_str of
          None \<Rightarrow> readings
        | Some value \<Rightarrow>
            (let tz_type = or_name (stripped_file h (tz_dir @ ''/type'')) (basename tz_dir) in
             if list_ex (shows_temp tz_type) readings then readings
             else readings @ [\<lparr>sr_name = ''thermal_zone'', sr_label = tz_type, sr_value = Fin value,
               sr_unit = celsius, sr_critical = None, sr_warning = None, sr_alarm = False\<rparr>])))"

definition hwmon_readings :: "config \<Rightarrow> host \<Rightarrow> sensor_reading list" where
  "hwmon_readings cf h = concat (map (chip_readings h) (sorted_glob h (HOST_SYS cf @ ''/class/hwmon/hwmon*'')))"

definition collect_sensors :: "config \<Rightarrow> host \<Rightarrow> sensor_reading list" where
  "collect_sensors cf h = foldl (zone_step h) (hwmon_readings cf h)
     (sorted_glob h (HOST_SYS cf @ ''/class/thermal/thermal_zone*''))"

section \<open>Lemmas\<close>

definition threshold_met :: "sensor_reading \<Rightarrow> bool" where
  "threshold_met r = (\<exists>t v. Some t \<in> {sr_critical r, sr_warning r} \<and> t \<noteq> 0 \<and> sr_value r = Fin v \<and> t \<le> v)"

lemma temp_alarm_met: "temp_alarm v c w = (\<exists>t. Some t \<in> {c, w} \<and> t \<noteq> 0 \<and> t \<le> v)"
  by (auto simp: temp_alarm_def reached_def split: option.splits)

lemma reading_alarm:
  "temp_reading h dir chip f = Some r \<Longrightarrow> sr_alarm r = threshold_met r"
  "fan_reading h dir chip f = Some r \<Longrightarrow> sr_alarm r = threshold_met r"
  "volt_reading h dir chip f = Some r \<Longrightarrow> sr_alarm r = threshold_met r"
  by (auto simp: temp_reading_def fan_reading_def volt_reading_def Let_def threshold_met_def temp_alarm_met
      split: if_splits option.splits)

lemma hwmon_alarm: "r \<in> set (hwmon_readings cf h) \<Longrightarrow> sr_alarm r = threshold_met r"
  by (auto simp: hwmon_readings_def chip_readings_def Let_def List.map_filter_def reading_alarm)

definition zone_reading :: "sensor_reading list \<Rightarrow> sensor_reading \<Rightarrow> bool" where
  "zone_reading chips r = (sr_name r = ''thermal_zone'' \<and> sr_unit r = celsius \<and> \<not> sr_alarm r
     \<and> sr_critical r = None \<and> sr_warning r = None \<and> (\<forall>c \<in> set chips. \<not> shows_temp (sr_label r) c))"

lemma zone_step_zones:
  assumes "\<forall>r \<in> set zones. zone_reading chips r" "distinct (map sr_label zones)"
  shows "\<exists>zones'. zone_step h (chips @ zones) dir = chips @ zones'
    \<and> (\<forall>r \<in> set zones'. zone_reading chips r) \<and> distinct (map sr_label zones')"
proof -
  have fresh: "x \<notin> sr_label ` set zones" if "\<not> list_ex (shows_temp x) (chips @ zones)" for x
    using that assms(1) by (auto simp: list_ex_iff shows_temp_def zone_reading_def)
  consider "zone_step h (chips @ zones) dir = chips @ zones"
    | r where "zone_step h (chips @ zones) dir = chips @ zones @ [r]"
      "\<not> list_ex (shows_temp (sr_label r)) (chips @ zones)"
      "sr_name r = ''thermal_zone'' \<and> sr_unit r = celsius \<and> \<not> sr_alarm r \<and> sr_critical r = None \<and> sr_warning r = None"
    by (fastforce simp: zone_step_def Let_def split: if_splits option.splits)
  then show ?thesis
  proof cases
    case 1
    then show ?thesis using assms by blast
  next
    case 2
    then have "zone_reading chips r" by (auto simp: zone_reading_def list_ex_iff)
    then show ?thesis using 2(1) fresh [OF 2(2)] assms by (intro exI [of _ "zones @ [r]"]) auto
  qed
qed

lemma zones_from:
  assumes "\<forall>r \<in> set zones. zone_reading chips r" "distinct (map sr_label zones)"
  shows "\<exists>zones'. foldl (zone_step h) (chips @ zones) dirs = chips @ zones'
    \<and> (\<forall>r \<in> set zones'. zone_reading chips r) \<and> distinct (map sr_label zones')"
  using assms
proof (induction dirs arbitrary: zones)
  case (Cons d dirs)
  then show ?case using zone_step_zones [OF Cons.prems, of h d] by force
qed auto

section \<open>Properties\<close>

text \<open>
  C36: A sensor raises an alarm exactly when its value has reached one of its own thresholds that
  is set (a threshold of zero is none), and the thermal zones listed are those no chip shows as a
  temperature under its name or label, each type once.
\<close>

theorem sensors_sound:
  "\<exists>zones. collect_sensors cf h = hwmon_readings cf h @ zones
    \<and> distinct (map sr_label zones)
    \<and> list_all (\<lambda>z. \<not> list_ex (shows_temp (sr_label z)) (hwmon_readings cf h)) zones
    \<and> list_all (\<lambda>r. sr_alarm r = threshold_met r) (collect_sensors cf h)"
proof -
  obtain zones where z: "collect_sensors cf h = hwmon_readings cf h @ zones"
      "\<forall>r \<in> set zones. zone_reading (hwmon_readings cf h) r" "distinct (map sr_label zones)"
    using zones_from [of "[]" "hwmon_readings cf h" h] unfolding collect_sensors_def
    by (metis append_Nil2 distinct.simps(1) empty_iff list.map(1) list.set(1))
  have "sr_alarm r = threshold_met r" if "r \<in> set (collect_sensors cf h)" for r
    using that z(1,2) hwmon_alarm by (auto simp: zone_reading_def threshold_met_def)
  moreover have "\<not> list_ex (shows_temp (sr_label z)) (hwmon_readings cf h)" if "z \<in> set zones" for z
    using that z(2) by (auto simp: zone_reading_def list_ex_iff)
  ultimately show ?thesis using z(1,3) by (auto simp: list_all_iff)
qed

end
