(* ===== verification/Blocks.thy ===== *)
theory Blocks
  imports Base
begin

text \<open>
  Several collectors read the output of a tool that prints one block of \<open>key: value\<close> lines for
  each device: they keep the block read so far and the devices found so far, and flush the block
  at a separator and once more at the end. The locale states that shape; its lemma says that the
  loop finds what one finds by cutting the output at the separators first.
\<close>

fun split_at :: "('a \<Rightarrow> bool) \<Rightarrow> 'a list \<Rightarrow> 'a list list" where
  "split_at P [] = [[]]"
| "split_at P (x # xs) = (if P x then [] # split_at P xs
     else (case split_at P xs of [] \<Rightarrow> [[x]] | g # gs \<Rightarrow> (x # g) # gs))"

lemma split_at_nonempty [simp]: "split_at P xs \<noteq> []"
  by (cases xs) (auto split: list.splits)

definition add_entry :: "(string \<Rightarrow> (string \<times> string) option) \<Rightarrow> (string, string) dict \<Rightarrow> string \<Rightarrow> (string, string) dict" where
  "add_entry entry d l = (case entry l of None \<Rightarrow> d | Some (k, v) \<Rightarrow> dset k v d)"

definition block_of :: "(string \<Rightarrow> (string \<times> string) option) \<Rightarrow> string list \<Rightarrow> (string, string) dict" where
  "block_of entry ls = foldl (add_entry entry) [] ls"

type_synonym 'a block_state = "(string, string) dict \<times> 'a list"

locale block_stream =
  fixes step :: "'a block_state \<Rightarrow> string \<Rightarrow> 'a block_state"
    and finish :: "'a block_state \<Rightarrow> 'a list"
    and sep :: "string \<Rightarrow> bool"
    and entry :: "string \<Rightarrow> (string \<times> string) option"
    and emit :: "(string, string) dict \<Rightarrow> 'a option"
  assumes step_sep: "sep l \<Longrightarrow> step (cur, out) l = ([], finish (cur, out))"
    and step_entry: "\<not> sep l \<Longrightarrow> step (cur, out) l = (add_entry entry cur l, out)"
    and finish_emit: "finish (cur, out) = out @ List.map_filter emit [cur]"
begin

lemma run_from:
  "finish (foldl step (cur, out) ls) = out @ List.map_filter emit
     (case split_at sep ls of [] \<Rightarrow> [] | g # gs \<Rightarrow> foldl (add_entry entry) cur g # map (block_of entry) gs)"
proof (induction ls arbitrary: cur out)
  case Nil
  then show ?case by (simp add: finish_emit)
next
  case (Cons l ls)
  obtain g gs where s: "split_at sep ls = g # gs" by (cases "split_at sep ls") auto
  show ?case
  proof (cases "sep l")
    case True
    then show ?thesis
      using Cons.IH [of "[]" "finish (cur, out)"] s
      by (simp add: step_sep finish_emit block_of_def List.map_filter_def)
  next
    case False
    then show ?thesis
      using Cons.IH [of "add_entry entry cur l" out] s by (simp add: step_entry)
  qed
qed

lemma run_blocks:
  "finish (foldl step ([], []) ls) = List.map_filter emit (map (block_of entry) (split_at sep ls))"
  using run_from [of "[]" "[]" ls] by (cases "split_at sep ls") (auto simp: block_of_def)

end

end
