(* ===== verification/Memory.thy ===== *)
theory Memory
  imports Blocks Regex
begin

text \<open>
  \<open>app/collectors/memory.py\<close>: how full the memory is, the modules \<open>dmidecode\<close> lists and the
  error counters of the memory controllers. The lemmas bound the fill level, and relate the loop
  over the output of \<open>dmidecode\<close> to its blocks.
\<close>

section \<open>Memory modules\<close>

record dimm =
  dm_locator :: string
  dm_size_mb :: "int option"
  dm_type :: "string option"
  dm_speed_mhz :: "int option"
  dm_manufacturer :: "string option"
  dm_serial :: "string option"
  dm_part_number :: "string option"

definition dimm_size_re :: regex where
  "dimm_size_re = rseq [RGroup 1 (rplus rdigit), RStar rspace,
     RGroup 2 (ralt [rlit ''MB'', rlit ''GB'', rlit ''TB''])]"

text \<open>The factor of a unit that the pattern has matched, in any case.\<close>

definition unit_mb :: "string \<Rightarrow> int" where
  "unit_mb u = (let v = map upper_char u in
     if v = ''MB'' then 1 else if v = ''GB'' then 1024 else 1024 * 1024)"

definition dimm_size :: "string \<Rightarrow> int option" where
  "dimm_size size_str = (case re_match True dimm_size_re size_str of
     None \<Rightarrow> None | Some (g, _) \<Rightarrow> Some (digits_val 0 (grp g 1) * unit_mb (grp g 2)))"

text \<open>\<open>re.match(r"(\d+)", s)\<close>\<close>

definition leading_number :: "string \<Rightarrow> int option" where
  "leading_number s = (let ds = takeWhile is_decimal s in
     if ds = [] then None else Some (digits_val 0 ds))"

definition speed_keys :: "string list" where
  "speed_keys = [''configured memory speed'', ''configured clock speed'', ''speed'']"

fun first_speed :: "(string, string) dict \<Rightarrow> string list \<Rightarrow> int option" where
  "first_speed d [] = None"
| "first_speed d (key # keys) = (case leading_number (dget_or d key []) of
     None \<Rightarrow> first_speed d keys | Some n \<Rightarrow> Some n)"

definition none_if_empty :: "string \<Rightarrow> string option" where
  "none_if_empty s = (if s = [] then None else Some s)"

definition dimm_from_dict :: "(string, string) dict \<Rightarrow> dimm" where
  "dimm_from_dict d =
     (let serial = dget_or d ''serial number'' [] in
      \<lparr>dm_locator = dget_or d ''locator'' ''Unknown'', dm_size_mb = dimm_size (dget_or d ''size'' []),
        dm_type = dget d ''type'', dm_speed_mhz = first_speed d speed_keys,
        dm_manufacturer = dget d ''manufacturer'',
        dm_serial = (if lower serial \<in> {''unknown'', ''not specified'', []} then None else none_if_empty serial),
        dm_part_number = none_if_empty (strip (dget_or d ''part number'' []))\<rparr>)"

definition populated :: "(string, string) dict \<Rightarrow> bool" where
  "populated d = (d \<noteq> [] \<and> lower (dget_or d ''size'' []) \<notin> {[], ''no module installed'', ''unknown''})"

definition flush_dimm :: "dimm block_state \<Rightarrow> dimm list" where
  "flush_dimm st = (case st of (current, dimms) \<Rightarrow>
     if populated current then dimms @ [dimm_from_dict current] else dimms)"

definition dimm_line :: "dimm block_state \<Rightarrow> string \<Rightarrow> dimm block_state" where
  "dimm_line st line = (let stripped = strip line in
     if stripped = ''Memory Device'' then ([], flush_dimm st)
     else if CHR '':'' \<in> set stripped
     then (dset (lower (strip (before_char CHR '':'' stripped))) (strip (after_char CHR '':'' stripped)) (fst st), snd st)
     else st)"

definition collect_dimms :: "host \<Rightarrow> dimm list" where
  "collect_dimms h = (case h_run h [''dmidecode'', ''-t'', ''17''] of (stdout, _, rc) \<Rightarrow>
     if rc \<noteq> 0 then [] else flush_dimm (foldl dimm_line ([], []) (splitlines stdout)))"

section \<open>Error counters\<close>

definition edac_count :: "host \<Rightarrow> string \<Rightarrow> int result" where
  "edac_count h path = (let val = strip (read_file h path) in
     if str_isdigit val then py_int val else Inr 0)"

definition edac_total :: "host \<Rightarrow> string list \<Rightarrow> int result" where
  "edac_total h paths = rbind (rmap (edac_count h) paths) (\<lambda>ns. Inr (sum_list ns))"

definition collect_edac :: "config \<Rightarrow> host \<Rightarrow> (int \<times> int) result" where
  "collect_edac cf h =
     rbind (edac_total h (h_glob h (HOST_SYS cf @ ''/devices/system/edac/mc/mc*/ce_count''))) (\<lambda>ce.
     rbind (edac_total h (h_glob h (HOST_SYS cf @ ''/devices/system/edac/mc/mc*/ue_count''))) (\<lambda>ue.
       Inr (ce, ue)))"

section \<open>Fill level\<close>

text \<open>\<open>int(re.search(r"\d+", line).group())\<close>; a line without a number raises.\<close>

definition number_in :: "string \<Rightarrow> int result" where
  "number_in line = (case leading_number (dropWhile (\<lambda>c. \<not> is_decimal c) line) of
     None \<Rightarrow> Inl (Exn AttributeError ([squote] @ ''NoneType'' @ [squote] @ '' object has no attribute ''
       @ [squote] @ ''group'' @ [squote]))
   | Some n \<Rightarrow> Inr n)"

text \<open>The total and the available kibibytes; the last line of each kind counts.\<close>

fun meminfo :: "string list \<Rightarrow> int \<Rightarrow> int \<Rightarrow> (int \<times> int) result" where
  "meminfo [] tot avail = Inr (tot, avail)"
| "meminfo (line # lines) tot avail =
     (if startswith line ''MemTotal:'' then rbind (number_in line) (\<lambda>n. meminfo lines n avail)
      else if startswith line ''MemAvailable:'' then rbind (number_in line) (\<lambda>n. meminfo lines tot n)
      else meminfo lines tot avail)"

definition gib :: "int \<Rightarrow> rat" where
  "gib kb = round_dec 1 (fdiv (of_int kb) 1048576)"

definition used_percent :: "int \<Rightarrow> int \<Rightarrow> rat" where
  "used_percent total_kb available_kb =
     (if total_kb = 0 then 0
      else round_dec 1 (fmul (fsub 1 (fdiv (of_int available_kb) (of_int total_kb))) 100))"

record memory_info =
  mi_total_gb :: rat
  mi_available_gb :: rat
  mi_used_percent :: rat
  mi_dimms :: "dimm list"
  mi_ecc_correctable :: int
  mi_ecc_uncorrectable :: int

definition collect_memory :: "config \<Rightarrow> host \<Rightarrow> memory_info result" where
  "collect_memory cf h =
     rbind (meminfo (splitlines (read_file h (HOST_PROC cf @ ''/meminfo''))) 0 0) (\<lambda>ta.
     rbind (collect_edac cf h) (\<lambda>ecc.
       Inr \<lparr>mi_total_gb = gib (fst ta), mi_available_gb = gib (snd ta),
         mi_used_percent = used_percent (fst ta) (snd ta), mi_dimms = collect_dimms h,
         mi_ecc_correctable = fst ecc, mi_ecc_uncorrectable = snd ecc\<rparr>))"

section \<open>Lemmas\<close>

definition dimm_entry :: "string \<Rightarrow> (string \<times> string) option" where
  "dimm_entry line = (let s = strip line in
     if CHR '':'' \<in> set s
     then Some (lower (strip (before_char CHR '':'' s)), strip (after_char CHR '':'' s)) else None)"

definition emit_dimm :: "(string, string) dict \<Rightarrow> dimm option" where
  "emit_dimm d = (if populated d then Some (dimm_from_dict d) else None)"

interpretation dimms: block_stream dimm_line flush_dimm "\<lambda>l. strip l = ''Memory Device''" dimm_entry emit_dimm
  by unfold_locales
    (auto simp: dimm_line_def flush_dimm_def dimm_entry_def add_entry_def emit_dimm_def Let_def List.map_filter_def)

lemma fill_between:
  assumes "0 \<le> a" "a \<le> t" "0 < t"
  shows "0 \<le> used_percent t a \<and> used_percent t a \<le> 100"
proof -
  let ?q = "of_int a / of_int t :: rat" and ?f = "fdiv (of_int a) (of_int t)"
  have unit: "0 \<le> fl x" "fl x \<le> 1" if "0 \<le> x" "x \<le> 1" for x
    using fl_nonneg [OF that(1)] fl_le_int [of x 1] that(2) by simp_all
  have q: "0 \<le> ?q" "?q \<le> 1" using assms by (simp_all add: divide_le_eq)
  have f: "0 \<le> ?f" "?f \<le> 1" unfolding fdiv_def by (rule unit [OF q])+
  have s: "0 \<le> fsub 1 ?f" "fsub 1 ?f \<le> 1" unfolding fsub_def by (rule unit; use f in simp)+
  let ?m = "fmul (fsub 1 ?f) 100"
  have m: "0 \<le> ?m" "?m \<le> of_int 100"
    unfolding fmul_def
  proof -
    show "0 \<le> fl (fsub 1 ?f * 100)" by (rule fl_nonneg) (use s in simp)
    show "fl (fsub 1 ?f * 100) \<le> of_int 100" by (rule fl_le_int) (use s in simp_all)
  qed
  have "round_dec 1 ?m \<le> round_dec 1 (of_int 100)" using m(2) by (rule round_dec_mono)
  also have "round_dec 1 (of_int 100) = (100 :: rat)"
    using round_dec_int [of 100 1] by simp
  finally show ?thesis using assms m(1) by (simp add: used_percent_def round_dec_nonneg)
qed

lemma fill_anti:
  assumes "a \<le> b" "0 < t"
  shows "used_percent t b \<le> used_percent t a"
proof -
  have "fdiv (of_int a) (of_int t) \<le> fdiv (of_int b) (of_int t)"
    unfolding fdiv_def using assms by (intro fl_mono divide_right_mono) simp_all
  then have "fsub 1 (fdiv (of_int b) (of_int t)) \<le> fsub 1 (fdiv (of_int a) (of_int t))"
    unfolding fsub_def by (intro fl_mono) simp
  then have "fmul (fsub 1 (fdiv (of_int b) (of_int t))) 100 \<le> fmul (fsub 1 (fdiv (of_int a) (of_int t))) 100"
    unfolding fmul_def by (intro fl_mono mult_right_mono) simp_all
  then show ?thesis using assms by (simp add: used_percent_def round_dec_mono)
qed

section \<open>Properties\<close>

text \<open>
  The fill level of the memory is a percentage: whenever no more is available than there is,
  it lies between 0 and 100 in spite of the roundings, and less available memory never reads as a
  lower level.
\<close>

theorem fill_level_bounded:
  assumes "0 \<le> a" "a \<le> b" "b \<le> t" "0 < t"
  shows "0 \<le> used_percent t b \<and> used_percent t b \<le> used_percent t a \<and> used_percent t a \<le> 100"
  using fill_between [of a t] fill_between [of b t] fill_anti [of a b t] assms by simp

theorem fill_level_bounded_witness:
  "0 \<le> used_percent 3 1 \<and> used_percent 3 1 \<le> used_percent 3 0 \<and> used_percent 3 0 \<le> 100"
  by (rule fill_level_bounded) simp_all

text \<open>
  The memory modules are those of the blocks \<open>dmidecode\<close> prints: cutting its output at the
  lines that say \<open>Memory Device\<close>, each block that names the size of an installed module gives
  one module, read from the fields of that block alone.
\<close>

theorem dimms_of_blocks:
  "collect_dimms h = (case h_run h [''dmidecode'', ''-t'', ''17''] of (stdout, _, rc) \<Rightarrow>
     if rc \<noteq> 0 then []
     else map dimm_from_dict (filter populated (map (block_of dimm_entry)
            (split_at (\<lambda>l. strip l = ''Memory Device'') (splitlines stdout)))))"
proof -
  have "List.map_filter emit_dimm ds = map dimm_from_dict (filter populated ds)" for ds
    by (induction ds) (auto simp: List.map_filter_def emit_dimm_def)
  then show ?thesis
    unfolding collect_dimms_def dimms.run_blocks by (simp split: prod.splits)
qed

end
