(* ===== verification/HttpClient.thy ===== *)
theory HttpClient
  imports Base
begin

text \<open>
  \<open>app/httpclient.py\<close>: the pool of HTTP clients, the rebuild of certificate-backed clients
  when their files change, and the service account token. \<open>httpx\<close> and \<open>ssl\<close> are outside the
  repository: a client is a number with the verification mode it was built with, and whether a
  certificate file can be loaded is a parameter. The lemmas show that every client ever built
  is closed at shutdown and that a certificate-backed client is pinned to its own CA as read
  from the files of the current modification times.
\<close>

section \<open>State\<close>

text \<open>
  An SSL context: the CA it trusts, its client certificate, whether host names are checked, and
  the modification times of its files when it was built (the code keeps these beside the client).
\<close>

record ssl_context =
  sc_ca :: string
  sc_chain :: "(string \<times> string) option"
  sc_hostname :: bool
  sc_stamp :: "int list"

datatype verify = Unverified | Public_roots | Pinned ssl_context

record pool =
  hc_clients :: "(string, nat) dict"
  hc_stamps :: "(string, int list) dict"
  hc_retired :: "nat list"
  hc_next :: nat
  hc_closed :: "nat list"
  hc_info :: "nat \<Rightarrow> verify"

definition pool_init :: pool where
  "pool_init = \<lparr>hc_clients = [], hc_stamps = [], hc_retired = [], hc_next = 0, hc_closed = [],
     hc_info = (\<lambda>_. Unverified)\<rparr>"

text \<open>The files as the clients see them: modification times, and what can be loaded.\<close>

record tls_world =
  w_stat :: "string \<Rightarrow> int option"
  w_ca_ok :: "string \<Rightarrow> bool"
  w_chain_ok :: "string \<Rightarrow> string \<Rightarrow> bool"

definition SA_DIR :: string where "SA_DIR = ''/var/run/secrets/kubernetes.io/serviceaccount''"
definition SA_TOKEN_PATH :: string where "SA_TOKEN_PATH = SA_DIR @ ''/token''"
definition SA_CA_PATH :: string where "SA_CA_PATH = SA_DIR @ ''/ca.crt''"

definition ETCD_CA :: "config \<Rightarrow> string" where
  "ETCD_CA cf = HOST_ROOT cf @ ''/system/secrets/etcd/ca.crt''"
definition ETCD_CERT :: "config \<Rightarrow> string" where
  "ETCD_CERT cf = HOST_ROOT cf @ ''/system/secrets/etcd/admin.crt''"
definition ETCD_KEY :: "config \<Rightarrow> string" where
  "ETCD_KEY cf = HOST_ROOT cf @ ''/system/secrets/etcd/admin.key''"

section \<open>Operations\<close>

definition is_closed :: "pool \<Rightarrow> nat \<Rightarrow> bool" where
  "is_closed st i = (i \<in> set (hc_closed st))"

definition build_client :: "verify \<Rightarrow> pool \<Rightarrow> nat \<times> pool" where
  "build_client v st =
     (hc_next st, st\<lparr>hc_next := Suc (hc_next st), hc_info := (hc_info st)(hc_next st := v)\<rparr>)"

definition put_client :: "string \<Rightarrow> nat \<Rightarrow> pool \<Rightarrow> pool" where
  "put_client key i st = st\<lparr>hc_clients := dset key i (hc_clients st)\<rparr>"

definition live_client :: "pool \<Rightarrow> string \<Rightarrow> nat option" where
  "live_client st key = (case dget (hc_clients st) key of
     None \<Rightarrow> None | Some i \<Rightarrow> if is_closed st i then None else Some i)"

definition client :: "string \<Rightarrow> verify \<Rightarrow> pool \<Rightarrow> nat \<times> pool" where
  "client key v st = (case live_client st key of
     Some i \<Rightarrow> (i, st)
   | None \<Rightarrow> (case build_client v st of (i, st1) \<Rightarrow> (i, put_client key i st1)))"

fun stat_files :: "tls_world \<Rightarrow> string list \<Rightarrow> int list option" where
  "stat_files w [] = Some []"
| "stat_files w (f # fs) = (case w_stat w f of
     None \<Rightarrow> None | Some t \<Rightarrow> map_option (\<lambda>ts. t # ts) (stat_files w fs))"

definition retire :: "nat option \<Rightarrow> pool \<Rightarrow> pool" where
  "retire c st = (case c of None \<Rightarrow> st | Some i \<Rightarrow> st\<lparr>hc_retired := hc_retired st @ [i]\<rparr>)"

text \<open>\<open>_cert_client\<close>; \<open>build\<close> makes the context of the given stamp, None when it raises.\<close>

definition cert_client ::
  "tls_world \<Rightarrow> string \<Rightarrow> string list \<Rightarrow> (int list \<Rightarrow> ssl_context option) \<Rightarrow> pool
    \<Rightarrow> nat option \<times> pool" where
  "cert_client w key files build st =
     (case stat_files w files of
        None \<Rightarrow> (None, st)
      | Some stamp \<Rightarrow>
          if live_client st key \<noteq> None \<and> dget (hc_stamps st) key = Some stamp
          then (live_client st key, st)
          else (case build stamp of
              None \<Rightarrow> (None, st)
            | Some context \<Rightarrow>
                (case build_client (Pinned context) (retire (live_client st key) st) of
                   (i, st1) \<Rightarrow>
                     (Some i, (put_client key i st1)\<lparr>hc_stamps := dset key stamp (hc_stamps st)\<rparr>))))"

definition ca_context :: "tls_world \<Rightarrow> bool \<Rightarrow> int list \<Rightarrow> ssl_context option" where
  "ca_context w hostname stamp =
     (if w_ca_ok w SA_CA_PATH
      then Some \<lparr>sc_ca = SA_CA_PATH, sc_chain = None, sc_hostname = hostname, sc_stamp = stamp\<rparr>
      else None)"

definition kubernetes_client :: "tls_world \<Rightarrow> pool \<Rightarrow> nat option \<times> pool" where
  "kubernetes_client w st = cert_client w ''kubernetes'' [SA_CA_PATH] (ca_context w True) st"

definition local_apiserver_context :: "tls_world \<Rightarrow> int list \<Rightarrow> ssl_context option" where
  "local_apiserver_context w stamp = ca_context w False stamp"

definition local_apiserver_client :: "tls_world \<Rightarrow> pool \<Rightarrow> nat option \<times> pool" where
  "local_apiserver_client w st =
     cert_client w ''apiserver-local'' [SA_CA_PATH] (local_apiserver_context w) st"

definition etcd_context :: "config \<Rightarrow> tls_world \<Rightarrow> int list \<Rightarrow> ssl_context option" where
  "etcd_context cf w stamp =
     (if w_ca_ok w (ETCD_CA cf) \<and> w_chain_ok w (ETCD_CERT cf) (ETCD_KEY cf)
      then Some \<lparr>sc_ca = ETCD_CA cf, sc_chain = Some (ETCD_CERT cf, ETCD_KEY cf),
        sc_hostname = False, sc_stamp = stamp\<rparr>
      else None)"

definition etcd_client :: "config \<Rightarrow> tls_world \<Rightarrow> pool \<Rightarrow> nat option \<times> pool" where
  "etcd_client cf w st =
     cert_client w ''etcd'' [ETCD_CA cf, ETCD_CERT cf, ETCD_KEY cf] (etcd_context cf w) st"

definition insecure_client :: "pool \<Rightarrow> nat \<times> pool" where
  "insecure_client st = client ''insecure'' Unverified st"

definition public_client :: "pool \<Rightarrow> nat \<times> pool" where
  "public_client st = client ''public'' Public_roots st"

definition close_clients :: "pool \<Rightarrow> pool" where
  "close_clients st =
     st\<lparr>hc_closed := hc_closed st @ filter (\<lambda>i. \<not> is_closed st i) (map snd (hc_clients st) @ hc_retired st),
        hc_clients := [], hc_stamps := [], hc_retired := []\<rparr>"

definition kubernetes_api_base :: "host \<Rightarrow> string" where
  "kubernetes_api_base h =
     (let host = env_get (h_env h) ''KUBERNETES_SERVICE_HOST'' [] in
      if host = [] then ''https://kubernetes.default.svc''
      else
        (let host' = (if CHR '':'' \<in> set host \<and> \<not> startswith host ''[''
                      then ''['' @ host @ '']'' else host);
             p = env_get (h_env h) ''KUBERNETES_SERVICE_PORT'' [];
             port = (if p = [] then ''443'' else p)
         in ''https://'' @ host' @ '':'' @ port))"

definition read_service_account_token :: "host \<Rightarrow> string" where
  "read_service_account_token h = strip (opt_default [] (h_read h SA_TOKEN_PATH))"

definition bearer :: "string \<Rightarrow> (string \<times> string) list" where
  "bearer token = (if token = [] then [] else [(''Authorization'', ''Bearer '' @ token)])"

section \<open>Histories\<close>

datatype pool_event =
    Want_kubernetes tls_world | Want_local tls_world | Want_etcd tls_world
  | Want_insecure | Want_public | Shutdown

fun pool_step :: "config \<Rightarrow> pool_event \<Rightarrow> pool \<Rightarrow> pool" where
  "pool_step cf (Want_kubernetes w) st = snd (kubernetes_client w st)"
| "pool_step cf (Want_local w) st = snd (local_apiserver_client w st)"
| "pool_step cf (Want_etcd w) st = snd (etcd_client cf w st)"
| "pool_step cf Want_insecure st = snd (insecure_client st)"
| "pool_step cf Want_public st = snd (public_client st)"
| "pool_step cf Shutdown st = close_clients st"

definition pool_run :: "config \<Rightarrow> pool_event list \<Rightarrow> pool" where
  "pool_run cf evs = fold (pool_step cf) evs pool_init"

text \<open>Every client that is not closed is reachable for \<open>close_clients\<close>.\<close>

definition pool_accounted :: "pool \<Rightarrow> bool" where
  "pool_accounted st = (\<forall>i < hc_next st.
     is_closed st i \<or> i \<in> set (map snd (hc_clients st)) \<or> i \<in> set (hc_retired st))"

text \<open>What the client under each key was built with.\<close>

definition built_for :: "config \<Rightarrow> string \<Rightarrow> int list option \<Rightarrow> verify \<Rightarrow> bool" where
  "built_for cf key stamp v =
     (if key = ''insecure'' then v = Unverified
      else if key = ''public'' then v = Public_roots
      else (case v of
          Pinned c \<Rightarrow> stamp = Some (sc_stamp c) \<and>
            (if key = ''kubernetes''
             then sc_ca c = SA_CA_PATH \<and> sc_chain c = None \<and> sc_hostname c
             else if key = ''apiserver-local''
             then sc_ca c = SA_CA_PATH \<and> sc_chain c = None \<and> \<not> sc_hostname c
             else if key = ''etcd''
             then sc_ca c = ETCD_CA cf \<and> sc_chain c = Some (ETCD_CERT cf, ETCD_KEY cf)
               \<and> \<not> sc_hostname c
             else False)
        | _ \<Rightarrow> False))"

definition pool_typed :: "config \<Rightarrow> pool \<Rightarrow> bool" where
  "pool_typed cf st = (\<forall>key i. dget (hc_clients st) key = Some i \<longrightarrow>
     i < hc_next st \<and> built_for cf key (dget (hc_stamps st) key) (hc_info st i))"

text \<open>Only clients that were built occur anywhere.\<close>

definition pool_bounded :: "pool \<Rightarrow> bool" where
  "pool_bounded st = (set (hc_closed st) \<union> snd ` set (hc_clients st) \<union> set (hc_retired st)
     \<subseteq> {..<hc_next st})"

definition pool_ok :: "config \<Rightarrow> pool \<Rightarrow> bool" where
  "pool_ok cf st = (pool_accounted st \<and> pool_bounded st \<and> pool_typed cf st)"

lemma values_dset:
  "i \<in> snd ` set d \<Longrightarrow> i \<in> snd ` set (dset k v d) \<or> dget d k = Some i"
  by (induction k v d rule: dset.induct) (auto simp: dget_def)

lemma value_dset: "v \<in> snd ` set (dset k v d)"
  by (induction k v d rule: dset.induct) auto

lemmas pool_ops = build_client_def put_client_def is_closed_def

lemma live_clientD: "live_client st key = Some i \<Longrightarrow> dget (hc_clients st) key = Some i \<and> \<not> is_closed st i"
  by (auto simp: live_client_def split: option.splits if_splits)

lemma retire_frame [simp]:
  "hc_next (retire c st) = hc_next st" "hc_clients (retire c st) = hc_clients st"
  "hc_closed (retire c st) = hc_closed st" "hc_info (retire c st) = hc_info st"
  "hc_stamps (retire c st) = hc_stamps st"
  "set (hc_retired (retire c st)) = set (hc_retired st) \<union> set_option c"
  by (cases c; simp add: retire_def)+

lemma cert_client_cases:
  obtains "snd (cert_client w key files build st) = st"
  | stamp ctx where "build stamp = Some ctx" "snd (cert_client w key files build st)
        = (put_client key (hc_next st) (snd (build_client (Pinned ctx)
            (retire (live_client st key) st))))\<lparr>hc_stamps := dset key stamp (hc_stamps st)\<rparr>"
proof (cases "stat_files w files")
  case None
  then show ?thesis using that(1) by (simp add: cert_client_def)
next
  case (Some stamp)
  note stamp = Some
  show ?thesis
  proof (cases "build stamp")
    case None
    then show ?thesis using that(1) stamp by (simp add: cert_client_def)
  next
    case (Some ctx)
    show ?thesis
    proof (cases "live_client st key \<noteq> None \<and> dget (hc_stamps st) key = Some stamp")
      case True
      then show ?thesis using that(1) stamp by (auto simp: cert_client_def)
    next
      case False
      show ?thesis
        by (rule that(2) [OF Some])
           (use False stamp Some in \<open>auto simp: cert_client_def build_client_def\<close>)
    qed
  qed
qed

text \<open>Replacing the client of a key loses none: it was absent, closed, or is retired first.\<close>

lemma accounted_replace:
  assumes "pool_accounted st"
    "hc_next st' = Suc (hc_next st)" "hc_closed st' = hc_closed st"
    "hc_clients st' = dset key (hc_next st) (hc_clients st)"
    "set (hc_retired st) \<union> set_option (live_client st key) \<subseteq> set (hc_retired st') \<union> lost"
    "lost = {}"
  shows "pool_accounted st'"
  unfolding pool_accounted_def
proof (intro allI impI)
  fix i assume "i < hc_next st'"
  show "is_closed st' i \<or> i \<in> set (map snd (hc_clients st')) \<or> i \<in> set (hc_retired st')"
  proof (cases "i = hc_next st")
    case True
    then show ?thesis using value_dset [of i key "hc_clients st"] assms(4) by simp
  next
    case False
    then have "is_closed st i \<or> i \<in> snd ` set (hc_clients st) \<or> i \<in> set (hc_retired st)"
      using assms(1,2) \<open>i < hc_next st'\<close> by (auto simp: pool_accounted_def)
    moreover have "is_closed st' i = is_closed st i" using assms(3) by (simp add: is_closed_def)
    moreover have "dget (hc_clients st) key = Some i \<Longrightarrow> is_closed st i \<or> i \<in> set (hc_retired st')"
      using assms(5,6) by (auto simp: live_client_def split: if_splits)
    ultimately show ?thesis
      using values_dset [of i "hc_clients st" key "hc_next st"] assms(4-6) by auto
  qed
qed

lemma client_accounted:
  assumes "pool_accounted st"
  shows "pool_accounted (snd (client key v st))"
proof (cases "live_client st key")
  case None
  then show ?thesis
    by (intro accounted_replace [OF assms, where key = key and lost = "{}"])
       (simp_all add: client_def pool_ops)
qed (simp add: client_def assms)

lemma cert_client_accounted:
  assumes "pool_accounted st"
  shows "pool_accounted (snd (cert_client w key files build st))"
proof (cases rule: cert_client_cases [of w key files build st])
  case 2
  show ?thesis
    by (rule accounted_replace [OF assms, where key = key and lost = "{}"]) (simp_all add: 2 pool_ops)
qed (simp add: assms)

lemma pool_step_accounted: "pool_accounted st \<Longrightarrow> pool_accounted (pool_step cf ev st)"
proof (cases ev)
  case Shutdown
  moreover assume "pool_accounted st"
  ultimately show ?thesis
    by (auto simp: close_clients_def pool_accounted_def is_closed_def)
qed (simp_all add: kubernetes_client_def local_apiserver_client_def etcd_client_def
      insecure_client_def public_client_def client_accounted cert_client_accounted)

text \<open>The client under a key keeps being one built for that key.\<close>

lemma typed_replace:
  assumes "pool_typed cf st" "built_for cf key (dget (hc_stamps st') key) v"
    "hc_clients st' = dset key (hc_next st) (hc_clients st)" "hc_next st' = Suc (hc_next st)"
    "hc_info st' = (hc_info st)(hc_next st := v)"
    "\<And>k. k \<noteq> key \<Longrightarrow> dget (hc_stamps st') k = dget (hc_stamps st) k"
  shows "pool_typed cf st'"
  using assms unfolding pool_typed_def
  by (auto simp: less_Suc_eq split: if_splits)

lemma client_typed:
  assumes "pool_typed cf st" "key = ''insecure'' \<and> v = Unverified \<or> key = ''public'' \<and> v = Public_roots"
  shows "pool_typed cf (snd (client key v st))"
proof (cases "live_client st key")
  case None
  then show ?thesis
    by (intro typed_replace [OF assms(1), where key = key and v = v])
       (use assms(2) in \<open>auto simp: client_def pool_ops built_for_def\<close>)
qed (simp add: client_def assms)

lemma cert_client_typed:
  assumes "pool_typed cf st" "\<And>stamp c. build stamp = Some c \<Longrightarrow> built_for cf key (Some stamp) (Pinned c)"
  shows "pool_typed cf (snd (cert_client w key files build st))"
proof (cases rule: cert_client_cases [of w key files build st])
  case (2 stamp ctx)
  show ?thesis
    by (rule typed_replace [OF assms(1), where key = key and v = "Pinned ctx"])
       (use assms(2) [OF 2(1)] in \<open>simp_all add: 2 pool_ops\<close>)
qed (simp add: assms)

lemma contexts_built:
  "ca_context w True stamp = Some c \<Longrightarrow> built_for cf ''kubernetes'' (Some stamp) (Pinned c)"
  "local_apiserver_context w stamp = Some c \<Longrightarrow> built_for cf ''apiserver-local'' (Some stamp) (Pinned c)"
  "etcd_context cf w stamp = Some c \<Longrightarrow> built_for cf ''etcd'' (Some stamp) (Pinned c)"
  by (auto simp: built_for_def ca_context_def local_apiserver_context_def etcd_context_def
      split: if_splits)

lemma pool_step_typed: "pool_typed cf st \<Longrightarrow> pool_typed cf (pool_step cf ev st)"
proof (cases ev)
  case Shutdown
  then show ?thesis by (simp add: close_clients_def pool_typed_def)
qed (auto simp: kubernetes_client_def local_apiserver_client_def etcd_client_def
      insecure_client_def public_client_def
      intro!: client_typed cert_client_typed contexts_built)

lemma values_dset_bound: "snd ` set (dset k v d) \<subseteq> insert v (snd ` set d)"
  by (induction k v d rule: dset.induct) auto

lemma bounded_replace:
  assumes "pool_bounded st" "hc_next st' = Suc (hc_next st)" "hc_closed st' = hc_closed st"
    "hc_clients st' = dset key (hc_next st) (hc_clients st)"
    "set (hc_retired st') \<subseteq> set (hc_retired st) \<union> set_option (live_client st key)"
  shows "pool_bounded st'"
proof -
  have "set_option (live_client st key) \<subseteq> snd ` set (hc_clients st)"
    using live_clientD [of st key] by (force simp: dget_def dest!: map_of_SomeD)
  then show ?thesis
    using assms values_dset_bound [of key "hc_next st" "hc_clients st"]
    unfolding pool_bounded_def by (fastforce simp: less_Suc_eq)
qed

lemma bounded_client:
  assumes "pool_bounded st"
  shows "pool_bounded (snd (client key v st))"
proof (cases "live_client st key")
  case None
  then show ?thesis
    by (intro bounded_replace [OF assms, where key = key]) (simp_all add: client_def pool_ops)
qed (simp add: client_def assms)

lemma bounded_cert_client:
  assumes "pool_bounded st"
  shows "pool_bounded (snd (cert_client w key files build st))"
proof (cases rule: cert_client_cases [of w key files build st])
  case 2
  show ?thesis by (rule bounded_replace [OF assms, where key = key]) (simp_all add: 2 pool_ops)
qed (simp add: assms)

lemma pool_step_bounded: "pool_bounded st \<Longrightarrow> pool_bounded (pool_step cf ev st)"
proof (cases ev)
  case Shutdown
  moreover assume "pool_bounded st"
  ultimately show ?thesis by (auto simp: close_clients_def pool_bounded_def)
qed (simp_all add: kubernetes_client_def local_apiserver_client_def etcd_client_def
      insecure_client_def public_client_def bounded_client bounded_cert_client)

lemma pool_step_ok: "pool_ok cf st \<Longrightarrow> pool_ok cf (pool_step cf ev st)"
  by (simp add: pool_ok_def pool_step_accounted pool_step_bounded pool_step_typed)

lemma pool_run_ok: "pool_ok cf (pool_run cf evs)"
proof -
  have "pool_ok cf (fold (pool_step cf) evs st)" if "pool_ok cf st" for st
    using that by (induction evs arbitrary: st)
      (simp_all add: pool_ok_def pool_step_accounted pool_step_bounded pool_step_typed)
  moreover have "pool_ok cf pool_init"
    by (simp add: pool_ok_def pool_init_def pool_accounted_def pool_bounded_def pool_typed_def)
  ultimately show ?thesis by (simp add: pool_run_def)
qed

lemma pool_run_snoc: "pool_step cf ev (pool_run cf evs) = pool_run cf (evs @ [ev])"
  by (simp add: pool_run_def)

text \<open>A client handed out for certificates is the current one of its key, and open.\<close>

lemma cert_client_result:
  assumes "cert_client w key files build st = (Some i, st')" "pool_bounded st"
  shows "\<not> is_closed st' i \<and> dget (hc_clients st') key = Some i
    \<and> dget (hc_stamps st') key = stat_files w files"
  using assms live_clientD [of st key]
  by (auto simp: cert_client_def pool_bounded_def pool_ops retire_def
      split: option.splits if_splits)

lemmas pool_ok_ops =
  pool_step_ok [of _ _ "Want_kubernetes w", simplified] pool_step_ok [of _ _ "Want_local w", simplified]
  pool_step_ok [of _ _ "Want_etcd w", simplified] pool_step_ok [of _ _ Want_insecure, simplified]
  for w

text \<open>The clients that may carry the token trust the cluster CA and nothing else.\<close>

definition cluster_ca :: "verify \<Rightarrow> bool" where
  "cluster_ca v = (case v of Pinned c \<Rightarrow> sc_ca c = SA_CA_PATH | _ \<Rightarrow> False)"

lemma typed_built:
  "pool_ok cf st \<Longrightarrow> dget (hc_clients st) key = Some i \<Longrightarrow>
     built_for cf key (dget (hc_stamps st) key) (hc_info st i)"
  by (simp add: pool_ok_def pool_typed_def)

lemma built_cluster_ca:
  "built_for cf ''kubernetes'' s v \<Longrightarrow> cluster_ca v"
  "built_for cf ''apiserver-local'' s v \<Longrightarrow> cluster_ca v"
  by (cases v; simp add: built_for_def cluster_ca_def)+

lemma token_clients:
  assumes "pool_ok cf st"
  shows "kubernetes_client w st = (Some i, st') \<Longrightarrow> cluster_ca (hc_info st' i)"
    "local_apiserver_client w st = (Some i, st') \<Longrightarrow> cluster_ca (hc_info st' i)"
proof -
  have b: "pool_bounded st" using assms by (simp add: pool_ok_def)
  show "cluster_ca (hc_info st' i)" if k: "kubernetes_client w st = (Some i, st')"
  proof -
    have "pool_ok cf st'" using pool_ok_ops(1) [OF assms, of w] k by simp
    then show ?thesis
      using cert_client_result [OF k [unfolded kubernetes_client_def] b] typed_built built_cluster_ca(1)
      by blast
  qed
  show "cluster_ca (hc_info st' i)" if k: "local_apiserver_client w st = (Some i, st')"
  proof -
    have "pool_ok cf st'" using pool_ok_ops(2) [OF assms, of w] k by simp
    then show ?thesis
      using cert_client_result [OF k [unfolded local_apiserver_client_def] b] typed_built built_cluster_ca(2)
      by blast
  qed
qed

section \<open>Properties\<close>

text \<open>
  C26: After any history of requests for clients, with certificates rotated, missing or broken
  at any time, shutting down closes every client that was ever built: none is dropped from the
  pool unclosed, not even one replaced after a rotation.
\<close>

theorem shutdown_closes_all:
  "filter (\<lambda>i. \<not> is_closed (close_clients (pool_run cf evs)) i)
     [0..<hc_next (close_clients (pool_run cf evs))] = []"
proof -
  have "pool_accounted (pool_step cf Shutdown (pool_run cf evs))"
    using pool_run_ok [of cf evs] pool_step_accounted unfolding pool_ok_def by blast
  then show ?thesis
    by (auto simp: pool_accounted_def close_clients_def filter_empty_conv)
qed

text \<open>
  C40: Whatever happened before, the etcd client handed out is open, pinned to the etcd CA with
  the client certificate of the node, and was built when the three files had the modification
  times they have now: a rotated certificate is picked up by the next request.
\<close>

theorem etcd_client_current:
  assumes "etcd_client cf w (pool_run cf evs) = (Some i, st)"
  shows "\<not> is_closed st i \<and> (\<exists>c. hc_info st i = Pinned c \<and> sc_ca c = ETCD_CA cf
    \<and> sc_chain c = Some (ETCD_CERT cf, ETCD_KEY cf)
    \<and> Some (sc_stamp c) = stat_files w [ETCD_CA cf, ETCD_CERT cf, ETCD_KEY cf])"
proof -
  have r: "\<not> is_closed st i" "dget (hc_clients st) ''etcd'' = Some i"
    "dget (hc_stamps st) ''etcd'' = stat_files w [ETCD_CA cf, ETCD_CERT cf, ETCD_KEY cf]"
    using cert_client_result [OF assms [unfolded etcd_client_def]] pool_run_ok [of cf evs]
    by (simp_all add: pool_ok_def)
  have "st = pool_run cf (evs @ [Want_etcd w])"
    using assms pool_run_snoc [of cf "Want_etcd w" evs] by simp
  then have "built_for cf ''etcd'' (dget (hc_stamps st) ''etcd'') (hc_info st i)"
    using pool_run_ok [of cf "evs @ [Want_etcd w]"] r(2) by (auto simp: pool_ok_def pool_typed_def)
  then show ?thesis
    using r(1,3) by (auto simp: built_for_def split: verify.splits)
qed

text \<open>All files present, last changed at time \<open>t\<close>, and loadable.\<close>

definition demo_tls :: "int \<Rightarrow> tls_world" where
  "demo_tls t = \<lparr>w_stat = (\<lambda>_. Some t), w_ca_ok = (\<lambda>_. True), w_chain_ok = (\<lambda>_ _. True)\<rparr>"

lemma demo_rotation:
  "fst (etcd_client demo_config (demo_tls 2) (pool_run demo_config [Want_etcd (demo_tls 1)])) = Some 1"
  by code_simp

theorem etcd_client_current_witness:
  "\<exists>c. hc_info (snd (etcd_client demo_config (demo_tls 2)
      (pool_run demo_config [Want_etcd (demo_tls 1)]))) 1 = Pinned c \<and> sc_stamp c = [2, 2, 2]"
  using etcd_client_current [of demo_config "demo_tls 2" "[Want_etcd (demo_tls 1)]" 1] demo_rotation
  by (cases "etcd_client demo_config (demo_tls 2) (pool_run demo_config [Want_etcd (demo_tls 1)])")
     (auto simp: demo_tls_def)

end
