(* ===== verification/Etcd.thy ===== *)
theory Etcd
  imports Pydantic HttpClient
begin

text \<open>
  \<open>_first_int\<close>, \<open>_parse_etcd_status\<close>, \<open>_etcd_post\<close> and \<open>_collect_etcd_status\<close> of
  \<open>app/collectors/kubernetes.py\<close>: what etcd reports about its database, and how urgent a
  defragmentation is. The network is a parameter: it answers a request with a status code and a
  body, or an exception. The lemmas place the alert against the exact ratio of size and quota,
  through the rounding of the reported percentage.
\<close>

section \<open>Requests\<close>

record request =
  rq_verify :: verify
  rq_method :: string
  rq_url :: string
  rq_params :: "(string \<times> string) list"
  rq_headers :: "(string \<times> string) list"

type_synonym net = "request \<Rightarrow> (int \<times> string) result"

record kenv =
  ke_tls :: tls_world
  ke_host :: host
  ke_net :: net

text \<open>\<open>raise_for_status\<close> and \<open>json\<close>, with the HTTP and decoding errors caught; a body
  \<open>null\<close> is None too.\<close>

definition json_response :: "(int \<times> string) result \<Rightarrow> json option result" where
  "json_response r = (case r of
     Inl e \<Rightarrow> if exn_cls e = HTTPError \<or> is_value_error e then Inr None else Inl e
   | Inr (status, body) \<Rightarrow>
       Inr (if 200 \<le> status \<and> status < 300
            then (case json_loads body of Some JNull \<Rightarrow> None | v \<Rightarrow> v) else None))"

section \<open>Status\<close>

fun first_int :: "json \<Rightarrow> string list \<Rightarrow> int result" where
  "first_int data [] = Inr 0"
| "first_int data (k # ks) = rbind (jmem k data) (\<lambda>present.
     if \<not> present then first_int data ks
     else (case rbind (jindex data k) jint of
         Inr i \<Rightarrow> Inr i
       | Inl e \<Rightarrow> if exn_cls e = TypeError \<or> is_value_error e then first_int data ks else Inl e))"

definition ETCD_DEFAULT_QUOTA :: int where
  "ETCD_DEFAULT_QUOTA = 2 * 1024 ^ 3"

record etcd_status =
  es_healthy :: bool
  es_db_size_mb :: rat
  es_db_size_in_use_mb :: rat
  es_db_size_quota_mb :: rat
  es_quota_assumed :: bool
  es_quota_used_percent :: rat
  es_defrag_reclaimable_mb :: rat
  es_defrag_severity :: severity
  es_version :: string
  es_leader_id :: string
  es_member_id :: string
  es_is_leader :: bool
  es_raft_index :: int
  es_raft_term :: int
  es_raft_applied_index :: int
  es_members :: "(string \<times> json) list list"

definition etcd_blank :: etcd_status where
  "etcd_blank = \<lparr>es_healthy = False, es_db_size_mb = 0, es_db_size_in_use_mb = 0,
     es_db_size_quota_mb = 0, es_quota_assumed = False, es_quota_used_percent = 0,
     es_defrag_reclaimable_mb = 0, es_defrag_severity = SevOk, es_version = [], es_leader_id = [],
     es_member_id = [], es_is_leader = False, es_raft_index = 0, es_raft_term = 0,
     es_raft_applied_index = 0, es_members = []\<rparr>"

definition mib :: "int \<Rightarrow> rat" where
  "mib n = round_dec 1 (fdiv (of_int n) 1048576)"

definition quota_percent :: "int \<Rightarrow> int \<Rightarrow> rat" where
  "quota_percent db_size quota =
     (if quota = 0 then 0 else round_dec 1 (fmul (fdiv (of_int db_size) (of_int quota)) 100))"

text \<open>The percentage, the reclaimable bytes and the bytes in use.\<close>

definition defrag_severity :: "rat \<times> int \<times> int \<Rightarrow> severity" where
  "defrag_severity m = (case m of (pct, reclaimable, in_use) \<Rightarrow>
     if 80 \<le> pct then SevCritical
     else if 50 \<le> pct \<and> in_use < reclaimable then SevWarning else SevOk)"

definition id_text :: "int \<Rightarrow> string" where
  "id_text i = (if i = 0 then [] else str_of_int i)"

definition parse_etcd_status :: "json \<Rightarrow> etcd_status result" where
  "parse_etcd_status data =
     rbind (jget data ''header'' (JObj [])) (\<lambda>header.
     rbind (first_int data [''dbSize'', ''db_size'']) (\<lambda>db_size.
     rbind (first_int data [''dbSizeInUse'', ''db_size_in_use'']) (\<lambda>db_in_use.
     rbind (first_int data [''dbSizeQuota'', ''db_size_quota'']) (\<lambda>quota0.
     (let assumed = (quota0 = 0);
          quota = (if assumed then ETCD_DEFAULT_QUOTA else quota0);
          reclaimable = max (db_size - db_in_use) 0;
          pct = quota_percent db_size quota in
     rbind (first_int header [''member_id'', ''memberId'']) (\<lambda>member.
     rbind (first_int data [''leader'']) (\<lambda>leader.
     rbind (jget data ''version'' (JStr [])) (\<lambda>version.
     rbind (first_int data [''raftIndex'', ''raft_index'']) (\<lambda>raft_index.
     rbind (first_int data [''raftTerm'', ''raft_term'']) (\<lambda>term1.
     rbind (if term1 = 0 then first_int header [''raft_term'', ''raftTerm''] else Inr term1) (\<lambda>raft_term.
     rbind (first_int data [''raftAppliedIndex'', ''raft_applied_index'']) (\<lambda>applied.
     Inr \<lparr>es_healthy = True, es_db_size_mb = mib db_size, es_db_size_in_use_mb = mib db_in_use,
       es_db_size_quota_mb = mib quota, es_quota_assumed = assumed, es_quota_used_percent = pct,
       es_defrag_reclaimable_mb = mib reclaimable,
       es_defrag_severity = defrag_severity (pct, reclaimable, db_in_use),
       es_version = json_str version, es_leader_id = id_text leader, es_member_id = id_text member,
       es_is_leader = (id_text member \<noteq> [] \<and> id_text member = id_text leader),
       es_raft_index = raft_index, es_raft_term = raft_term, es_raft_applied_index = applied,
       es_members = []\<rparr>))))))))))))"

section \<open>Collecting\<close>

definition etcd_post :: "config \<Rightarrow> kenv \<Rightarrow> string \<Rightarrow> pool \<Rightarrow> json option result \<times> pool \<times> request list" where
  "etcd_post cf ke path st = (case etcd_client cf (ke_tls ke) st of
     (None, st1) \<Rightarrow> (Inr None, st1, [])
   | (Some i, st1) \<Rightarrow>
       (let rq = \<lparr>rq_verify = hc_info st1 i, rq_method = ''POST'',
                  rq_url = ''https://localhost:2379'' @ path, rq_params = [], rq_headers = []\<rparr>
        in (json_response (ke_net ke rq), st1, [rq])))"

definition etcd_member :: "json \<Rightarrow> (string \<times> json) list result" where
  "etcd_member m =
     rbind (jget m ''ID'' (JStr [])) (\<lambda>i. rbind (jget m ''name'' (JStr [])) (\<lambda>n.
     rbind (jget m ''peerURLs'' (JList [])) (\<lambda>p. rbind (jget m ''clientURLs'' (JList [])) (\<lambda>c.
     Inr [(''id'', JStr (json_str i)), (''name'', n), (''peer_urls'', p), (''client_urls'', c)]))))"

definition etcd_merge :: "json option \<Rightarrow> json option \<Rightarrow> etcd_status result" where
  "etcd_merge status_data members_data =
     rbind (case status_data of
         Some d \<Rightarrow>
           if truthy d
           then (case parse_etcd_status d of
               Inr s \<Rightarrow> Inr s
             | Inl e \<Rightarrow> if is_value_error e \<or> exn_cls e = KeyError then Inr etcd_blank else Inl e)
           else Inr etcd_blank
       | None \<Rightarrow> Inr etcd_blank) (\<lambda>status.
     case members_data of
       Some d \<Rightarrow>
         if truthy d
         then rbind (rbind (jget d ''members'' (JList [])) jiter) (\<lambda>ms.
              rbind (rmap etcd_member ms) (\<lambda>members. Inr (status\<lparr>es_members := members\<rparr>)))
         else Inr status
     | None \<Rightarrow> Inr status)"

definition collect_etcd_status :: "config \<Rightarrow> kenv \<Rightarrow> pool \<Rightarrow> etcd_status result \<times> pool \<times> request list" where
  "collect_etcd_status cf ke st =
     (case etcd_post cf ke ''/v3/maintenance/status'' st of (a, st1, rs1) \<Rightarrow>
      case etcd_post cf ke ''/v3/cluster/member/list'' st1 of (b, st2, rs2) \<Rightarrow>
        (rbind a (\<lambda>status_data. rbind b (\<lambda>members_data. etcd_merge status_data members_data)),
         st2, rs1 @ rs2))"

section \<open>Lemmas\<close>

text \<open>A fuller database with more to reclaim and less in use is more urgent.\<close>

interpretation defrag: threshold_scale defrag_severity
    "\<lambda>(p, r, u) (p', r', u'). p \<le> p' \<and> r \<le> r' \<and> u' \<le> u"
  by unfold_locales (auto simp: defrag_severity_def severity_order)

lemma quota_percent_mono:
  assumes "0 < q" "of_int a / of_int q \<le> (x :: rat)"
  shows "quota_percent a q \<le> round_dec 1 (fmul (fl x) 100)"
  using assms unfolding quota_percent_def fmul_def fdiv_def
  by (auto intro!: round_dec_mono fl_mono)

lemma quota_percent_anti:
  assumes "0 < q" "(x :: rat) \<le> of_int a / of_int q"
  shows "round_dec 1 (fmul (fl x) 100) \<le> quota_percent a q"
  using assms unfolding quota_percent_def fmul_def fdiv_def
  by (auto intro!: round_dec_mono fl_mono)

lemma percent_points:
  "round_dec 1 (fmul (fl (4 / 5)) 100) = 80"
  "round_dec 1 (fmul (fl (799 / 1000)) 100) < 80"
  by code_simp+

lemma parse_etcd_severity:
  assumes "parse_etcd_status data = Inr s" "first_int data [''dbSize'', ''db_size''] = Inr db"
    "first_int data [''dbSizeQuota'', ''db_size_quota''] = Inr q0"
    "q = (if q0 = 0 then ETCD_DEFAULT_QUOTA else q0)"
  shows "\<exists>r u. es_defrag_severity s = defrag_severity (quota_percent db q, r, u)
    \<and> es_quota_used_percent s = quota_percent db q"
  using assms
  by (clarsimp simp: parse_etcd_status_def rbind_Inr_iff Let_def simp del: first_int.simps) blast

section \<open>Properties\<close>

text \<open>
  C31: A database that fills four fifths of its quota, reported or assumed, raises the critical
  defragmentation alert, and one that fills less than 79.9 percent of it does not: dividing,
  scaling and rounding in binary floating point move the threshold by less than that.
\<close>

theorem etcd_quota_alert:
  assumes "parse_etcd_status data = Inr s" "first_int data [''dbSize'', ''db_size''] = Inr db"
    "first_int data [''dbSizeQuota'', ''db_size_quota''] = Inr q0"
    "q = (if q0 = 0 then ETCD_DEFAULT_QUOTA else q0)" "0 < q"
  shows "(4 * q \<le> 5 * db \<longrightarrow> es_defrag_severity s = SevCritical)
    \<and> (1000 * db \<le> 799 * q \<longrightarrow> es_defrag_severity s \<noteq> SevCritical)"
proof -
  obtain r u where s: "es_defrag_severity s = defrag_severity (quota_percent db q, r, u)"
    using parse_etcd_severity [OF assms(1-4)] by blast
  have "80 \<le> quota_percent db q" if "4 * q \<le> 5 * db"
  proof -
    have "(of_int (4 * q) :: rat) \<le> of_int (5 * db)" using that by (simp only: of_int_le_iff)
    then have "(4 / 5 :: rat) \<le> of_int db / of_int q" using assms(5) by (simp add: field_simps)
    then show ?thesis using quota_percent_anti [OF assms(5)] percent_points(1) by metis
  qed
  moreover have "quota_percent db q < 80" if "1000 * db \<le> 799 * q"
  proof -
    have "(of_int (1000 * db) :: rat) \<le> of_int (799 * q)" using that by (simp only: of_int_le_iff)
    then have "of_int db / of_int q \<le> (799 / 1000 :: rat)" using assms(5) by (simp add: field_simps)
    then show ?thesis using quota_percent_mono [OF assms(5)] percent_points(2) by fastforce
  qed
  ultimately show ?thesis using s by (auto simp: defrag_severity_def)
qed

definition demo_etcd :: json where
  "demo_etcd = JObj [(''dbSize'', JStr ''1717986919''), (''dbSizeInUse'', JStr ''1000'')]"

lemma demo_etcd_ints:
  "first_int demo_etcd [''dbSize'', ''db_size''] = Inr 1717986919"
  "first_int demo_etcd [''dbSizeQuota'', ''db_size_quota''] = Inr 0"
  "\<exists>s. parse_etcd_status demo_etcd = Inr s"
proof -
  show "first_int demo_etcd [''dbSize'', ''db_size''] = Inr 1717986919"
    "first_int demo_etcd [''dbSizeQuota'', ''db_size_quota''] = Inr 0"
    by code_simp+
  have "jget demo_etcd ''header'' (JObj []) = Inr (JObj [])"
    "jget demo_etcd ''version'' (JStr []) = Inr (JStr [])" by code_simp+
  moreover have "first_int demo_etcd ks = Inr 0"
    if "''dbSize'' \<notin> set ks" "''dbSizeInUse'' \<notin> set ks" for ks
    using that by (induction ks) (auto simp: demo_etcd_def jmem_def dkeys_def)
  moreover have "first_int (JObj []) ks = Inr 0" for ks
    by (induction ks) (auto simp: jmem_def dkeys_def)
  moreover have "first_int demo_etcd [''dbSize'', ''db_size''] = Inr 1717986919"
    "first_int demo_etcd [''dbSizeInUse'', ''db_size_in_use''] = Inr 1000" by code_simp+
  ultimately show "\<exists>s. parse_etcd_status demo_etcd = Inr s"
    by (simp add: parse_etcd_status_def Let_def del: first_int.simps)
qed

theorem etcd_quota_alert_witness:
  "\<exists>s. parse_etcd_status demo_etcd = Inr s \<and> es_defrag_severity s = SevCritical"
proof -
  obtain s where s: "parse_etcd_status demo_etcd = Inr s" using demo_etcd_ints(3) by blast
  have "es_defrag_severity s = SevCritical"
    using etcd_quota_alert [OF s demo_etcd_ints(1,2) refl] by (simp add: ETCD_DEFAULT_QUOTA_def)
  then show ?thesis using s by blast
qed

end
