(* ===== verification/Certs.thy ===== *)
theory Certs
  imports PyDate Base "HOL-Library.List_Lexorder" "HOL-Library.Char_ord"
begin

text \<open>
  The certificate collectors: \<open>collect_k8s_certificates\<close> of \<open>app/collectors/kubernetes.py\<close> and
  \<open>collect_talos_certificates\<close> of \<open>app/collectors/talos.py\<close>. Each asks \<open>openssl x509\<close> about the
  files it finds and grades the time a certificate has left. The lemmas show that both read the
  same fields out of any output, and what a grade means in elapsed time.
\<close>

section \<open>Fields\<close>

record cert_info =
  ci_name :: string
  ci_subject :: string
  ci_issuer :: string
  ci_not_before :: string
  ci_not_after :: string
  ci_serial :: string
  ci_fingerprint :: string
  ci_days :: "int option"
  ci_severity :: severity

definition cert_blank :: "string \<Rightarrow> cert_info" where
  "cert_blank name = \<lparr>ci_name = name, ci_subject = [], ci_issuer = [], ci_not_before = [],
     ci_not_after = [], ci_serial = [], ci_fingerprint = [], ci_days = None, ci_severity = SevOk\<rparr>"

text \<open>One line of output, as the Kubernetes collector reads it...\<close>

definition k8s_cert_line :: "string \<Rightarrow> cert_info \<Rightarrow> cert_info" where
  "k8s_cert_line raw c =
     (let line = strip raw in
      if startswith line ''subject='' then c\<lparr>ci_subject := strip (drop (length ''subject='') line)\<rparr>
      else if startswith line ''issuer='' then c\<lparr>ci_issuer := strip (drop (length ''issuer='') line)\<rparr>
      else if startswith line ''notBefore='' then
        c\<lparr>ci_not_before := strip (drop (length ''notBefore='') line)\<rparr>
      else if startswith line ''notAfter='' then
        c\<lparr>ci_not_after := strip (drop (length ''notAfter='') line)\<rparr>
      else if contains line ''Fingerprint='' then
        c\<lparr>ci_fingerprint := strip (after_char CHR ''='' line)\<rparr>
      else if startswith line ''serial='' then
        c\<lparr>ci_serial := strip (drop (length ''serial='') line)\<rparr>
      else c)"

text \<open>...and as the Talos collector does.\<close>

definition talos_cert_line :: "string \<Rightarrow> cert_info \<Rightarrow> cert_info" where
  "talos_cert_line raw c =
     (let line = strip raw; rest = strip (after_char CHR ''='' line) in
      if startswith line ''subject='' then c\<lparr>ci_subject := rest\<rparr>
      else if startswith line ''issuer='' then c\<lparr>ci_issuer := rest\<rparr>
      else if startswith line ''notBefore='' then c\<lparr>ci_not_before := rest\<rparr>
      else if startswith line ''notAfter='' then c\<lparr>ci_not_after := rest\<rparr>
      else if contains line ''Fingerprint='' then c\<lparr>ci_fingerprint := rest\<rparr>
      else if startswith line ''serial='' then c\<lparr>ci_serial := rest\<rparr>
      else c)"

section \<open>Expiry\<close>

definition expiry_severity :: "int \<Rightarrow> severity" where
  "expiry_severity days =
     (if days < 30 then SevCritical else if days < 90 then SevWarning else SevOk)"

text \<open>Fewer days left are more urgent.\<close>

interpretation expiry: threshold_scale expiry_severity "(\<ge>)"
  by unfold_locales (auto simp: expiry_severity_def severity_order)

definition cert_expiry :: "(exn \<Rightarrow> bool) \<Rightarrow> rat \<Rightarrow> cert_info \<Rightarrow> cert_info result" where
  "cert_expiry caught now c =
     (if ci_not_after c = [] then Inr c
      else (case strptime_openssl (ci_not_after c) of
          Inl e \<Rightarrow> if caught e then Inr c else Inl e
        | Inr expiry \<Rightarrow>
            (let days = delta_days expiry (now_us now) in
             Inr (c\<lparr>ci_days := Some days, ci_severity := expiry_severity days\<rparr>))))"

definition openssl_x509 :: "string \<Rightarrow> string list" where
  "openssl_x509 path = [''openssl'', ''x509'', ''-in'', path, ''-noout'', ''-subject'',
     ''-issuer'', ''-dates'', ''-fingerprint'', ''-serial'', ''-sha256'']"

section \<open>The Kubernetes collector\<close>

definition k8s_cert_patterns :: "config \<Rightarrow> string list" where
  "k8s_cert_patterns cf = map (\<lambda>p. HOST_ROOT cf @ p)
     [''/etc/kubernetes/pki/*.crt'', ''/etc/kubernetes/pki/etcd/*.crt'',
      ''/system/secrets/etcd/*.crt'', ''/system/secrets/kubernetes/**/*.crt'']"

definition k8s_cert :: "host \<Rightarrow> string \<Rightarrow> cert_info option result" where
  "k8s_cert h path =
     (case h_run h (openssl_x509 path) of (stdout, _, rc) \<Rightarrow>
        if rc \<noteq> 0 then Inr None
        else rbind (cert_expiry is_value_error (h_now h)
               (fold k8s_cert_line (splitlines stdout) (cert_blank path))) (\<lambda>c. Inr (Some c)))"

definition collect_k8s_certificates :: "config \<Rightarrow> host \<Rightarrow> cert_info list result" where
  "collect_k8s_certificates cf h =
     rbind (rmap (k8s_cert h)
        (sort (remdups (concat (map (h_glob h) (k8s_cert_patterns cf))))))
       (\<lambda>cs. Inr (List.map_filter id cs))"

section \<open>The Talos collector\<close>

text \<open>\<open>os.path.relpath\<close> of absolute paths.\<close>

fun norm_segs :: "string list \<Rightarrow> string list \<Rightarrow> string list" where
  "norm_segs acc [] = rev acc"
| "norm_segs acc (s # ss) =
     (if s = [] \<or> s = ''.'' then norm_segs acc ss
      else if s = ''..'' then norm_segs (tl acc) ss
      else norm_segs (s # acc) ss)"

definition path_segs :: "string \<Rightarrow> string list" where
  "path_segs p = norm_segs [] (split_char CHR ''/'' p)"

fun drop_common :: "string list \<Rightarrow> string list \<Rightarrow> string list \<times> string list" where
  "drop_common (a # as) (b # bs) = (if a = b then drop_common as bs else (a # as, b # bs))"
| "drop_common as bs = (as, bs)"

definition relpath :: "string \<Rightarrow> string \<Rightarrow> string" where
  "relpath path start = (case drop_common (path_segs start) (path_segs path) of
     (up, down) \<Rightarrow> (let segs = map (\<lambda>_. ''..'') up @ down in
       if segs = [] then ''.'' else join ''/'' segs))"

definition talos_cert_roots :: "config \<Rightarrow> (string \<times> string) list" where
  "talos_cert_roots cf =
     [(HOST_ROOT cf @ ''/system/secrets/kubernetes'', ''**/*.crt''),
      (HOST_ROOT cf @ ''/var/lib/kubelet/pki'', ''*.crt''),
      (HOST_ROOT cf @ ''/var/lib/kubelet/pki'', ''*-current.pem'')]"

text \<open>The files to read, with their search root: the first of those that share a target.\<close>

fun unseen_targets :: "host \<Rightarrow> string list \<Rightarrow> (string \<times> string) list \<Rightarrow> (string \<times> string) list" where
  "unseen_targets h seen [] = []"
| "unseen_targets h seen ((dir, f) # fs) =
     (let real = h_realpath h f in
      if real \<in> set seen \<or> \<not> h_isfile h real then unseen_targets h seen fs
      else (dir, f) # unseen_targets h (real # seen) fs)"

definition talos_cert_files :: "config \<Rightarrow> host \<Rightarrow> (string \<times> string) list" where
  "talos_cert_files cf h = unseen_targets h [] (concat (map (\<lambda>(dir, pattern).
     map (\<lambda>f. (dir, f)) (sort (h_glob h (dir @ ''/'' @ pattern)))) (talos_cert_roots cf)))"

definition talos_cert :: "host \<Rightarrow> string \<times> string \<Rightarrow> cert_info option result" where
  "talos_cert h rf = (case rf of (dir, f) \<Rightarrow>
     (case h_run h (openssl_x509 f) of (stdout, _, rc) \<Rightarrow>
        if rc \<noteq> 0 then Inr None
        else rbind (cert_expiry (\<lambda>e. is_value_error e \<or> exn_cls e = OverflowError) (h_now h)
               (fold talos_cert_line (splitlines stdout) (cert_blank (relpath f dir))))
             (\<lambda>c. Inr (Some c))))"

definition collect_talos_certificates :: "config \<Rightarrow> host \<Rightarrow> cert_info list result" where
  "collect_talos_certificates cf h =
     rbind (rmap (talos_cert h) (talos_cert_files cf h)) (\<lambda>cs. Inr (List.map_filter id cs))"

section \<open>Lemmas\<close>

lemma startswith_after:
  "startswith line (key @ [c]) \<Longrightarrow> c \<notin> set key \<Longrightarrow> after_char c line = drop (length (key @ [c])) line"
proof -
  assume "startswith line (key @ [c])" "c \<notin> set key"
  then obtain t where "line = key @ c # t" "\<forall>x \<in> set key. x \<noteq> c" by (auto simp: startswith_iff)
  then show ?thesis
    using dropWhile_append_stop [of key "\<lambda>x. x \<noteq> c" c t] by (simp add: after_char_def)
qed

lemma talos_reads_k8s: "talos_cert_line = k8s_cert_line"
proof (intro ext)
  fix raw c
  have cut: "after_char CHR ''='' (strip raw) = drop (length (key @ ''='')) (strip raw)"
    if "startswith (strip raw) (key @ ''='')" "CHR ''='' \<notin> set key" for key
    using startswith_after [OF that(1)] that(2) by simp
  note ks = cut [of "''subject''"] cut [of "''issuer''"] cut [of "''notBefore''"]
    cut [of "''notAfter''"] cut [of "''serial''"]
  show "talos_cert_line raw c = k8s_cert_line raw c"
    using ks by (simp add: talos_cert_line_def k8s_cert_line_def Let_def)
qed

lemma strptime_value_error: "strptime_openssl s = Inl e \<Longrightarrow> is_value_error e"
  by (auto simp: strptime_openssl_def make_datetime_def is_value_error_def
      split: option.splits prod.splits list.splits if_splits)

lemma cert_expiry_total:
  assumes "\<And>e. is_value_error e \<Longrightarrow> caught e"
  shows "\<exists>c'. cert_expiry caught now c = Inr c'"
  using assms strptime_value_error by (auto simp: cert_expiry_def Let_def split: sum.splits)

lemma cert_expiry_severity:
  assumes "cert_expiry caught now c = Inr c'" "strptime_openssl (ci_not_after c) = Inr t" "ci_not_after c \<noteq> []"
  shows "ci_severity c' = expiry_severity (delta_days t (now_us now)) \<and> ci_not_after c' = ci_not_after c"
  using assms by (auto simp: cert_expiry_def Let_def)

lemma cert_line_severity [simp]:
  "ci_severity (k8s_cert_line raw c) = ci_severity c" "ci_days (k8s_cert_line raw c) = ci_days c"
  "ci_name (k8s_cert_line raw c) = ci_name c"
  by (simp_all add: k8s_cert_line_def Let_def)

lemma grade_meaning:
  "expiry_severity (delta_days t n) = SevCritical \<longleftrightarrow> t - n < 30 * 86400000000"
  "expiry_severity (delta_days t n) = SevOk \<longleftrightarrow> 90 * 86400000000 \<le> t - n"
  by (auto simp: expiry_severity_def delta_days_def)

lemma strptime_empty: "strptime_openssl [] \<noteq> Inr t"
  by code_simp

section \<open>Properties\<close>

text \<open>
  No certificate on the node, however its fields or its dates are written, makes either
  certificate collector raise: each returns a list.
\<close>

theorem certificates_never_raise:
  "(\<exists>cs. collect_k8s_certificates cf h = Inr cs) \<and> (\<exists>cs. collect_talos_certificates cf h = Inr cs)"
proof -
  have total: "\<exists>ys. rmap f xs = Inr ys" if "\<And>x. \<exists>y. f x = Inr y" for f :: "'x \<Rightarrow> 'y result" and xs
    using that by (induction xs) (auto, metis rbind_simps(2))
  have k: "\<exists>y. k8s_cert h p = Inr y" for p
    using cert_expiry_total [of is_value_error]
    by (cases "h_run h (openssl_x509 p)") (auto simp: k8s_cert_def, metis rbind_simps(2))
  have t: "\<exists>y. talos_cert h p = Inr y" for p
    using cert_expiry_total [of "\<lambda>e. is_value_error e \<or> exn_cls e = OverflowError"]
    by (cases p; cases "h_run h (openssl_x509 (snd p))") (auto simp: talos_cert_def, metis rbind_simps(2))
  obtain a where "rmap (k8s_cert h) (sort (remdups (concat (map (h_glob h) (k8s_cert_patterns cf))))) = Inr a"
    using total [of "k8s_cert h", OF k] by blast
  moreover obtain b where "rmap (talos_cert h) (talos_cert_files cf h) = Inr b"
    using total [of "talos_cert h", OF t] by blast
  ultimately show ?thesis by (simp add: collect_k8s_certificates_def collect_talos_certificates_def)
qed

text \<open>
  C32: Every certificate the Kubernetes collector lists with a readable end date is graded by the
  time it has left, and by nothing else: critical when that is less than thirty days, ok when it
  is ninety days or more, to the microsecond.
\<close>

theorem certificate_grade:
  assumes "collect_k8s_certificates cf h = Inr cs" "c \<in> set cs"
    "strptime_openssl (ci_not_after c) = Inr t"
  shows "(ci_severity c = SevCritical \<longleftrightarrow> t - now_us (h_now h) < 30 * 86400 * 1000000)
    \<and> (ci_severity c = SevOk \<longleftrightarrow> 90 * 86400 * 1000000 \<le> t - now_us (h_now h))"
proof -
  obtain ys where ys: "rmap (k8s_cert h)
      (sort (remdups (concat (map (h_glob h) (k8s_cert_patterns cf))))) = Inr ys"
      "cs = List.map_filter id ys"
    using assms(1) by (auto simp: collect_k8s_certificates_def rbind_Inr_iff)
  then have "Some c \<in> set ys" using assms(2) by (auto simp: List.map_filter_def)
  then obtain path where p: "k8s_cert h path = Inr (Some c)" using rmap_in [OF ys(1)] by blast
  obtain stdout err rc where run: "h_run h (openssl_x509 path) = (stdout, err, rc)"
    by (cases "h_run h (openssl_x509 path)") auto
  let ?c0 = "fold k8s_cert_line (splitlines stdout) (cert_blank path)"
  have c: "cert_expiry is_value_error (h_now h) ?c0 = Inr c"
    using p run by (auto simp: k8s_cert_def rbind_Inr_iff split: if_splits)
  have "ci_not_after c = ci_not_after ?c0"
    using c by (auto simp: cert_expiry_def Let_def split: if_splits sum.splits)
  then have "ci_severity c = expiry_severity (delta_days t (now_us (h_now h)))"
    using cert_expiry_severity [OF c] assms(3) strptime_empty by metis
  then show ?thesis using grade_meaning by simp
qed

definition cert_host :: "rat \<Rightarrow> host" where
  "cert_host now = null_host\<lparr>h_now := now,
     h_glob := (\<lambda>p. if p = ''/host/etc/kubernetes/pki/*.crt'' then [''/host/etc/kubernetes/pki/ca.crt''] else []),
     h_run := (\<lambda>_. (''subject=CN=ca'' @ [nl] @ ''notAfter=Mar  1 00:00:00 2024 GMT'' @ [nl], [], 0))\<rparr>"

definition demo_cert :: cert_info where
  "demo_cert = (cert_blank ''/host/etc/kubernetes/pki/ca.crt'')\<lparr>ci_subject := ''CN=ca'',
     ci_not_after := ''Mar  1 00:00:00 2024 GMT'', ci_days := Some 29, ci_severity := SevCritical\<rparr>"

lemma demo_certificates:
  "collect_k8s_certificates demo_config (cert_host 1706662801) = Inr [demo_cert]"
  "strptime_openssl (ci_not_after demo_cert) = Inr 1709251200000000"
  by code_simp+

theorem certificate_grade_witness:
  "(1709251200000000 :: int) - now_us 1706662801 < 30 * 86400 * 1000000"
  using certificate_grade [OF demo_certificates(1) _ demo_certificates(2)]
  by (simp add: demo_cert_def cert_host_def)

text \<open>
  The two certificate collectors read the same fields out of whatever \<open>openssl\<close> prints:
  cutting the key off by its length and splitting at the first equals sign agree on every line.
\<close>

theorem certificate_readers_agree:
  "fold talos_cert_line (splitlines stdout) (cert_blank name)
   = fold k8s_cert_line (splitlines stdout) (cert_blank name)"
  by (simp add: talos_reads_k8s)

end
