(* ===== verification/Kube.thy ===== *)
theory Kube
  imports Etcd Certs "HOL-Library.Product_Lexorder"
begin

text \<open>
  The rest of \<open>app/collectors/kubernetes.py\<close>: requests to the API server, this node's object,
  the health probes of the components, the API endpoint and the list of the cluster's nodes.
  Every operation returns the requests it made, so that the lemmas can follow the service
  account token: it only ever travels over a client verified against the cluster CA.
\<close>

section \<open>Requests to the API server\<close>

definition k8s_get :: "kenv \<Rightarrow> string \<Rightarrow> (string \<times> string) list \<Rightarrow> pool
    \<Rightarrow> json option result \<times> pool \<times> request list" where
  "k8s_get ke path params st =
     (let token = read_service_account_token (ke_host ke) in
      case kubernetes_client (ke_tls ke) st of (c, st1) \<Rightarrow>
        (case c of
           None \<Rightarrow> (Inr None, st1, [])
         | Some i \<Rightarrow>
             if token = [] then (Inr None, st1, [])
             else
               (let rq = \<lparr>rq_verify = hc_info st1 i, rq_method = ''GET'',
                          rq_url = kubernetes_api_base (ke_host ke) @ path, rq_params = params,
                          rq_headers = bearer token\<rparr>
                in (json_response (ke_net ke rq), st1, [rq]))))"

section \<open>The node object\<close>

record node_resources =
  nr_cpu :: string
  nr_memory :: string
  nr_ephemeral :: string
  nr_pods :: string
  nr_gpu :: string

definition no_resources :: node_resources where
  "no_resources = \<lparr>nr_cpu = [], nr_memory = [], nr_ephemeral = [], nr_pods = [], nr_gpu = []\<rparr>"

text \<open>A field of a model read from a dict: \<open>Model(f=v.get(key, ""))\<close>.\<close>

definition str_field :: "pyd \<Rightarrow> json \<Rightarrow> string \<Rightarrow> string result" where
  "str_field pd v key = rbind (jget v key (JStr [])) (pd_str pd)"

definition parse_resources :: "pyd \<Rightarrow> json \<Rightarrow> node_resources result" where
  "parse_resources pd data =
     rbind (str_field pd data ''cpu'') (\<lambda>a. rbind (str_field pd data ''memory'') (\<lambda>b.
     rbind (str_field pd data ''ephemeral-storage'') (\<lambda>c. rbind (str_field pd data ''pods'') (\<lambda>d.
     rbind (str_field pd data ''nvidia.com/gpu'') (\<lambda>e.
       Inr \<lparr>nr_cpu = a, nr_memory = b, nr_ephemeral = c, nr_pods = d, nr_gpu = e\<rparr>)))))"

record node_info =
  ni_labels :: "(string \<times> string) list"
  ni_annotations :: int
  ni_conditions :: "(string \<times> string \<times> string \<times> string \<times> string) list"
  ni_addresses :: "(string \<times> string) list"
  ni_capacity :: node_resources
  ni_allocatable :: node_resources
  ni_kubelet :: string
  ni_runtime :: string
  ni_os_image :: string
  ni_arch :: string

definition no_node_info :: node_info where
  "no_node_info = \<lparr>ni_labels = [], ni_annotations = 0, ni_conditions = [], ni_addresses = [],
     ni_capacity = no_resources, ni_allocatable = no_resources, ni_kubelet = [], ni_runtime = [],
     ni_os_image = [], ni_arch = []\<rparr>"

definition node_condition :: "pyd \<Rightarrow> json \<Rightarrow> (string \<times> string \<times> string \<times> string \<times> string) result" where
  "node_condition pd c =
     rbind (str_field pd c ''type'') (\<lambda>t. rbind (str_field pd c ''status'') (\<lambda>s.
     rbind (str_field pd c ''reason'') (\<lambda>r. rbind (str_field pd c ''message'') (\<lambda>m.
     rbind (str_field pd c ''lastTransitionTime'') (\<lambda>l. Inr (t, s, r, m, l))))))"

definition node_address :: "pyd \<Rightarrow> json \<Rightarrow> (string \<times> string) result" where
  "node_address pd a =
     rbind (str_field pd a ''type'') (\<lambda>t. rbind (str_field pd a ''address'') (\<lambda>x. Inr (t, x)))"

text \<open>A field of type \<open>dict[str, str]\<close>\<close>

definition str_dict :: "pyd \<Rightarrow> json \<Rightarrow> (string \<times> string) list result" where
  "str_dict pd v = (case v of
     JObj m \<Rightarrow> rmap (\<lambda>(k, x). rbind (pd_str pd x) (\<lambda>s. Inr (k, s))) m
   | _ \<Rightarrow> invalid)"

definition parse_node_info :: "pyd \<Rightarrow> json \<Rightarrow> node_info result" where
  "parse_node_info pd data =
     rbind (jget data ''metadata'' (JObj [])) (\<lambda>metadata.
     rbind (jget data ''status'' (JObj [])) (\<lambda>status.
     rbind (jget status ''nodeInfo'' (JObj [])) (\<lambda>info.
     rbind (jget metadata ''labels'' (JObj [])) (\<lambda>labels.
     rbind (jget metadata ''annotations'' (JObj [])) (\<lambda>annotations.
     rbind (rbind (rbind (jget status ''conditions'' (JList [])) jiter) (rmap (node_condition pd))) (\<lambda>conditions.
     rbind (rbind (rbind (jget status ''addresses'' (JList [])) jiter) (rmap (node_address pd))) (\<lambda>addresses.
     rbind (rbind (jget status ''capacity'' (JObj [])) (parse_resources pd)) (\<lambda>capacity.
     rbind (rbind (jget status ''allocatable'' (JObj [])) (parse_resources pd)) (\<lambda>allocatable.
     rbind (jlen annotations) (\<lambda>count.
     rbind (str_dict pd labels) (\<lambda>ls.
     rbind (str_field pd info ''kubeletVersion'') (\<lambda>kubelet.
     rbind (str_field pd info ''containerRuntimeVersion'') (\<lambda>runtime.
     rbind (str_field pd info ''osImage'') (\<lambda>os_image.
     rbind (str_field pd info ''architecture'') (\<lambda>arch.
     Inr \<lparr>ni_labels = ls, ni_annotations = count, ni_conditions = conditions,
       ni_addresses = addresses, ni_capacity = capacity, ni_allocatable = allocatable,
       ni_kubelet = kubelet, ni_runtime = runtime, ni_os_image = os_image, ni_arch = arch\<rparr>)))))))))))))))"

definition node_name :: "host \<Rightarrow> string" where
  "node_name h = env_get (h_env h) ''KUBERNETES_NODE_NAME'' []"

definition collect_k8s_node_info :: "pyd \<Rightarrow> kenv \<Rightarrow> pool \<Rightarrow> node_info result \<times> pool \<times> request list" where
  "collect_k8s_node_info pd ke st =
     (if node_name (ke_host ke) = [] then (Inr no_node_info, st, [])
      else (case k8s_get ke (''/api/v1/nodes/'' @ node_name (ke_host ke)) [] st of (r, st1, rqs) \<Rightarrow>
        (rbind r (\<lambda>data. case data of
            None \<Rightarrow> Inr no_node_info | Some d \<Rightarrow> parse_node_info pd d), st1, rqs)))"

section \<open>Component probes\<close>

datatype health = Unknown | Healthy | Unhealthy | Unavailable

record component =
  co_name :: string
  co_running :: bool
  co_health :: health
  co_etcd :: "etcd_status option"

definition components :: "(string \<times> string) list" where
  "components = [(''kubelet'', ''http://localhost:10248/healthz''),
     (''kube-apiserver'', ''https://localhost:6443/healthz''),
     (''kube-scheduler'', ''https://localhost:10259/healthz''),
     (''kube-controller-manager'', ''https://localhost:10257/healthz''),
     (''etcd'', ''https://localhost:2379/health''),
     (''kube-proxy'', ''http://localhost:10249/healthz'')]"

definition probe_verdict :: "string \<Rightarrow> health" where
  "probe_verdict body =
     (if strip body = [] then Unknown
      else if lower (strip body) = ''ok''
        \<or> contains (lower body) (quoted ''health'' @ '':'' @ quoted ''true'') then Healthy
      else Unhealthy)"

text \<open>The client of a probe, and the headers it sends.\<close>

definition probe_client :: "config \<Rightarrow> kenv \<Rightarrow> string \<Rightarrow> string \<Rightarrow> pool
    \<Rightarrow> nat option \<times> (string \<times> string) list \<times> pool" where
  "probe_client cf ke token name st =
     (if name = ''etcd''
      then (case etcd_client cf (ke_tls ke) st of (c, st1) \<Rightarrow> (c, [], st1))
      else if name = ''kube-apiserver''
      then (case local_apiserver_client (ke_tls ke) st of
          (Some i, st1) \<Rightarrow> (Some i, bearer token, st1)
        | (None, st1) \<Rightarrow> (case insecure_client st1 of (j, st2) \<Rightarrow> (Some j, [], st2)))
      else (case insecure_client st of (j, st1) \<Rightarrow> (Some j, [], st1)))"

text \<open>The body of a response, empty on an HTTP error.\<close>

definition response_text :: "(int \<times> string) result \<Rightarrow> string result" where
  "response_text r = (case r of
     Inl e \<Rightarrow> if exn_cls e = HTTPError then Inr [] else Inl e | Inr (status, body) \<Rightarrow> Inr body)"

definition probe :: "config \<Rightarrow> kenv \<Rightarrow> string \<Rightarrow> string \<times> string \<Rightarrow> pool
    \<Rightarrow> component result \<times> pool \<times> request list" where
  "probe cf ke token nu st = (case nu of (name, url) \<Rightarrow>
     case probe_client cf ke token name st of (c, headers, st1) \<Rightarrow>
       (let rqs = (case c of None \<Rightarrow> [] | Some i \<Rightarrow>
              [\<lparr>rq_verify = hc_info st1 i, rq_method = ''GET'', rq_url = url, rq_params = [],
                rq_headers = headers\<rparr>]);
            body = (case rqs of [] \<Rightarrow> Inr [] | rq # _ \<Rightarrow> response_text (ke_net ke rq))
        in case body of
             Inl e \<Rightarrow> (Inl e, st1, rqs)
           | Inr text \<Rightarrow>
               (let verdict = probe_verdict text; running = (verdict = Healthy) in
                if name = ''etcd'' \<and> running
                then (case collect_etcd_status cf ke st1 of (r, st2, rqs2) \<Rightarrow>
                   (rbind r (\<lambda>s. Inr \<lparr>co_name = name, co_running = running, co_health = verdict,
                      co_etcd = Some s\<rparr>), st2, rqs @ rqs2))
                else (Inr \<lparr>co_name = name, co_running = running, co_health = verdict,
                      co_etcd = None\<rparr>, st1, rqs))))"

fun probe_all :: "config \<Rightarrow> kenv \<Rightarrow> string \<Rightarrow> (string \<times> string) list \<Rightarrow> pool
    \<Rightarrow> component list result \<times> pool \<times> request list" where
  "probe_all cf ke token [] st = (Inr [], st, [])"
| "probe_all cf ke token (c # cs) st =
     (case probe cf ke token c st of (r, st1, rqs1) \<Rightarrow>
      case probe_all cf ke token cs st1 of (rs, st2, rqs2) \<Rightarrow>
        (rbind r (\<lambda>x. rbind rs (\<lambda>xs. Inr (x # xs))), st2, rqs1 @ rqs2))"

definition collect_k8s_components :: "config \<Rightarrow> kenv \<Rightarrow> pool
    \<Rightarrow> component list result \<times> pool \<times> request list" where
  "collect_k8s_components cf ke st =
     (if \<not> in_host_network_namespace cf (ke_host ke)
      then (Inr (map (\<lambda>c. \<lparr>co_name = fst c, co_running = False, co_health = Unavailable,
              co_etcd = None\<rparr>) components), st, [])
      else probe_all cf ke (read_service_account_token (ke_host ke)) components st)"

section \<open>The API endpoint\<close>

definition collect_k8s_api_endpoint :: "kenv \<Rightarrow> pool \<Rightarrow> (string \<times> bool) result \<times> pool \<times> request list" where
  "collect_k8s_api_endpoint ke st =
     (if env_get (h_env (ke_host ke)) ''KUBERNETES_SERVICE_HOST'' [] = [] then (Inr ([], False), st, [])
      else
        (let url = kubernetes_api_base (ke_host ke);
             token = read_service_account_token (ke_host ke)
         in case (if token = [] then (None, st) else kubernetes_client (ke_tls ke) st) of (c, st1) \<Rightarrow>
            case (case c of Some i \<Rightarrow> (i, token, st1)
                  | None \<Rightarrow> (case insecure_client st1 of (j, st2) \<Rightarrow> (j, [], st2))) of (i, token', st3) \<Rightarrow>
              (let rq = \<lparr>rq_verify = hc_info st3 i, rq_method = ''GET'', rq_url = url @ ''/healthz'',
                         rq_params = [], rq_headers = bearer token'\<rparr>
               in ((case ke_net ke rq of
                      Inr (status, body) \<Rightarrow> Inr (url, status = 200 \<and> lower (strip body) = ''ok'')
                    | Inl e \<Rightarrow> if exn_cls e = HTTPError then Inr (url, False) else Inl e), st3, [rq]))))"

section \<open>The cluster's nodes\<close>

record cluster_node =
  cn_name :: string
  cn_ip :: string
  cn_role :: string
  cn_ready :: bool
  cn_current :: bool

definition internal_ip :: "json \<Rightarrow> json result" where
  "internal_ip status =
     rbind (rbind (jget status ''addresses'' (JList [])) jiter) (\<lambda>addrs.
     rbind (rfind (\<lambda>addr. rbind (jget addr ''type'' JNull) (\<lambda>t.
        if t = JStr ''InternalIP'' then rbind (jget addr ''address'' (JStr [])) (\<lambda>a. Inr (Some a))
        else Inr None)) addrs) (\<lambda>r. Inr (opt_default (JStr []) r)))"

definition node_ready :: "json \<Rightarrow> bool result" where
  "node_ready status =
     rbind (rbind (jget status ''conditions'' (JList [])) jiter) (\<lambda>conds.
     rbind (rfind (\<lambda>cond. rbind (jget cond ''type'' JNull) (\<lambda>t. rbind (jget cond ''status'' JNull) (\<lambda>s.
        Inr (if t = JStr ''Ready'' \<and> s = JStr ''True'' then Some () else None)))) conds)
       (\<lambda>r. Inr (r \<noteq> None)))"

definition cluster_node_of :: "pyd \<Rightarrow> string \<Rightarrow> json \<Rightarrow> cluster_node result" where
  "cluster_node_of pd current item =
     rbind (jget item ''metadata'' (JObj [])) (\<lambda>metadata.
     rbind (jget item ''status'' (JObj [])) (\<lambda>status.
     rbind (jget metadata ''labels'' (JObj [])) (\<lambda>labels.
     rbind (jget metadata ''name'' (JStr [])) (\<lambda>name.
     rbind (internal_ip status) (\<lambda>ip.
     rbind (jmem ''node-role.kubernetes.io/control-plane'' labels) (\<lambda>ctl.
     rbind (node_ready status) (\<lambda>ready.
     rbind (pd_str pd name) (\<lambda>n. rbind (pd_str pd ip) (\<lambda>a.
     Inr \<lparr>cn_name = n, cn_ip = a, cn_role = (if ctl then ''control-plane'' else ''worker''),
       cn_ready = ready, cn_current = (name = JStr current)\<rparr>)))))))))"

definition node_order :: "cluster_node \<Rightarrow> bool \<times> string" where
  "node_order n = (cn_role n \<noteq> ''control-plane'', cn_name n)"

definition cluster_nodes_of :: "pyd \<Rightarrow> string \<Rightarrow> json \<Rightarrow> cluster_node list result" where
  "cluster_nodes_of pd current data =
     rbind (rbind (jget data ''items'' (JList [])) jiter) (\<lambda>items.
     rbind (rmap (cluster_node_of pd current) items) (\<lambda>nodes. Inr (sort_asc node_order nodes)))"

definition collect_cluster_nodes :: "pyd \<Rightarrow> kenv \<Rightarrow> pool \<Rightarrow> cluster_node list result \<times> pool \<times> request list" where
  "collect_cluster_nodes pd ke st =
     (case k8s_get ke ''/api/v1/nodes'' [(''resourceVersion'', ''0'')] st of (r, st1, rqs) \<Rightarrow>
        (rbind r (\<lambda>data. case data of None \<Rightarrow> Inr []
           | Some d \<Rightarrow> cluster_nodes_of pd (node_name (ke_host ke)) d), st1, rqs))"

section \<open>Where the token goes\<close>

text \<open>A trace is safe when every request that carries a header is verified by the cluster CA.\<close>

definition safe_trace :: "request list \<Rightarrow> bool" where
  "safe_trace rqs = (\<forall>rq \<in> set rqs. rq_headers rq \<noteq> [] \<longrightarrow> cluster_ca (rq_verify rq))"

lemma safe_trace_simps [simp]:
  "safe_trace []" "safe_trace (rq # rqs) \<longleftrightarrow> (rq_headers rq \<noteq> [] \<longrightarrow> cluster_ca (rq_verify rq)) \<and> safe_trace rqs"
  "safe_trace (as @ bs) \<longleftrightarrow> safe_trace as \<and> safe_trace bs"
  by (auto simp: safe_trace_def)

lemma k8s_get_safe: "pool_ok cf st \<Longrightarrow> safe_trace (snd (snd (k8s_get ke path params st)))"
  using token_clients(1) [of cf st "ke_tls ke"]
  by (auto simp: k8s_get_def Let_def split: prod.splits option.splits)

lemma etcd_post_safe:
  assumes "pool_ok cf st" "etcd_post cf ke path st = (r, st', rqs)"
  shows "pool_ok cf st' \<and> safe_trace rqs"
  using assms pool_ok_ops(3) [OF assms(1), of "ke_tls ke"]
  by (auto simp: etcd_post_def Let_def split: prod.splits option.splits)

lemma collect_etcd_safe:
  assumes "pool_ok cf st" "collect_etcd_status cf ke st = (r, st', rqs)"
  shows "pool_ok cf st' \<and> safe_trace rqs"
proof -
  obtain a st1 rqs1 where p: "etcd_post cf ke ''/v3/maintenance/status'' st = (a, st1, rqs1)"
    by (metis prod_cases3)
  obtain b st2 rqs2 where q: "etcd_post cf ke ''/v3/cluster/member/list'' st1 = (b, st2, rqs2)"
    by (metis prod_cases3)
  show ?thesis
    using assms(2) p q etcd_post_safe [OF assms(1) p] etcd_post_safe [OF _ q]
    by (auto simp: collect_etcd_status_def)
qed

lemma probe_client_safe:
  assumes "pool_ok cf st" "probe_client cf ke token name st = (c, headers, st')"
  shows "pool_ok cf st' \<and> (\<forall>i. c = Some i \<longrightarrow> headers \<noteq> [] \<longrightarrow> cluster_ca (hc_info st' i))"
  using assms token_clients(2) [OF assms(1), of "ke_tls ke"]
    pool_ok_ops(2,3) [OF assms(1), of "ke_tls ke"] pool_ok_ops(4)
  by (fastforce simp: probe_client_def split: prod.splits option.splits if_splits)

lemma probe_safe:
  assumes "pool_ok cf st" "probe cf ke token nu st = (r, st', rqs)"
  shows "pool_ok cf st' \<and> safe_trace rqs"
proof -
  obtain name url where nu: "nu = (name, url)" by (cases nu)
  obtain c headers st1 where pc: "probe_client cf ke token name st = (c, headers, st1)"
    by (cases "probe_client cf ke token name st")
  note ok = probe_client_safe [OF assms(1) pc]
  show ?thesis
    using assms(2) ok collect_etcd_safe [of cf st1 ke]
    by (cases c) (auto simp: probe_def nu pc Let_def split: sum.splits prod.splits if_splits)
qed

lemma probe_all_safe:
  "pool_ok cf st \<Longrightarrow> probe_all cf ke token cs st = (r, st', rqs) \<Longrightarrow> pool_ok cf st' \<and> safe_trace rqs"
proof (induction cs arbitrary: st r st' rqs)
  case (Cons c cs)
  obtain r1 st1 rqs1 where p: "probe cf ke token c st = (r1, st1, rqs1)" by (metis prod_cases3)
  obtain r2 st2 rqs2 where q: "probe_all cf ke token cs st1 = (r2, st2, rqs2)" by (metis prod_cases3)
  show ?case
    using Cons.prems(2) probe_safe [OF Cons.prems(1) p] Cons.IH [OF _ q] p q by auto
qed auto

lemma components_safe: "pool_ok cf st \<Longrightarrow> safe_trace (snd (snd (collect_k8s_components cf ke st)))"
  using probe_all_safe [of cf st ke] 
  by (cases "probe_all cf ke (read_service_account_token (ke_host ke)) components st")
     (auto simp: collect_k8s_components_def)

lemma bearer_empty [simp]: "bearer [] = []"
  by (simp add: bearer_def)

lemma api_endpoint_safe: "pool_ok cf st \<Longrightarrow> safe_trace (snd (snd (collect_k8s_api_endpoint ke st)))"
  using token_clients(1) [of cf st "ke_tls ke"]
  by (auto simp: collect_k8s_api_endpoint_def Let_def split: prod.splits option.splits if_splits)

section \<open>Properties\<close>

text \<open>
  C3: The service account token never leaves over an unverified channel. Whatever the pool went
  through before, and with the CA file missing, broken or rotated, every request of the API
  calls, the component probes and the endpoint check that carries a header goes out on a client
  pinned to the cluster CA.
\<close>

theorem token_only_to_cluster_ca:
  assumes "rqs \<in> {snd (snd (k8s_get ke path params (pool_run cf evs))),
      snd (snd (collect_k8s_components cf ke (pool_run cf evs))),
      snd (snd (collect_k8s_api_endpoint ke (pool_run cf evs)))}"
    "rq \<in> set rqs" "rq_headers rq \<noteq> []"
  shows "cluster_ca (rq_verify rq)"
  using assms k8s_get_safe [OF pool_run_ok] components_safe [OF pool_run_ok]
    api_endpoint_safe [OF pool_run_ok]
  unfolding safe_trace_def by blast

definition demo_kenv :: kenv where
  "demo_kenv = \<lparr>ke_tls = demo_tls 1,
     ke_host = null_host\<lparr>h_read := (\<lambda>p. if p = SA_TOKEN_PATH then Some (''tok'' @ [nl]) else None)\<rparr>,
     ke_net = (\<lambda>_. Inr (200, ''ok''))\<rparr>"

lemma demo_request:
  "snd (snd (k8s_get demo_kenv ''/api'' [] (pool_run demo_config []))) =
     [\<lparr>rq_verify = Pinned \<lparr>sc_ca = SA_CA_PATH, sc_chain = None, sc_hostname = True, sc_stamp = [1]\<rparr>,
       rq_method = ''GET'', rq_url = ''https://kubernetes.default.svc/api'', rq_params = [],
       rq_headers = [(''Authorization'', ''Bearer tok'')]\<rparr>]"
  by code_simp

theorem token_only_to_cluster_ca_witness:
  "cluster_ca (Pinned \<lparr>sc_ca = SA_CA_PATH, sc_chain = None, sc_hostname = True, sc_stamp = [1]\<rparr>)"
  using token_only_to_cluster_ca [of "snd (snd (k8s_get demo_kenv ''/api'' [] (pool_run demo_config [])))"
      demo_kenv "''/api''" "[]" demo_config "[]", unfolded demo_request]
  by simp

text \<open>
  The list of the cluster's nodes has one entry for each item the API server returned, in
  order of role and name with every control-plane node before every worker, and an entry is
  marked as the current node only when it bears this node's name.
\<close>

theorem cluster_nodes_listed:
  assumes "pyd_ok pd" "cluster_nodes_of pd current (JObj data) = Inr ns"
    "dget data ''items'' = Some (JList items)"
  shows "length ns = length items \<and> sorted_wrt (\<lambda>m n. node_order m \<le> node_order n) ns
    \<and> (\<forall>n \<in> set ns. cn_current n \<longrightarrow> cn_name n = current)"
proof -
  obtain nodes where n: "rmap (cluster_node_of pd current) items = Inr nodes" "ns = sort_asc node_order nodes"
    using assms(2,3) by (auto simp: cluster_nodes_of_def rbind_Inr_iff)
  have "cn_name n = current" if m: "n \<in> set ns" "cn_current n" for n
  proof -
    have "n \<in> set nodes" using m(1) n(2) asc.srt_set by metis
    then obtain item where "cluster_node_of pd current item = Inr n" using rmap_in [OF n(1)] by blast
    then show ?thesis
      using m(2) pyd_okD(1) [OF assms(1)] by (auto simp: cluster_node_of_def rbind_Inr_iff)
  qed
  moreover have "length ns = length items"
    using rmap_Inr_length [OF n(1)] n(2) asc.srt_length [of node_order nodes] by metis
  ultimately show ?thesis using n(2) asc.srt_sorted [of node_order nodes] by blast
qed

definition demo_item :: "string \<Rightarrow> bool \<Rightarrow> json" where
  "demo_item name ctl = JObj [(''metadata'', JObj [(''name'', JStr name), (''labels'', JObj
     (if ctl then [(''node-role.kubernetes.io/control-plane'', JStr [])] else []))]), (''status'', JObj [])]"

lemma demo_cluster:
  "cluster_nodes_of strict_pyd ''w1'' (JObj [(''items'', JList [demo_item ''w1'' False, demo_item ''c1'' True])])
   = Inr [\<lparr>cn_name = ''c1'', cn_ip = [], cn_role = ''control-plane'', cn_ready = False, cn_current = False\<rparr>,
          \<lparr>cn_name = ''w1'', cn_ip = [], cn_role = ''worker'', cn_ready = False, cn_current = True\<rparr>]"
  by code_simp

theorem cluster_nodes_listed_witness:
  "sorted_wrt (\<lambda>m n. node_order m \<le> node_order n)
     [\<lparr>cn_name = ''c1'', cn_ip = [], cn_role = ''control-plane'', cn_ready = False, cn_current = False\<rparr>,
      \<lparr>cn_name = ''w1'', cn_ip = [], cn_role = ''worker'', cn_ready = False, cn_current = True\<rparr>]"
  using cluster_nodes_listed [OF strict_pyd_ok demo_cluster] by (simp add: dget_def)

end
