(* ===== verification/Network.thy ===== *)
theory Network
  imports Kube
begin

text \<open>
  \<open>app/collectors/network.py\<close>: the network interfaces with their counters and addresses, and
  the connectivity checks: DNS against each of the node's resolvers, the internet, the API server
  and the default gateway. The lemmas show which resolvers are reported as failed, which
  gateways are found, and that the health check sends the token to the cluster CA only.
\<close>

section \<open>Interfaces\<close>

record nic =
  nc_name :: string
  nc_mac :: string
  nc_driver :: string
  nc_speed :: string
  nc_duplex :: string
  nc_link :: bool
  nc_ips :: "string list"
  nc_rx_errors :: int
  nc_tx_errors :: int
  nc_rx_dropped :: int
  nc_tx_dropped :: int
  nc_rx_crc :: int
  nc_tx_carrier :: int

definition skip_prefixes :: "string list" where
  "skip_prefixes = [''lo'', ''veth'', ''cali'', ''lxc'', ''cni'', ''flannel'', ''docker'', ''br-'']"

definition shown_nic :: "string \<Rightarrow> bool" where
  "shown_nic name = (name \<noteq> ''lo'' \<and> \<not> startswith_any name skip_prefixes)"

text \<open>\<open>int((await read_file(path)).strip() or "0")\<close>\<close>

definition nic_counter :: "host \<Rightarrow> string \<Rightarrow> int result" where
  "nic_counter h path = (let s = strip (read_file h path) in py_int (if s = [] then ''0'' else s))"

definition nic_ip :: "json \<Rightarrow> string result" where
  "nic_ip a = rbind (jindex a ''local'') (\<lambda>l. rbind (jindex a ''prefixlen'') (\<lambda>p.
     Inr (json_str l @ ''/'' @ json_str p)))"

text \<open>The addresses collected until an exception, and the exception.\<close>

fun nic_ips :: "json list \<Rightarrow> string list \<times> exn option" where
  "nic_ips [] = ([], None)"
| "nic_ips (a # as) = (case nic_ip a of
     Inl e \<Rightarrow> ([], Some e)
   | Inr ip \<Rightarrow> (case nic_ips as of (ips, e) \<Rightarrow> (ip # ips, e)))"

fun iface_ips :: "json list \<Rightarrow> string list \<times> exn option" where
  "iface_ips [] = ([], None)"
| "iface_ips (i # is) = (case rbind (jget i ''addr_info'' (JList [])) jiter of
     Inl e \<Rightarrow> ([], Some e)
   | Inr as \<Rightarrow> (case nic_ips as of
         (ips, Some e) \<Rightarrow> (ips, Some e)
       | (ips, None) \<Rightarrow> (case iface_ips is of (ips2, e) \<Rightarrow> (ips @ ips2, e))))"

definition nic_addresses :: "host \<Rightarrow> string \<Rightarrow> string list result" where
  "nic_addresses h name = (case h_run h [''ip'', ''-j'', ''addr'', ''show'', name] of (stdout, _, rc) \<Rightarrow>
     if rc = 0 \<and> strip stdout \<noteq> []
     then (case json_loads stdout of
         None \<Rightarrow> Inr []
       | Some v \<Rightarrow> rbind (jiter v) (\<lambda>ifaces. case iface_ips ifaces of
             (ips, None) \<Rightarrow> Inr ips
           | (ips, Some e) \<Rightarrow> if exn_cls e = KeyError then Inr ips else Inl e))
     else Inr [])"

text \<open>Speed, duplex and link.\<close>

definition ethtool_line :: "string \<times> string \<times> bool \<Rightarrow> string \<Rightarrow> string \<times> string \<times> bool" where
  "ethtool_line st line = (case st of (speed, duplex, link) \<Rightarrow>
     (let s = strip line in
      if startswith s ''Speed:'' then (strip (after_char CHR '':'' s), duplex, link)
      else if startswith s ''Duplex:'' then (speed, strip (after_char CHR '':'' s), link)
      else if startswith s ''Link detected:'' then (speed, duplex, contains (lower s) ''yes'')
      else st))"

definition ethtool :: "host \<Rightarrow> string \<Rightarrow> string \<times> string \<times> bool" where
  "ethtool h name = (case h_run h [''ethtool'', name] of (stdout, _, rc) \<Rightarrow>
     if rc = 0 then foldl ethtool_line ([], [], False) (splitlines stdout) else ([], [], False))"

definition nic_driver :: "config \<Rightarrow> host \<Rightarrow> string \<Rightarrow> string" where
  "nic_driver cf h name = (case h_readlink h (HOST_SYS cf @ ''/class/net/'' @ name @ ''/device/driver'') of
     None \<Rightarrow> [] | Some target \<Rightarrow> after_last CHR ''/'' target)"

definition nic_of :: "config \<Rightarrow> host \<Rightarrow> string \<Rightarrow> nic result" where
  "nic_of cf h name =
     (let stat = (\<lambda>f. nic_counter h (HOST_SYS cf @ ''/class/net/'' @ name @ ''/statistics/'' @ f)) in
      rbind (stat ''rx_errors'') (\<lambda>rx_errors. rbind (stat ''tx_errors'') (\<lambda>tx_errors.
      rbind (stat ''rx_dropped'') (\<lambda>rx_dropped. rbind (stat ''tx_dropped'') (\<lambda>tx_dropped.
      rbind (stat ''rx_crc_errors'') (\<lambda>rx_crc. rbind (stat ''tx_carrier_errors'') (\<lambda>tx_carrier.
      rbind (nic_addresses h name) (\<lambda>ips. case ethtool h name of (speed, duplex, link) \<Rightarrow>
        Inr \<lparr>nc_name = name,
          nc_mac = strip (read_file h (HOST_SYS cf @ ''/class/net/'' @ name @ ''/address'')),
          nc_driver = nic_driver cf h name, nc_speed = speed, nc_duplex = duplex, nc_link = link,
          nc_ips = ips, nc_rx_errors = rx_errors, nc_tx_errors = tx_errors, nc_rx_dropped = rx_dropped,
          nc_tx_dropped = tx_dropped, nc_rx_crc = rx_crc, nc_tx_carrier = tx_carrier\<rparr>))))))))"

definition collect_nics :: "config \<Rightarrow> host \<Rightarrow> nic list result" where
  "collect_nics cf h = (case h_listdir h (HOST_SYS cf @ ''/class/net/'') of
     None \<Rightarrow> Inr []
   | Some ifaces \<Rightarrow> rmap (nic_of cf h) (filter shown_nic (sort_asc (\<lambda>x. x) ifaces)))"

section \<open>DNS\<close>

definition nameserver :: "string \<Rightarrow> string option" where
  "nameserver line = (let parts = split_ws line in
     if 2 \<le> length parts \<and> parts ! 0 = ''nameserver'' then Some (parts ! 1) else None)"

definition parse_nameservers :: "string \<Rightarrow> string list" where
  "parse_nameservers resolv = List.map_filter nameserver (splitlines resolv)"

definition dig_cmd :: "string option \<Rightarrow> string list" where
  "dig_cmd server = ''dig'' # (case server of None \<Rightarrow> [] | Some s \<Rightarrow> if s = [] then [] else [s])
     @ [''+short'', ''+time=2'', ''+tries=1'', ''google.com'']"

definition answer_line :: "string \<Rightarrow> bool" where
  "answer_line line = (strip line \<noteq> [] \<and> is_digit (hd (strip line)))"

definition dig :: "host \<Rightarrow> string option \<Rightarrow> string" where
  "dig h server = (case h_run h (dig_cmd server) of (stdout, _, rc) \<Rightarrow>
     if rc \<noteq> 0 then []
     else (case List.find answer_line (splitlines stdout) of None \<Rightarrow> [] | Some line \<Rightarrow> strip line))"

record dns_state =
  dns_ok :: bool
  dns_result :: string
  dns_failed :: "string list"

definition dns_step :: "dns_state \<Rightarrow> string option \<times> string \<Rightarrow> dns_state" where
  "dns_step st ta = (case ta of (target, answer) \<Rightarrow>
     if answer \<noteq> [] then st\<lparr>dns_ok := True, dns_result := (if dns_ok st then dns_result st else answer)\<rparr>
     else (case target of None \<Rightarrow> st | Some t \<Rightarrow> st\<lparr>dns_failed := dns_failed st @ [drop 1 t]\<rparr>))"

definition dns_targets :: "string list \<Rightarrow> string option list" where
  "dns_targets servers = (if servers = [] then [None] else map (\<lambda>s. Some (CHR ''@'' # s)) servers)"

definition dns_check :: "host \<Rightarrow> string list \<Rightarrow> dns_state" where
  "dns_check h servers = foldl dns_step \<lparr>dns_ok = False, dns_result = [], dns_failed = []\<rparr>
     (map (\<lambda>t. (t, dig h t)) (dns_targets servers))"

section \<open>Gateway\<close>

definition add_gateway :: "string list \<Rightarrow> string \<times> string \<Rightarrow> string list" where
  "add_gateway gateways pt = (case pt of (prev, tok) \<Rightarrow>
     if prev = ''via'' \<and> tok \<notin> set gateways then gateways @ [tok] else gateways)"

definition parse_default_gateway :: "string \<Rightarrow> string" where
  "parse_default_gateway stdout =
     (let tokens = split_ws stdout; pairs = zip tokens (tl tokens);
          gateways = foldl add_gateway [] pairs in
      if gateways \<noteq> [] then join '', '' gateways
      else (case List.find (\<lambda>pt. fst pt = ''dev'') pairs of
          None \<Rightarrow> [] | Some (_, tok) \<Rightarrow> ''dev '' @ tok))"

section \<open>Connectivity\<close>

definition internet_check :: "kenv \<Rightarrow> pool \<Rightarrow> bool result \<times> pool \<times> request list" where
  "internet_check ke st = (case public_client st of (i, st1) \<Rightarrow>
     (let rq = \<lparr>rq_verify = hc_info st1 i, rq_method = ''HEAD'', rq_url = ''https://www.google.com'',
                rq_params = [], rq_headers = []\<rparr>
      in ((case ke_net ke rq of
             Inr (status, _) \<Rightarrow> Inr (200 \<le> status \<and> status < 400)
           | Inl e \<Rightarrow> if exn_cls e = HTTPError then Inr False else Inl e), st1, [rq])))"

definition k8s_check :: "kenv \<Rightarrow> pool \<Rightarrow> bool result \<times> pool \<times> request list" where
  "k8s_check ke st =
     (if env_get (h_env (ke_host ke)) ''KUBERNETES_SERVICE_HOST'' [] = [] then (Inr False, st, [])
      else
        (let token = read_service_account_token (ke_host ke) in
         case (if token = [] then (None, st) else kubernetes_client (ke_tls ke) st) of (c, st1) \<Rightarrow>
         case (case c of Some i \<Rightarrow> (i, token, st1)
               | None \<Rightarrow> (case insecure_client st1 of (j, st2) \<Rightarrow> (j, [], st2))) of (i, token', st3) \<Rightarrow>
           (let rq = \<lparr>rq_verify = hc_info st3 i, rq_method = ''GET'',
                      rq_url = kubernetes_api_base (ke_host ke) @ ''/healthz'',
                      rq_params = [], rq_headers = bearer token'\<rparr>
            in ((case ke_net ke rq of
                   Inr (status, body) \<Rightarrow> Inr (status = 200 \<and> lower (strip body) = ''ok'')
                 | Inl e \<Rightarrow> if exn_cls e = HTTPError then Inr False else Inl e), st3, [rq]))))"

record connectivity =
  cy_servers :: "string list"
  cy_dns :: dns_state
  cy_internet :: bool
  cy_kubernetes :: bool
  cy_gateway :: string

definition resolv_path :: "config \<Rightarrow> host \<Rightarrow> string" where
  "resolv_path cf h = (if in_host_network_namespace cf h then HOST_ROOT cf else []) @ ''/etc/resolv.conf''"

definition default_gateway :: "host \<Rightarrow> string" where
  "default_gateway h = (case h_run h [''ip'', ''route'', ''show'', ''default''] of (stdout, _, rc) \<Rightarrow>
     if rc = 0 then parse_default_gateway stdout else [])"

definition collect_connectivity :: "config \<Rightarrow> kenv \<Rightarrow> pool \<Rightarrow> connectivity result \<times> pool \<times> request list" where
  "collect_connectivity cf ke st =
     (let h = ke_host ke; servers = parse_nameservers (read_file h (resolv_path cf h)) in
      case internet_check ke st of (r1, st1, rqs1) \<Rightarrow>
        (case r1 of
           Inl e \<Rightarrow> (Inl e, st1, rqs1)
         | Inr internet \<Rightarrow>
             (case k8s_check ke st1 of (r2, st2, rqs2) \<Rightarrow>
                (rbind r2 (\<lambda>k8s. Inr \<lparr>cy_servers = servers, cy_dns = dns_check h servers,
                   cy_internet = internet, cy_kubernetes = k8s, cy_gateway = default_gateway h\<rparr>),
                 st2, rqs1 @ rqs2))))"

section \<open>Lemmas\<close>

lemma dns_fold:
  "foldl dns_step st tas = \<lparr>dns_ok = (dns_ok st \<or> (\<exists>ta \<in> set tas. snd ta \<noteq> [])),
     dns_result = (if dns_ok st then dns_result st
       else opt_default (dns_result st) (map_option snd (List.find (\<lambda>ta. snd ta \<noteq> []) tas))),
     dns_failed = dns_failed st @ List.map_filter (\<lambda>ta. if snd ta \<noteq> [] then None else map_option (drop 1) (fst ta)) tas\<rparr>"
proof (induction tas arbitrary: st)
  case (Cons ta tas)
  show ?case unfolding foldl_Cons Cons.IH
    by (cases ta) (auto simp: dns_step_def List.map_filter_def split: option.splits)
qed (simp add: List.map_filter_def)

lemma gateways_fold:
  "distinct gs \<Longrightarrow> distinct (foldl add_gateway gs pairs)
     \<and> set (foldl add_gateway gs pairs) = set gs \<union> {t. (''via'', t) \<in> set pairs}"
proof (induction pairs arbitrary: gs)
  case (Cons p pairs)
  obtain a b where p: "p = (a, b)" by (cases p)
  have d: "distinct (add_gateway gs p)" using Cons.prems p by (simp add: add_gateway_def)
  have "set (add_gateway gs p) = set gs \<union> (if a = ''via'' then {b} else {})"
    using p by (auto simp: add_gateway_def)
  then show ?case using Cons.IH [OF d] p by (simp del: Un_insert_right) blast
qed simp

lemma nic_of_name: "nic_of cf h name = Inr n \<Longrightarrow> nc_name n = name"
  by (cases "ethtool h name") (clarsimp simp: nic_of_def Let_def rbind_Inr_iff simp del: append.simps)

text \<open>A loop whose results bear the names of its elements.\<close>

lemma rmap_names: "rmap f xs = Inr ys \<Longrightarrow> (\<And>x y. f x = Inr y \<Longrightarrow> g y = x) \<Longrightarrow> map g ys = xs"
  by (induction xs arbitrary: ys) (auto simp: rbind_Inr_iff)

text \<open>The interfaces listed are those of the node less the loopback and container networks.\<close>

lemma nics_listed:
  assumes "collect_nics cf h = Inr ns" "h_listdir h (HOST_SYS cf @ ''/class/net/'') = Some ifaces"
  shows "map nc_name ns = filter shown_nic (sort_asc (\<lambda>x. x) ifaces)"
  using assms by (intro rmap_names [of "nic_of cf h"]) (simp_all add: collect_nics_def nic_of_name)

lemma k8s_check_safe: "pool_ok cf st \<Longrightarrow> safe_trace (snd (snd (k8s_check ke st)))"
  using token_clients(1) [of cf st "ke_tls ke"]
  by (auto simp: k8s_check_def Let_def split: prod.splits option.splits if_splits)

lemma connectivity_safe:
  assumes "pool_ok cf st"
  shows "safe_trace (snd (snd (collect_connectivity cf ke st)))"
proof -
  obtain r st1 rqs where i: "internet_check ke st = (r, st1, rqs)" by (metis prod_cases3)
  then have "pool_ok cf st1" "safe_trace rqs"
    using pool_step_ok [OF assms, of Want_public]
    by (auto simp: internet_check_def Let_def split: prod.splits)
  then show ?thesis
    using k8s_check_safe [of cf st1 ke] i
    by (auto simp: collect_connectivity_def Let_def split: sum.splits prod.splits)
qed

section \<open>Properties\<close>

text \<open>
  The connectivity check says of DNS exactly what each resolver answered: it holds when some
  resolver gave an address, shows the first answer in the order of the resolvers, and lists as
  failed those that gave none; with no resolver configured the pod's own is asked and nothing is
  listed.
\<close>

theorem dns_verdict:
  "dns_ok (dns_check h servers) = list_ex (\<lambda>t. dig h t \<noteq> []) (dns_targets servers)
   \<and> dns_failed (dns_check h servers) = filter (\<lambda>s. dig h (Some (CHR ''@'' # s)) = []) servers
   \<and> dns_result (dns_check h servers)
       = opt_default [] (List.find (\<lambda>a. a \<noteq> []) (map (dig h) (dns_targets servers)))"
proof -
  have f: "List.map_filter (\<lambda>ta. if snd ta \<noteq> [] then None else map_option (drop 1) (fst ta))
      (map (\<lambda>t. (t, dig h t)) (map (\<lambda>s. Some (CHR ''@'' # s)) xs)) = filter (\<lambda>s. dig h (Some (CHR ''@'' # s)) = []) xs" for xs
    by (induction xs) (auto simp: List.map_filter_def)
  have r: "map_option snd (List.find (\<lambda>ta. snd ta \<noteq> []) (map (\<lambda>t. (t, dig h t)) ts))
      = List.find (\<lambda>a. a \<noteq> []) (map (dig h) ts)" for ts
    by (induction ts) auto
  show ?thesis
    unfolding dns_check_def dns_fold r
    using f [of servers] by (auto simp: dns_targets_def list_ex_iff List.map_filter_def)
qed

text \<open>
  The connectivity check keeps the service account token as the other callers do: whatever
  the pool went through before, the only request of the check that may carry it goes out on a
  client pinned to the cluster CA, and the probe of the internet carries nothing.
\<close>

theorem connectivity_token_safe:
  assumes "rq \<in> set (snd (snd (collect_connectivity cf ke (pool_run cf evs))))" "rq_headers rq \<noteq> []"
  shows "cluster_ca (rq_verify rq)"
  using assms connectivity_safe [OF pool_run_ok] unfolding safe_trace_def by blast

definition demo_cluster_kenv :: kenv where
  "demo_cluster_kenv = demo_kenv\<lparr>ke_host := (ke_host demo_kenv)
     \<lparr>h_env := (\<lambda>v. if v = ''KUBERNETES_SERVICE_HOST'' then Some ''10.0.0.1'' else None)\<rparr>\<rparr>"

lemma demo_connectivity:
  "map (\<lambda>rq. (rq_verify rq, rq_headers rq))
     (snd (snd (collect_connectivity demo_config demo_cluster_kenv (pool_run demo_config [])))) =
     [(Public_roots, []), (Pinned \<lparr>sc_ca = SA_CA_PATH, sc_chain = None, sc_hostname = True, sc_stamp = [1]\<rparr>,
       [(''Authorization'', ''Bearer tok'')])]"
  by code_simp

theorem connectivity_token_safe_witness:
  "\<exists>rq. rq \<in> set (snd (snd (collect_connectivity demo_config demo_cluster_kenv (pool_run demo_config []))))
     \<and> rq_headers rq = [(''Authorization'', ''Bearer tok'')] \<and> cluster_ca (rq_verify rq)"
proof -
  have "(Pinned \<lparr>sc_ca = SA_CA_PATH, sc_chain = None, sc_hostname = True, sc_stamp = [1]\<rparr>, [(''Authorization'', ''Bearer tok'')])
      \<in> (\<lambda>rq. (rq_verify rq, rq_headers rq)) ` set (snd (snd (collect_connectivity demo_config demo_cluster_kenv (pool_run demo_config []))))"
    unfolding set_map [symmetric] demo_connectivity by simp
  then obtain rq where "rq \<in> set (snd (snd (collect_connectivity demo_config demo_cluster_kenv (pool_run demo_config []))))"
      "rq_headers rq = [(''Authorization'', ''Bearer tok'')]"
    by auto
  then show ?thesis using connectivity_token_safe [of rq demo_config demo_cluster_kenv "[]"] by auto
qed

end
