(* ===== verification/Warnings.thy ===== *)
theory Warnings
  imports Degrade Dmesg Smart Sensors Memory Network
begin

text \<open>
  \<open>app/routers/warnings.py\<close>: the endpoint that turns what every collector found into one list
  of warnings, and the memory it keeps of lifetime error counters so that an old event stops
  paging. The results of the collectors come in as \<open>sources\<close>: the endpoint awaits them through
  their caches. The lemmas give the meaning of the counter table over any history of requests.
\<close>

section \<open>Lifetime counters\<close>

text \<open>A counter is named by its subsystem, its device and its kind; the table holds the value
  last seen and when it last went up.\<close>

type_synonym counter_key = "string \<times> string \<times> string"
type_synonym counters = "(counter_key, int \<times> rat option) dict"

definition went_up :: "int \<Rightarrow> int \<Rightarrow> bool" where
  "went_up prev_value value = (prev_value < value \<or> (value < prev_value \<and> 0 < value))"

definition recent :: "config \<Rightarrow> rat \<Rightarrow> rat \<Rightarrow> bool" where
  "recent cf now t = (fsub now t < of_int (COUNTER_WINDOW_HOURS cf * 3600))"

definition last_increase :: "rat \<Rightarrow> counter_key \<Rightarrow> int \<Rightarrow> counters \<Rightarrow> rat option" where
  "last_increase now key value cs = (case dget cs key of
     None \<Rightarrow> None
   | Some (prev_value, since) \<Rightarrow> if went_up prev_value value then Some now else since)"

definition counter_severity :: "config \<Rightarrow> rat \<Rightarrow> counter_key \<Rightarrow> int \<Rightarrow> severity \<Rightarrow> counters
    \<Rightarrow> severity option \<times> counters" where
  "counter_severity cf now key value sev cs =
     (let since = last_increase now key value cs; cs' = dset key (value, since) cs in
      if value \<le> 0 then (None, cs')
      else (case since of
          Some t \<Rightarrow> if recent cf now t then (Some sev, cs') else (Some SevInfo, cs')
        | None \<Rightarrow> (Some SevInfo, cs')))"

section \<open>Warnings of one subsystem\<close>

definition warn :: "severity \<Rightarrow> string \<Rightarrow> string \<Rightarrow> node_warning" where
  "warn sev source message = \<lparr>nw_severity = sev, nw_source = source, nw_message = message, nw_device = None\<rparr>"

definition warn_dev :: "severity \<Rightarrow> string \<Rightarrow> string \<Rightarrow> string \<Rightarrow> node_warning" where
  "warn_dev sev source message device =
     \<lparr>nw_severity = sev, nw_source = source, nw_message = message, nw_device = Some device\<rparr>"

definition if_warn :: "bool \<Rightarrow> 'a \<Rightarrow> 'a list" where
  "if_warn b x = (if b then [x] else [])"

definition failed_warning :: "string \<Rightarrow> node_warning" where
  "failed_warning name = warn SevWarning ''dashboard'' (''Could not collect '' @ name @ ''; its warnings are missing'')"

definition namespace_warning :: node_warning where
  "namespace_warning = warn SevInfo ''dashboard'' (''hostNetwork is off: component health, etcd metrics and the node''
     @ [squote] @ ''s DNS resolvers cannot be checked from the pod'')"

definition critical_smart_issues :: "string list" where
  "critical_smart_issues = [''Self-test log contains errors'', ''Prefail attribute at or below threshold'']"

text \<open>\<open>x and x > n\<close> on an optional count\<close>

definition above :: "int option \<Rightarrow> int \<Rightarrow> bool" where
  "above x n = (case x of None \<Rightarrow> False | Some v \<Rightarrow> v \<noteq> 0 \<and> n < v)"

definition int_text :: "int option \<Rightarrow> string" where
  "int_text x = (case x of None \<Rightarrow> ''None'' | Some v \<Rightarrow> str_of_int v)"

definition smart_warnings :: "smart_health \<Rightarrow> node_warning list" where
  "smart_warnings sh =
     if_warn (sh_health sh = Some False) (warn_dev SevCritical ''smart'' ''SMART health FAILED'' (sh_device sh))
     @ if_warn (opt_default [] (sh_error sh) \<noteq> [] \<and> \<not> sh_standby sh)
         (warn_dev SevWarning ''smart'' (''SMART not readable: '' @ opt_default [] (sh_error sh)) (sh_device sh))
     @ if_warn (above (sh_pending sh) 0)
         (warn_dev SevWarning ''smart'' (''Pending sectors: '' @ int_text (sh_pending sh)) (sh_device sh))
     @ if_warn (above (sh_uncorrectable sh) 0)
         (warn_dev SevCritical ''smart'' (''Offline uncorrectable sectors: '' @ int_text (sh_uncorrectable sh)) (sh_device sh))
     @ map (\<lambda>issue. warn_dev (if issue \<in> set critical_smart_issues then SevCritical else SevWarning)
         ''smart'' issue (sh_device sh)) (sh_issues sh)
     @ if_warn (above (sh_realloc sh) 0)
         (warn_dev SevWarning ''smart'' (''Reallocated sectors: '' @ int_text (sh_realloc sh)) (sh_device sh))
     @ if_warn (case sh_wear sh of None \<Rightarrow> False | Some w \<Rightarrow> w < 20)
         (warn_dev SevWarning ''smart'' (''SSD wear level at '' @ int_text (sh_wear sh) @ ''%'') (sh_device sh))
     @ if_warn (above (sh_temperature sh) 60)
         (warn_dev (if above (sh_temperature sh) 70 then SevCritical else SevWarning) ''smart''
           (''Disk temperature: '' @ int_text (sh_temperature sh) @ celsius) (sh_device sh))"

definition float_ge :: "pyfloat \<Rightarrow> rat \<Rightarrow> bool" where
  "float_ge x c = (case x of Fin v \<Rightarrow> c \<le> v | PosInf \<Rightarrow> True | _ \<Rightarrow> False)"

definition rat_text :: "rat option \<Rightarrow> string" where
  "rat_text x = (case x of None \<Rightarrow> ''None'' | Some v \<Rightarrow> float_repr v)"

definition sensor_warnings :: "sensor_reading \<Rightarrow> node_warning list" where
  "sensor_warnings r = if_warn (sr_alarm r)
     (warn (case sr_critical r of
          None \<Rightarrow> SevWarning
        | Some c \<Rightarrow> if c \<noteq> 0 \<and> float_ge (sr_value r) c then SevCritical else SevWarning) ''temperature''
       (sr_label r @ '': '' @ repr_pyfloat (sr_value r) @ sr_unit r @ '' (crit='' @ rat_text (sr_critical r)
         @ '', warn='' @ rat_text (sr_warning r) @ '')''))"

definition opt_list :: "'a option \<Rightarrow> 'a list" where
  "opt_list x = (case x of None \<Rightarrow> [] | Some v \<Rightarrow> [v])"

text \<open>The clock is read once for each counter: \<open>clk\<close> is what it showed then.\<close>

definition memory_warnings :: "config \<Rightarrow> (counter_key \<Rightarrow> rat) \<Rightarrow> memory_info option \<Rightarrow> counters
    \<Rightarrow> node_warning list \<times> counters" where
  "memory_warnings cf clk mem cs = (case mem of
     None \<Rightarrow> ([], cs)
   | Some m \<Rightarrow>
       (let ue = (''memory'', [], ''ecc_ue''); ce = (''memory'', [], ''ecc_ce'') in
        case counter_severity cf (clk ue) ue (mi_ecc_uncorrectable m) SevCritical cs of (s1, cs1) \<Rightarrow>
        case counter_severity cf (clk ce) ce (mi_ecc_correctable m) SevWarning cs1 of (s2, cs2) \<Rightarrow>
          (opt_list (map_option (\<lambda>s. warn s ''memory''
              (''ECC uncorrectable errors: '' @ str_of_int (mi_ecc_uncorrectable m))) s1)
           @ opt_list (map_option (\<lambda>s. warn s ''memory''
              (''ECC correctable errors: '' @ str_of_int (mi_ecc_correctable m))) s2), cs2)))"

definition nic_warnings :: "config \<Rightarrow> (counter_key \<Rightarrow> rat) \<Rightarrow> nic \<Rightarrow> counters
    \<Rightarrow> node_warning list \<times> counters" where
  "nic_warnings cf clk n cs =
     (let crc = (''network'', nc_name n, ''crc''); carrier = (''network'', nc_name n, ''carrier'') in
      case counter_severity cf (clk crc) crc (nc_rx_crc n) SevCritical cs of (s1, cs1) \<Rightarrow>
      case counter_severity cf (clk carrier) carrier (nc_tx_carrier n) SevCritical cs1 of (s2, cs2) \<Rightarrow>
        (opt_list (map_option (\<lambda>s. warn_dev s ''network''
            (''CRC errors: '' @ str_of_int (nc_rx_crc n)) (nc_name n)) s1)
         @ opt_list (map_option (\<lambda>s. warn_dev s ''network''
            (''Carrier errors: '' @ str_of_int (nc_tx_carrier n)) (nc_name n)) s2), cs2))"

fun nics_warnings :: "config \<Rightarrow> (counter_key \<Rightarrow> rat) \<Rightarrow> nic list \<Rightarrow> counters
    \<Rightarrow> node_warning list \<times> counters" where
  "nics_warnings cf clk [] cs = ([], cs)"
| "nics_warnings cf clk (n # ns) cs = (case nic_warnings cf clk n cs of (ws, cs1) \<Rightarrow>
     case nics_warnings cf clk ns cs1 of (ws', cs2) \<Rightarrow> (ws @ ws', cs2))"

definition forget_nics :: "string list \<Rightarrow> counters \<Rightarrow> counters" where
  "forget_nics present cs = foldl (\<lambda>c key. if fst (snd key) \<notin> set present then dpop key c else c) cs
     (filter (\<lambda>key. fst key = ''network'') (dkeys cs))"

definition usage_warnings :: "disk_usage \<Rightarrow> node_warning list" where
  "usage_warnings u = if_warn (du_severity u \<noteq> SevOk)
     (warn_dev (du_severity u) ''disk'' (du_mount u @ '': '' @ str_of_int (du_percent u) @ ''% used (''
        @ du_used u @ ''/'' @ du_size u @ '')'') (du_filesystem u))"

definition k8s_cert_warnings :: "bool \<Rightarrow> cert_info \<Rightarrow> node_warning list" where
  "k8s_cert_warnings talos_owns_pki c =
     (if talos_owns_pki \<and> contains (ci_name c) ''/system/secrets/kubernetes/'' then []
      else if_warn (ci_severity c \<noteq> SevOk) (warn (ci_severity c) ''certificate''
        (''K8s cert expires in '' @ int_text (ci_days c) @ ''d: '' @ after_last CHR ''/'' (ci_name c))))"

definition talos_cert_warnings :: "cert_info \<Rightarrow> node_warning list" where
  "talos_cert_warnings c = if_warn (ci_severity c \<noteq> SevOk) (warn (ci_severity c) ''certificate''
     (''Talos cert expires in '' @ int_text (ci_days c) @ ''d: '' @ ci_name c))"

definition etcd_warnings :: "component \<Rightarrow> node_warning list" where
  "etcd_warnings c = (case co_etcd c of
     None \<Rightarrow> []
   | Some es \<Rightarrow> if_warn (es_defrag_severity es \<noteq> SevOk) (warn (es_defrag_severity es) ''etcd''
       (''etcd at '' @ float_repr (es_quota_used_percent es) @ ''% of its '' @ format_f 0 (es_db_size_quota_mb es)
        @ ''MB quota with only '' @ format_f 0 (es_db_size_in_use_mb es) @ ''MB in use '' @ em_dash @ '' ''
        @ format_f 0 (es_defrag_reclaimable_mb es) @ ''MB reclaimable by defrag'')))"

definition condition_warnings :: "string \<times> string \<times> string \<times> string \<times> string \<Rightarrow> node_warning list" where
  "condition_warnings cond = (case cond of (ty, status, reason, message, at') \<Rightarrow>
     if ty = ''Ready'' \<and> status \<noteq> ''True'' then [warn SevCritical ''kubernetes'' (''Node not Ready: '' @ message)]
     else if ty \<in> {''MemoryPressure'', ''DiskPressure'', ''PIDPressure''} \<and> status = ''True''
     then [warn SevWarning ''kubernetes'' (ty @ '': '' @ message)]
     else [])"

section \<open>The endpoint\<close>

record sources =
  src_dmesg :: "node_warning list result"
  src_smart :: "smart_health list result"
  src_sensors :: "sensor_reading list result"
  src_memory :: "memory_info result"
  src_nics :: "nic list result"
  src_usage :: "disk_usage list result"
  src_k8s_certs :: "cert_info list result"
  src_talos_certs :: "cert_info list result"
  src_components :: "component list result"
  src_k8s_node :: "node_info result"

datatype gathered =
    Got_dmesg "node_warning list" | Got_smart "smart_health list" | Got_sensors "sensor_reading list"
  | Got_memory memory_info | Got_nics "nic list" | Got_usage "disk_usage list"
  | Got_certs "cert_info list" | Got_components "component list" | Got_node node_info

definition named_sources :: "sources \<Rightarrow> (string \<times> gathered result) list" where
  "named_sources s = [(''dmesg'', map_sum id Got_dmesg (src_dmesg s)), (''smart'', map_sum id Got_smart (src_smart s)),
     (''sensors'', map_sum id Got_sensors (src_sensors s)), (''memory'', map_sum id Got_memory (src_memory s)),
     (''nics'', map_sum id Got_nics (src_nics s)), (''disk_usage'', map_sum id Got_usage (src_usage s)),
     (''k8s_certs'', map_sum id Got_certs (src_k8s_certs s)), (''talos_certs'', map_sum id Got_certs (src_talos_certs s)),
     (''components'', map_sum id Got_components (src_components s)), (''k8s_node'', map_sum id Got_node (src_k8s_node s))]"

text \<open>\<open>r[name] or []\<close> and \<open>r[name]\<close>\<close>

definition got :: "(string, gathered option) dict \<Rightarrow> string \<Rightarrow> gathered option" where
  "got r name = (case dget r name of Some g \<Rightarrow> g | None \<Rightarrow> None)"

definition got_dmesg where "got_dmesg g = (case g of Some (Got_dmesg x) \<Rightarrow> x | _ \<Rightarrow> [])"
definition got_smart where "got_smart g = (case g of Some (Got_smart x) \<Rightarrow> x | _ \<Rightarrow> [])"
definition got_sensors where "got_sensors g = (case g of Some (Got_sensors x) \<Rightarrow> x | _ \<Rightarrow> [])"
definition got_memory where "got_memory g = (case g of Some (Got_memory x) \<Rightarrow> Some x | _ \<Rightarrow> None)"
definition got_nics where "got_nics g = (case g of Some (Got_nics x) \<Rightarrow> x | _ \<Rightarrow> [])"
definition got_usage where "got_usage g = (case g of Some (Got_usage x) \<Rightarrow> x | _ \<Rightarrow> [])"
definition got_certs where "got_certs g = (case g of Some (Got_certs x) \<Rightarrow> x | _ \<Rightarrow> [])"
definition got_components where "got_components g = (case g of Some (Got_components x) \<Rightarrow> x | _ \<Rightarrow> [])"
definition got_conditions where "got_conditions g = (case g of Some (Got_node x) \<Rightarrow> ni_conditions x | _ \<Rightarrow> [])"

lemmas got_defs = got_dmesg_def got_smart_def got_sensors_def got_memory_def got_nics_def got_usage_def
  got_certs_def got_components_def got_conditions_def

definition get_warnings :: "config \<Rightarrow> host \<Rightarrow> (counter_key \<Rightarrow> rat) \<Rightarrow> sources \<Rightarrow> counters
    \<Rightarrow> node_warning list result \<times> counters" where
  "get_warnings cf h clk s cs = (case gather_sections (named_sources s) of
     Inl e \<Rightarrow> (Inl e, cs)
   | Inr (r, failed) \<Rightarrow>
       (let nics = got_nics (got r ''nics'');
            talos_owns_pki = (''talos_certs'' \<notin> set failed)
        in case memory_warnings cf clk (got_memory (got r ''memory'')) cs of (mem_ws, cs1) \<Rightarrow>
           case nics_warnings cf clk nics cs1 of (nic_ws, cs2) \<Rightarrow>
             (Inr (map failed_warning failed
                @ if_warn (\<not> in_host_network_namespace cf h) namespace_warning
                @ got_dmesg (got r ''dmesg'')
                @ concat (map smart_warnings (got_smart (got r ''smart'')))
                @ concat (map sensor_warnings (got_sensors (got r ''sensors'')))
                @ mem_ws @ nic_ws
                @ concat (map usage_warnings (got_usage (got r ''disk_usage'')))
                @ concat (map (k8s_cert_warnings talos_owns_pki) (got_certs (got r ''k8s_certs'')))
                @ concat (map talos_cert_warnings (got_certs (got r ''talos_certs'')))
                @ concat (map etcd_warnings (got_components (got r ''components'')))
                @ concat (map condition_warnings (got_conditions (got r ''k8s_node'')))),
              if ''nics'' \<in> set failed then cs2 else forget_nics (map nc_name nics) cs2)))"

section \<open>The counter table over time\<close>

text \<open>What happens to the table: a counter is read, or the interfaces that are gone are forgotten.\<close>

datatype counter_event = Observed counter_key rat int | Forget_absent "string list"

definition counter_event :: "config \<Rightarrow> counters \<Rightarrow> counter_event \<Rightarrow> counters" where
  "counter_event cf cs ev = (case ev of
     Observed key now value \<Rightarrow> snd (counter_severity cf now key value SevInfo cs)
   | Forget_absent present \<Rightarrow> forget_nics present cs)"

definition counter_run :: "config \<Rightarrow> counter_event list \<Rightarrow> counters" where
  "counter_run cf evs = foldl (counter_event cf) [] evs"

text \<open>The readings of one counter since it was last forgotten, and the times at which it rose.\<close>

definition absent_key :: "string list \<Rightarrow> counter_key \<Rightarrow> bool" where
  "absent_key present key = (fst key = ''network'' \<and> fst (snd key) \<notin> set present)"

definition readings :: "counter_key \<Rightarrow> counter_event list \<Rightarrow> (rat \<times> int) list" where
  "readings key evs = foldl (\<lambda>h ev. case ev of
     Observed k t v \<Rightarrow> if k = key then h @ [(t, v)] else h
   | Forget_absent present \<Rightarrow> if absent_key present key then [] else h) [] evs"

fun rises :: "(rat \<times> int) list \<Rightarrow> rat list" where
  "rises ((t, v) # (t', v') # h) = (if went_up v v' then [t'] else []) @ rises ((t', v') # h)"
| "rises h = []"

lemma rises_snoc: "h \<noteq> [] \<Longrightarrow> rises (h @ [(t, v)]) = rises h @ (if went_up (snd (last h)) v then [t] else [])"
  by (induction h rule: rises.induct) auto

lemma rises_times: "t \<in> set (rises h) \<Longrightarrow> t \<in> set (map fst (tl h))"
  by (induction h rule: rises.induct) (auto split: if_splits)

lemma rises_sorted: "sorted (map fst h) \<Longrightarrow> sorted (rises h)"
proof (induction h rule: rises.induct)
  case (1 t v t' v' h)
  have "t' \<le> x" if "x \<in> set (rises ((t', v') # h))" for x
    using rises_times [OF that] 1(2) by auto
  then show ?case using 1 by (auto simp: sorted_append)
qed auto

lemma counter_table: "snd (counter_severity cf now key value sev cs) = dset key (value, last_increase now key value cs) cs"
  by (simp add: counter_severity_def Let_def split: option.splits)

lemma forget_fold:
  "dget (foldl (\<lambda>c key. if fst (snd key) \<notin> set present then dpop key c else c) cs ks) k
   = (if k \<in> set ks \<and> fst (snd k) \<notin> set present then None else dget cs k)"
  by (induction ks arbitrary: cs) auto

lemma forget_nics_get: "dget (forget_nics present cs) k = (if absent_key present k then None else dget cs k)"
  by (cases "dget cs k") (auto simp: forget_nics_def forget_fold absent_key_def dkeys_iff)

definition last_rise :: "(rat \<times> int) list \<Rightarrow> rat option" where
  "last_rise h = (if rises h = [] then None else Some (last (rises h)))"

lemma readings_snoc:
  "readings key (evs @ [Observed k t v]) = (if k = key then readings key evs @ [(t, v)] else readings key evs)"
  "readings key (evs @ [Forget_absent present]) = (if absent_key present key then [] else readings key evs)"
  by (simp_all add: readings_def)

lemma counter_run_snoc: "counter_run cf (evs @ [ev]) = counter_event cf (counter_run cf evs) ev"
  by (simp add: counter_run_def)

lemma last_rise_snoc:
  "last_rise (h @ [(t, v)]) = (if h = [] then None else if went_up (snd (last h)) v then Some t else last_rise h)"
  by (simp add: last_rise_def rises_snoc)

lemma last_rise_first [simp]: "last_rise [tv] = None"
  by (cases tv) (simp add: last_rise_def)

text \<open>The entry of a counter: its last reading and its last rise.\<close>

lemma counter_table_meaning:
  "dget (counter_run cf evs) key = (if readings key evs = [] then None
     else Some (snd (last (readings key evs)), last_rise (readings key evs)))"
proof (induction evs rule: rev_induct)
  case (snoc ev evs)
  show ?case
  proof (cases ev)
    case (Observed k t v)
    then show ?thesis using snoc
      by (cases "k = key"; cases "readings key evs = []")
         (simp_all add: counter_run_snoc counter_event_def counter_table readings_snoc last_increase_def last_rise_snoc)
  next
    case (Forget_absent present)
    then show ?thesis
      using snoc by (simp add: counter_run_snoc counter_event_def readings_snoc forget_nics_get)
  qed
qed (simp add: counter_run_def readings_def)

lemma recent_later:
  assumes "recent cf now t" "t \<le> t'"
  shows "recent cf now t'"
proof -
  have "fsub now t' \<le> fsub now t" unfolding fsub_def using assms(2) by (intro fl_mono) simp
  then show ?thesis using assms(1) by (simp add: recent_def)
qed

lemma sorted_last: "sorted ts \<Longrightarrow> t \<in> set ts \<Longrightarrow> t \<le> last ts"
  by (induction ts) (use last_in_set in auto)

lemma recent_last: "sorted ts \<Longrightarrow> ts \<noteq> [] \<Longrightarrow> recent cf now (last ts) = list_ex (recent cf now) ts"
  using sorted_last [of ts] recent_later [of cf now _ "last ts"] by (auto simp: list_ex_iff)

section \<open>Requests as events\<close>

definition memory_events :: "(counter_key \<Rightarrow> rat) \<Rightarrow> memory_info \<Rightarrow> counter_event list" where
  "memory_events clk m =
     [Observed (''memory'', [], ''ecc_ue'') (clk (''memory'', [], ''ecc_ue'')) (mi_ecc_uncorrectable m),
      Observed (''memory'', [], ''ecc_ce'') (clk (''memory'', [], ''ecc_ce'')) (mi_ecc_correctable m)]"

definition nic_events :: "(counter_key \<Rightarrow> rat) \<Rightarrow> nic \<Rightarrow> counter_event list" where
  "nic_events clk n =
     [Observed (''network'', nc_name n, ''crc'') (clk (''network'', nc_name n, ''crc'')) (nc_rx_crc n),
      Observed (''network'', nc_name n, ''carrier'') (clk (''network'', nc_name n, ''carrier'')) (nc_tx_carrier n)]"

text \<open>A request reads the counters of the memory and of each interface, then forgets the interfaces
  that are gone; a collector that failed contributes nothing, and one that was cancelled ends it.\<close>

definition request_events :: "(counter_key \<Rightarrow> rat) \<times> sources \<Rightarrow> counter_event list" where
  "request_events req = (case req of (clk, s) \<Rightarrow>
     if \<not> only_exceptions (named_sources s) then []
     else (case src_memory s of Inr m \<Rightarrow> memory_events clk m | Inl _ \<Rightarrow> [])
       @ (case src_nics s of Inr ns \<Rightarrow> concat (map (nic_events clk) ns) @ [Forget_absent (map nc_name ns)] | Inl _ \<Rightarrow> []))"

lemma memory_table:
  "snd (memory_warnings cf clk (Some m) cs) = foldl (counter_event cf) cs (memory_events clk m)"
  by (simp add: memory_warnings_def Let_def memory_events_def counter_event_def counter_table split: prod.splits)
     (metis counter_table snd_conv)

lemma nic_table: "snd (nic_warnings cf clk n cs) = foldl (counter_event cf) cs (nic_events clk n)"
  by (simp add: nic_warnings_def Let_def nic_events_def counter_event_def counter_table split: prod.splits)
     (metis counter_table snd_conv)

lemma nics_table: "snd (nics_warnings cf clk ns cs) = foldl (counter_event cf) cs (concat (map (nic_events clk) ns))"
proof (induction ns arbitrary: cs)
  case (Cons n ns)
  show ?case using Cons.IH [of "snd (nic_warnings cf clk n cs)"]
    by (simp add: nic_table split: prod.splits) (metis nic_table snd_conv)
qed simp

text \<open>What the gathered sections look up to.\<close>

lemma section_value_map [simp]: "section_value (map_sum id f r) = map_option f (section_value r)"
  by (cases r) simp_all

lemma named_sources_distinct: "distinct (map fst (named_sources s))"
  by (simp add: named_sources_def)

lemma gathered_sources:
  assumes "gather_sections (named_sources s) = Inr (r, failed)"
  shows "got_dmesg (got r ''dmesg'') = opt_default [] (section_value (src_dmesg s))"
    "got_smart (got r ''smart'') = opt_default [] (section_value (src_smart s))"
    "got_sensors (got r ''sensors'') = opt_default [] (section_value (src_sensors s))"
    "got_memory (got r ''memory'') = section_value (src_memory s)"
    "got_nics (got r ''nics'') = opt_default [] (section_value (src_nics s))"
    "got_usage (got r ''disk_usage'') = opt_default [] (section_value (src_usage s))"
    "got_certs (got r ''k8s_certs'') = opt_default [] (section_value (src_k8s_certs s))"
    "got_certs (got r ''talos_certs'') = opt_default [] (section_value (src_talos_certs s))"
    "got_components (got r ''components'') = opt_default [] (section_value (src_components s))"
    "got_conditions (got r ''k8s_node'') = opt_default [] (map_option ni_conditions (section_value (src_k8s_node s)))"
proof -
  have r: "r = map (\<lambda>s. (fst s, section_value (snd s))) (named_sources s)"
    using gather_sections_Inr [OF assms named_sources_distinct] by simp
  show "got_dmesg (got r ''dmesg'') = opt_default [] (section_value (src_dmesg s))"
    by (cases "section_value (src_dmesg s)") (simp_all add: r named_sources_def got_def got_defs)
  show "got_smart (got r ''smart'') = opt_default [] (section_value (src_smart s))"
    by (cases "section_value (src_smart s)") (simp_all add: r named_sources_def got_def got_defs)
  show "got_sensors (got r ''sensors'') = opt_default [] (section_value (src_sensors s))"
    by (cases "section_value (src_sensors s)") (simp_all add: r named_sources_def got_def got_defs)
  show "got_memory (got r ''memory'') = section_value (src_memory s)"
    by (cases "section_value (src_memory s)") (simp_all add: r named_sources_def got_def got_defs)
  show "got_nics (got r ''nics'') = opt_default [] (section_value (src_nics s))"
    by (cases "section_value (src_nics s)") (simp_all add: r named_sources_def got_def got_defs)
  show "got_usage (got r ''disk_usage'') = opt_default [] (section_value (src_usage s))"
    by (cases "section_value (src_usage s)") (simp_all add: r named_sources_def got_def got_defs)
  show "got_certs (got r ''k8s_certs'') = opt_default [] (section_value (src_k8s_certs s))"
    by (cases "section_value (src_k8s_certs s)") (simp_all add: r named_sources_def got_def got_defs)
  show "got_certs (got r ''talos_certs'') = opt_default [] (section_value (src_talos_certs s))"
    by (cases "section_value (src_talos_certs s)") (simp_all add: r named_sources_def got_def got_defs)
  show "got_components (got r ''components'') = opt_default [] (section_value (src_components s))"
    by (cases "section_value (src_components s)") (simp_all add: r named_sources_def got_def got_defs)
  show "got_conditions (got r ''k8s_node'') = opt_default [] (map_option ni_conditions (section_value (src_k8s_node s)))"
    by (cases "section_value (src_k8s_node s)") (simp_all add: r named_sources_def got_def got_defs)
qed

lemma gathered_failed:
  assumes "gather_sections (named_sources s) = Inr (r, failed)"
  shows "failed = failed_names (named_sources s)" "only_exceptions (named_sources s)"
    "''nics'' \<in> set failed \<longleftrightarrow> isl (src_nics s)" "''talos_certs'' \<in> set failed \<longleftrightarrow> isl (src_talos_certs s)"
proof -
  show f: "failed = failed_names (named_sources s)"
    using gather_sections_Inr [OF assms named_sources_distinct] by simp
  show "only_exceptions (named_sources s)"
    using assms gather_loop_raises [of "named_sources s" "[]" "[]"] by (auto simp: gather_sections_def)
  have "isl (map_sum id g x) = isl x" for g :: "'c \<Rightarrow> gathered" and x :: "'c result" by (cases x) simp_all
  then show "''nics'' \<in> set failed \<longleftrightarrow> isl (src_nics s)" "''talos_certs'' \<in> set failed \<longleftrightarrow> isl (src_talos_certs s)"
    by (auto simp: f failed_names_def named_sources_def)
qed

lemma request_table:
  "snd (get_warnings cf h clk s cs) = foldl (counter_event cf) cs (request_events (clk, s))"
proof (cases "gather_sections (named_sources s)")
  case (Inl e)
  then have "\<not> only_exceptions (named_sources s)"
    using gather_sections_result [OF _ named_sources_distinct, of s] by auto
  then show ?thesis using Inl by (simp add: get_warnings_def request_events_def)
next
  case (Inr rf)
  obtain r failed where rf: "gather_sections (named_sources s) = Inr (r, failed)" using Inr by (cases rf) auto
  note g = gathered_sources [OF rf] gathered_failed(2-4) [OF rf]
  have mem: "snd (memory_warnings cf clk (section_value (src_memory s)) cs)
      = foldl (counter_event cf) cs (case src_memory s of Inr m \<Rightarrow> memory_events clk m | Inl _ \<Rightarrow> [])"
    using memory_table by (cases "src_memory s") (simp_all add: memory_warnings_def)
  obtain mem_ws cs1 where m: "memory_warnings cf clk (section_value (src_memory s)) cs = (mem_ws, cs1)"
    by (cases "memory_warnings cf clk (section_value (src_memory s)) cs")
  obtain nic_ws cs2 where n: "nics_warnings cf clk (opt_default [] (section_value (src_nics s))) cs1 = (nic_ws, cs2)"
    by (cases "nics_warnings cf clk (opt_default [] (section_value (src_nics s))) cs1")
  have "cs2 = foldl (counter_event cf) cs1 (concat (map (nic_events clk) (opt_default [] (section_value (src_nics s)))))"
    using nics_table [of cf clk "opt_default [] (section_value (src_nics s))" cs1] n by simp
  then show ?thesis
    using mem m n g(4,5,12,13)
    by (cases "src_nics s")
       (simp_all add: get_warnings_def rf Let_def request_events_def counter_event_def g(11))
qed

section \<open>The list of warnings\<close>

definition source_list :: "'a list result \<Rightarrow> 'a list" where
  "source_list r = opt_default [] (section_value r)"

definition warning_list :: "config \<Rightarrow> host \<Rightarrow> sources \<Rightarrow> node_warning list \<Rightarrow> node_warning list \<Rightarrow> node_warning list" where
  "warning_list cf h s mem_ws nic_ws = map failed_warning (failed_names (named_sources s))
        @ if_warn (\<not> in_host_network_namespace cf h) namespace_warning @ source_list (src_dmesg s)
        @ concat (map smart_warnings (source_list (src_smart s)))
        @ concat (map sensor_warnings (source_list (src_sensors s))) @ mem_ws @ nic_ws
        @ concat (map usage_warnings (source_list (src_usage s)))
        @ concat (map (k8s_cert_warnings (\<not> isl (src_talos_certs s))) (source_list (src_k8s_certs s)))
        @ concat (map talos_cert_warnings (source_list (src_talos_certs s)))
        @ concat (map etcd_warnings (source_list (src_components s)))
        @ concat (map condition_warnings (opt_default [] (map_option ni_conditions (section_value (src_k8s_node s)))))"

lemma get_warnings_list:
  assumes "fst (get_warnings cf h clk s cs) = Inr ws"
  shows "\<exists>m cs1 ns. ws = warning_list cf h s (fst (memory_warnings cf clk m cs)) (fst (nics_warnings cf clk ns cs1))"
proof -
  obtain r failed where rf: "gather_sections (named_sources s) = Inr (r, failed)"
    using assms by (cases "gather_sections (named_sources s)") (auto simp: get_warnings_def)
  obtain mem_ws cs1 where m: "memory_warnings cf clk (section_value (src_memory s)) cs = (mem_ws, cs1)"
    by (cases "memory_warnings cf clk (section_value (src_memory s)) cs")
  obtain nic_ws cs2 where n: "nics_warnings cf clk (source_list (src_nics s)) cs1 = (nic_ws, cs2)"
    by (cases "nics_warnings cf clk (source_list (src_nics s)) cs1")
  note g = gathered_sources [OF rf, folded source_list_def]
  note t = gathered_failed(4) [OF rf, unfolded gathered_failed(1) [OF rf]]
  have "fst (get_warnings cf h clk s cs) = Inr (warning_list cf h s mem_ws nic_ws)"
    unfolding get_warnings_def rf sum.case prod.case Let_def g m n gathered_failed(1) [OF rf] t warning_list_def fst_conv
    by (rule refl)
  then show ?thesis using assms m n by (metis fst_conv sum.inject(2))
qed

lemma in_if_warn [simp]: "w \<in> set (if_warn b x) \<longleftrightarrow> b \<and> w = x"
  by (cases b) (auto simp: if_warn_def)

lemma in_opt_list [simp]: "w \<in> set (opt_list x) \<longleftrightarrow> x = Some w"
  by (auto simp: opt_list_def split: option.splits)

lemma warn_simps [simp]:
  "nw_source (warn sev src msg) = src" "nw_severity (warn sev src msg) = sev"
  "nw_device (warn sev src msg) = None" "nw_message (warn sev src msg) = msg"
  "nw_source (warn_dev sev src msg d) = src" "nw_severity (warn_dev sev src msg d) = sev"
  "nw_device (warn_dev sev src msg d) = Some d" "nw_message (warn_dev sev src msg d) = msg"
  by (simp_all add: warn_def warn_dev_def)

lemma dashboard_warnings [simp]:
  "nw_device (failed_warning name) = None" "nw_severity (failed_warning name) = SevWarning"
  "nw_device namespace_warning = None" "nw_severity namespace_warning = SevInfo"
  by (simp_all add: failed_warning_def namespace_warning_def)

lemma counter_severity_raised: "counter_severity cf now key v sev cs = (Some x, cs') \<Longrightarrow> x \<in> {sev, SevInfo}"
  by (auto simp: counter_severity_def Let_def split: if_splits option.splits)

lemma memory_warning_shape:
  "w \<in> set (fst (memory_warnings cf clk m cs)) \<Longrightarrow> nw_source w = ''memory'' \<and> nw_severity w \<noteq> SevOk"
  by (cases m) (auto simp: memory_warnings_def Let_def split: prod.splits dest!: counter_severity_raised)

lemma nic_warning_shape:
  "w \<in> set (fst (nics_warnings cf clk ns cs)) \<Longrightarrow> nw_source w = ''network'' \<and> nw_severity w \<noteq> SevOk"
proof (induction ns arbitrary: cs)
  case (Cons n ns)
  obtain ws cs1 where n: "nic_warnings cf clk n cs = (ws, cs1)" by (cases "nic_warnings cf clk n cs")
  have "nw_source w = ''network'' \<and> nw_severity w \<noteq> SevOk" if "w \<in> set ws"
    using that n by (auto simp: nic_warnings_def Let_def split: prod.splits dest!: counter_severity_raised)
  then show ?case using Cons.prems Cons.IH [of cs1] n by (auto split: prod.splits)
qed simp

lemma warning_raised:
  "w \<in> set (smart_warnings sh) \<Longrightarrow> nw_severity w \<noteq> SevOk \<and> nw_device w = Some (sh_device sh)"
  "w \<in> set (sensor_warnings r) \<Longrightarrow> nw_severity w \<noteq> SevOk \<and> nw_device w = None"
  "w \<in> set (usage_warnings u) \<Longrightarrow> nw_severity w \<noteq> SevOk \<and> nw_source w = ''disk''"
  "w \<in> set (k8s_cert_warnings b c) \<Longrightarrow> nw_severity w \<noteq> SevOk \<and> nw_device w = None"
  "w \<in> set (talos_cert_warnings c) \<Longrightarrow> nw_severity w \<noteq> SevOk \<and> nw_device w = None"
  "w \<in> set (etcd_warnings co) \<Longrightarrow> nw_severity w \<noteq> SevOk \<and> nw_device w = None"
  "w \<in> set (condition_warnings cond) \<Longrightarrow> nw_severity w \<noteq> SevOk \<and> nw_device w = None"
  by (auto simp: smart_warnings_def sensor_warnings_def usage_warnings_def k8s_cert_warnings_def
      talos_cert_warnings_def etcd_warnings_def condition_warnings_def
      split: if_splits option.splits prod.splits)

lemma health_warning:
  "warn_dev SevCritical ''smart'' ''SMART health FAILED'' d \<in> set (smart_warnings sh) \<Longrightarrow>
     sh_health sh = Some False \<and> sh_device sh = d"
  by (auto simp: smart_warnings_def warn_dev_def critical_smart_issues_def split: if_splits)

lemma health_warning_raised:
  "sh_health sh = Some False \<Longrightarrow>
     warn_dev SevCritical ''smart'' ''SMART health FAILED'' (sh_device sh) \<in> set (smart_warnings sh)"
  by (simp add: smart_warnings_def)

text \<open>The kernel log never contributes a warning that is no warning, nor one of a device.\<close>

lemma dmesg_shape:
  assumes "w \<in> set (source_list (collect_dmesg_warnings cf h))"
  shows "nw_severity w \<noteq> SevOk \<and> nw_device w = None"
proof -
  have rules: "ru_severity r \<noteq> SevOk" if "r \<in> set RULES" for r
    using that by (auto simp: RULES_def mce_rule_def mce_event_rule_def ecc_ue_rule_def ecc_ce_rule_def
        lockup_rule_def throttle_rule_def disk_rule_def pcie_fatal_rule_def pcie_corrected_rule_def)
  have "nw_severity w \<noteq> SevOk \<and> nw_device w = None" if "scan ls b c n = Inr ws" "w \<in> set ws" for ls b c n ws
    using that rules
    by (auto simp: scan_def rbind_Inr_iff List.map_filter_def rule_warning_def split: if_splits)
  moreover have "\<exists>ls b c n ws. w \<in> set ws \<and> scan ls b c n = Inr ws"
    using assms by (auto simp: source_list_def section_value_def collect_dmesg_warnings_def rbind_def
        split: sum.splits option.splits) blast
  ultimately show ?thesis by blast
qed

text \<open>Where a warning comes from, as far as its device and its source tell.\<close>

lemma warning_origin:
  assumes "fst (get_warnings cf h clk s cs) = Inr ws" "w \<in> set ws"
  shows "w \<in> set (source_list (src_dmesg s)) \<or> (nw_severity w \<noteq> SevOk \<and>
    ((\<exists>sh \<in> set (source_list (src_smart s)). w \<in> set (smart_warnings sh)) \<or> nw_device w = None
      \<or> nw_source w \<in> {''memory'', ''network'', ''disk''}))"
proof -
  obtain m cs1 ns where "w \<in> set (warning_list cf h s (fst (memory_warnings cf clk m cs)) (fst (nics_warnings cf clk ns cs1)))"
    using get_warnings_list [OF assms(1)] assms(2) by auto
  then show ?thesis
    unfolding warning_list_def set_append Un_iff set_concat set_map
    by (auto dest: warning_raised memory_warning_shape nic_warning_shape)
qed

section \<open>Properties\<close>

text \<open>
  C12: A lifetime error counter pages only while it is rising. Over any history of readings of any
  counters, with a clock that does not run backwards, a reading of zero raises nothing, and a
  positive one is given its full severity exactly when the counter rose, or was reset and rose
  again, within the window; otherwise, also when the counter was already high at the start or the
  interface has just come back, it is reported as information only.
\<close>

theorem counter_pages_recent_rise:
  assumes "readings key (evs @ [Observed key now v]) = h" "sorted (map fst h)"
  shows "fst (counter_severity cf now key v sev (counter_run cf evs)) =
    (if v \<le> 0 then None else if list_ex (recent cf now) (rises h) then Some sev else Some SevInfo)"
proof -
  have h: "h = readings key evs @ [(now, v)]" using assms(1) by (simp add: readings_snoc)
  have "last_increase now key v (counter_run cf evs) = last_rise h"
    by (cases "readings key evs = []") (simp_all add: last_increase_def counter_table_meaning h last_rise_snoc)
  moreover have "recent cf now (last (rises h)) = list_ex (recent cf now) (rises h)" if "rises h \<noteq> []"
    using recent_last rises_sorted assms(2) that by blast
  ultimately show ?thesis
    by (auto simp: counter_severity_def Let_def last_rise_def)
qed

definition demo_crc :: counter_key where
  "demo_crc = (''network'', ''eth0'', ''crc'')"

theorem counter_pages_recent_rise_witness:
  "fst (counter_severity demo_config 90000 demo_crc 7 SevCritical
     (counter_run demo_config [Observed demo_crc 0 5, Observed demo_crc 10 7])) = Some SevInfo
   \<and> fst (counter_severity demo_config 80000 demo_crc 7 SevCritical
     (counter_run demo_config [Observed demo_crc 0 5, Observed demo_crc 10 7])) = Some SevCritical"
proof -
  have r: "readings demo_crc ([Observed demo_crc 0 5, Observed demo_crc 10 7] @ [Observed demo_crc t 7]) = [(0, 5), (10, 7), (t, 7)]" for t
    by (simp add: readings_def)
  have s: "sorted (map fst [(0 :: rat, 5 :: int), (10, 7), (90000, 7)])" "sorted (map fst [(0 :: rat, 5 :: int), (10, 7), (80000, 7)])"
    by simp_all
  have d: "\<not> recent demo_config 90000 10" "recent demo_config 80000 10" by code_simp+
  show ?thesis
    using counter_pages_recent_rise [OF r s(1), of demo_config SevCritical]
      counter_pages_recent_rise [OF r s(2), of demo_config SevCritical] d
    by (simp add: went_up_def)
qed

text \<open>
  C13: The table of counters after any series of requests to the endpoint is the one its readings
  amount to: each request reads the memory's counters and those of every interface, then forgets
  the interfaces that are gone, a collector that failed leaves its counters as they are, and a
  request that was cancelled leaves the whole table.
\<close>

theorem requests_refine_events:
  "foldl (\<lambda>cs req. snd (get_warnings cf h (fst req) (snd req) cs)) [] reqs
     = counter_run cf (concat (map request_events reqs))"
proof -
  have "foldl (\<lambda>cs req. snd (get_warnings cf h (fst req) (snd req) cs)) cs reqs
      = foldl (counter_event cf) cs (concat (map request_events reqs))" for cs
    by (induction reqs arbitrary: cs) (simp_all add: request_table)
  then show ?thesis by (simp add: counter_run_def)
qed


definition demo_sources :: sources where
  "demo_sources = \<lparr>src_dmesg = Inr [], src_smart = Inr [(smart_blank ''/dev/sda'')\<lparr>sh_health := Some False\<rparr>],
     src_sensors = Inl (Exn ValueError ''x''), src_memory = Inl (Exn ValueError ''x''), src_nics = Inr [],
     src_usage = Inr [], src_k8s_certs = Inr [], src_talos_certs = Inl (Exn ValueError ''x''),
     src_components = Inr [], src_k8s_node = Inr no_node_info\<rparr>"

lemma demo_sources_exceptions: "only_exceptions (named_sources demo_sources)"
  by (simp add: only_exceptions_def named_sources_def demo_sources_def is_exception_def)


text \<open>
  C23: A drive pages as failed exactly when SMART said so: the warning that its health check
  FAILED is in the list exactly when a report of that very device has the verdict false. A drive
  that never reported, that sleeps or that could not be read does not raise it.
\<close>

theorem smart_failure_pages:
  assumes "fst (get_warnings cf h clk s cs) = Inr ws" "src_dmesg s = collect_dmesg_warnings cf h'"
  shows "warn_dev SevCritical ''smart'' ''SMART health FAILED'' d \<in> set ws \<longleftrightarrow>
    (\<exists>sh \<in> set (source_list (src_smart s)). sh_device sh = d \<and> sh_health sh = Some False)"
    (is "?w \<in> set ws \<longleftrightarrow> ?r")
proof
  assume w: "?w \<in> set ws"
  then have "\<exists>sh \<in> set (source_list (src_smart s)). ?w \<in> set (smart_warnings sh)"
    using warning_origin [OF assms(1) w] dmesg_shape [of ?w cf h'] assms(2) by auto
  then show ?r using health_warning by blast
next
  assume ?r
  then obtain sh where sh: "sh \<in> set (source_list (src_smart s))" "?w \<in> set (smart_warnings sh)"
    using health_warning_raised by blast
  obtain mem_ws nic_ws where "ws = warning_list cf h s mem_ws nic_ws"
    using get_warnings_list [OF assms(1)] by blast
  then show "?w \<in> set ws" using sh by (auto simp: warning_list_def)
qed

lemma demo_dmesg: "collect_dmesg_warnings demo_config null_host = Inr []"
  by (simp add: collect_dmesg_warnings_def dmesg_output_def null_host_def)

lemma demo_warnings:
  "\<exists>ws. fst (get_warnings demo_config null_host (\<lambda>_. 0) demo_sources []) = Inr ws"
  using gather_sections_result [OF demo_sources_exceptions named_sources_distinct]
  by (cases "fst (get_warnings demo_config null_host (\<lambda>_. 0) demo_sources [])")
     (auto simp: get_warnings_def Let_def split: prod.splits)

theorem smart_failure_pages_witness:
  "\<exists>ws. fst (get_warnings demo_config null_host (\<lambda>_. 0) demo_sources []) = Inr ws
    \<and> warn_dev SevCritical ''smart'' ''SMART health FAILED'' ''/dev/sda'' \<in> set ws
    \<and> warn_dev SevCritical ''smart'' ''SMART health FAILED'' ''/dev/sdb'' \<notin> set ws"
proof -
  obtain ws where ws: "fst (get_warnings demo_config null_host (\<lambda>_. 0) demo_sources []) = Inr ws"
    using demo_warnings by blast
  have d: "src_dmesg demo_sources = collect_dmesg_warnings demo_config null_host"
    by (simp add: demo_dmesg demo_sources_def)
  have "source_list (src_smart demo_sources) = [(smart_blank ''/dev/sda'')\<lparr>sh_health := Some False\<rparr>]"
    by (simp add: source_list_def demo_sources_def)
  then show ?thesis
    using smart_failure_pages [OF ws d, of "''/dev/sda''"] smart_failure_pages [OF ws d, of "''/dev/sdb''"] ws
    by (simp add: smart_blank_def)
qed

text \<open>
  Everything in the list is a warning: no entry has the severity ok, whatever the collectors
  found and whatever the history of the counters.
\<close>

theorem warnings_never_ok:
  assumes "fst (get_warnings cf h clk s cs) = Inr ws" "src_dmesg s = collect_dmesg_warnings cf h'"
  shows "list_all (\<lambda>w. nw_severity w \<noteq> SevOk) ws"
  using warning_origin [OF assms(1)] dmesg_shape assms(2) by (fastforce simp: list_all_iff)

theorem warnings_never_ok_witness:
  "\<exists>ws. fst (get_warnings demo_config null_host (\<lambda>_. 0) demo_sources []) = Inr ws
    \<and> list_all (\<lambda>w. nw_severity w \<noteq> SevOk) ws"
proof -
  obtain ws where ws: "fst (get_warnings demo_config null_host (\<lambda>_. 0) demo_sources []) = Inr ws"
    using demo_warnings by blast
  have "src_dmesg demo_sources = collect_dmesg_warnings demo_config null_host"
    by (simp add: demo_dmesg demo_sources_def)
  then show ?thesis using warnings_never_ok [OF ws] ws by blast
qed

end
