(* ===== verification/CertWarnings.thy ===== *)
theory CertWarnings
  imports Warnings Certs
begin

text \<open>
  The certificates across three components: both certificate collectors scan the Kubernetes PKI
  of Talos, and the endpoint leaves those files to the Talos collector unless it failed. The
  lemmas show that leaving them out never loses a certificate that is about to expire.
\<close>

section \<open>What the two collectors say of one file\<close>

lemma cert_line_name: "k8s_cert_line raw (c\<lparr>ci_name := n\<rparr>) = (k8s_cert_line raw c)\<lparr>ci_name := n\<rparr>"
  by (simp add: k8s_cert_line_def Let_def)

lemma fold_cert_line_name:
  "fold k8s_cert_line ls (c\<lparr>ci_name := n\<rparr>) = (fold k8s_cert_line ls c)\<lparr>ci_name := n\<rparr>"
  by (induction ls arbitrary: c) (simp_all add: cert_line_name)

lemma fold_cert_line_keeps: "ci_name (fold k8s_cert_line ls c) = ci_name c"
  by (induction ls arbitrary: c) simp_all

lemma cert_expiry_keeps: "cert_expiry caught now c = Inr c' \<Longrightarrow> ci_name c' = ci_name c"
  by (auto simp: cert_expiry_def Let_def split: if_splits sum.splits)

lemma cert_expiry_name:
  assumes "cert_expiry is_value_error now c = Inr c'"
  shows "cert_expiry (\<lambda>e. is_value_error e \<or> exn_cls e = OverflowError) now (c\<lparr>ci_name := n\<rparr>) = Inr (c'\<lparr>ci_name := n\<rparr>)"
  using assms by (auto simp: cert_expiry_def Let_def split: if_splits sum.splits)

text \<open>
  What the file system and \<open>openssl\<close> promise: a certificate read through two paths to one file
  reads the same, a file that could be read is a regular file, and the paths a pattern finds lie
  in the directory the pattern names.
\<close>

definition cert_files_ok :: "config \<Rightarrow> host \<Rightarrow> bool" where
  "cert_files_ok cf h =
     ((\<forall>f g. h_realpath h f = h_realpath h g \<longrightarrow>
        fst (h_run h (openssl_x509 f)) = fst (h_run h (openssl_x509 g))
        \<and> snd (snd (h_run h (openssl_x509 f))) = snd (snd (h_run h (openssl_x509 g))))
      \<and> (\<forall>f. snd (snd (h_run h (openssl_x509 f))) = 0 \<longrightarrow> h_isfile h (h_realpath h f))
      \<and> (\<forall>p \<in> set (take 3 (k8s_cert_patterns cf)). \<forall>f \<in> set (h_glob h p).
           \<not> contains f ''/system/secrets/kubernetes/''))"

lemma same_file_same_grade:
  assumes "cert_files_ok cf h" "k8s_cert h f = Inr (Some c)" "h_realpath h g = h_realpath h f"
  shows "\<exists>t. talos_cert h (dir, g) = Inr (Some t) \<and> ci_severity t = ci_severity c \<and> ci_days t = ci_days c"
proof -
  obtain out err rc where f: "h_run h (openssl_x509 f) = (out, err, rc)" by (metis prod_cases3)
  obtain out' err' rc' where g: "h_run h (openssl_x509 g) = (out', err', rc')" by (metis prod_cases3)
  have same: "out' = out" "rc' = rc"
    using assms(1,3) f g unfolding cert_files_ok_def by (metis fst_conv snd_conv)+
  let ?c = "fold k8s_cert_line (splitlines out) (cert_blank f)" and ?n = "relpath g dir"
  have c: "rc = 0" "cert_expiry is_value_error (h_now h) ?c = Inr c"
    using assms(2) f by (auto simp: k8s_cert_def rbind_Inr_iff split: if_splits)
  have "fold talos_cert_line (splitlines out) (cert_blank ?n) = ?c\<lparr>ci_name := ?n\<rparr>"
    using fold_cert_line_name [where ls = "splitlines out" and c = "cert_blank f" and n = ?n] by (simp add: talos_reads_k8s cert_blank_def)
  then have "talos_cert h (dir, g) = Inr (Some (c\<lparr>ci_name := ?n\<rparr>))"
    using g same c(1) cert_expiry_name [OF c(2), where n = ?n] by (simp add: talos_cert_def)
  then show ?thesis by simp
qed

section \<open>No file is passed over\<close>

lemma unseen_covers:
  assumes "(dir, f) \<in> set fs" "h_isfile h (h_realpath h f)" "h_realpath h f \<notin> set seen"
  shows "\<exists>dir' g. (dir', g) \<in> set (unseen_targets h seen fs) \<and> h_realpath h g = h_realpath h f"
  using assms
proof (induction fs arbitrary: seen)
  case (Cons x fs)
  obtain d g where x: "x = (d, g)" by (cases x)
  show ?case
  proof (cases "h_realpath h g = h_realpath h f")
    case True
    then have "unseen_targets h seen (x # fs) = (d, g) # unseen_targets h (h_realpath h g # seen) fs"
      using Cons.prems x by simp
    then show ?thesis using True by auto
  next
    case False
    then have "(dir, f) \<in> set fs" using Cons.prems(1) x by auto
    then show ?thesis
      using Cons.IH [OF _ Cons.prems(2), of seen] Cons.IH [OF _ Cons.prems(2), of "h_realpath h g # seen"]
        Cons.prems(3) False x by (auto simp: Let_def)
  qed
qed simp

lemma talos_covers:
  assumes "f \<in> set (h_glob h (HOST_ROOT cf @ ''/system/secrets/kubernetes/**/*.crt''))" "h_isfile h (h_realpath h f)"
  shows "\<exists>dir g. (dir, g) \<in> set (talos_cert_files cf h) \<and> h_realpath h g = h_realpath h f"
  unfolding talos_cert_files_def
  by (rule unseen_covers [where dir = "HOST_ROOT cf @ ''/system/secrets/kubernetes''"])
    (use assms in \<open>auto simp: talos_cert_roots_def\<close>)

lemma k8s_cert_listed:
  assumes "collect_k8s_certificates cf h = Inr ks" "c \<in> set ks"
  shows "\<exists>p \<in> set (k8s_cert_patterns cf). ci_name c \<in> set (h_glob h p) \<and> k8s_cert h (ci_name c) = Inr (Some c)"
proof -
  obtain ys where ys: "rmap (k8s_cert h) (sort (remdups (concat (map (h_glob h) (k8s_cert_patterns cf))))) = Inr ys"
      "ks = List.map_filter id ys"
    using assms(1) by (auto simp: collect_k8s_certificates_def rbind_Inr_iff)
  then have "Some c \<in> set ys" using assms(2) by (auto simp: List.map_filter_def)
  then obtain f where f: "f \<in> set (concat (map (h_glob h) (k8s_cert_patterns cf)))" "k8s_cert h f = Inr (Some c)"
    using rmap_in [OF ys(1), of "Some c"] by auto
  have "ci_name c = f"
    using f(2) cert_expiry_keeps fold_cert_line_keeps
    by (fastforce simp: k8s_cert_def rbind_Inr_iff cert_blank_def split: prod.splits if_splits)
  then show ?thesis using f by auto
qed

lemma talos_cert_listed:
  assumes "collect_talos_certificates cf h = Inr ts" "x \<in> set (talos_cert_files cf h)" "talos_cert h x = Inr (Some t)"
  shows "t \<in> set ts"
proof -
  obtain ys where ys: "rmap (talos_cert h) (talos_cert_files cf h) = Inr ys" "ts = List.map_filter id ys"
    using assms(1) by (auto simp: collect_talos_certificates_def rbind_Inr_iff)
  obtain i where i: "i < length (talos_cert_files cf h)" "talos_cert_files cf h ! i = x"
    using assms(2) by (auto simp: in_set_conv_nth)
  have "ys ! i = Some t" using rmap_Inr_nth [OF ys(1) i(1)] i(2) assms(3) by simp
  then have "Some t \<in> set ys" using i(1) rmap_Inr_length [OF ys(1)] by (metis nth_mem)
  then show ?thesis unfolding ys(2) List.map_filter_def by force
qed

text \<open>The certificate of a file the endpoint leaves to the Talos collector is in that one's list.\<close>

lemma left_to_talos:
  assumes "cert_files_ok cf h" "collect_k8s_certificates cf h = Inr ks" "c \<in> set ks"
    "collect_talos_certificates cf h = Inr ts" "contains (ci_name c) ''/system/secrets/kubernetes/''"
  shows "\<exists>t \<in> set ts. ci_severity t = ci_severity c \<and> ci_days t = ci_days c"
proof -
  obtain p where p: "p \<in> set (k8s_cert_patterns cf)" "ci_name c \<in> set (h_glob h p)" "k8s_cert h (ci_name c) = Inr (Some c)"
    using k8s_cert_listed [OF assms(2,3)] by blast
  have "p \<notin> set (take 3 (k8s_cert_patterns cf))" using assms(1,5) p(2) unfolding cert_files_ok_def by blast
  then have "ci_name c \<in> set (h_glob h (HOST_ROOT cf @ ''/system/secrets/kubernetes/**/*.crt''))"
    using p(1,2) by (auto simp: k8s_cert_patterns_def)
  moreover have "snd (snd (h_run h (openssl_x509 (ci_name c)))) = 0"
    using p(3) by (auto simp: k8s_cert_def split: prod.splits if_splits)
  then have "h_isfile h (h_realpath h (ci_name c))" using assms(1) unfolding cert_files_ok_def by blast
  ultimately obtain dir g where g: "(dir, g) \<in> set (talos_cert_files cf h)" "h_realpath h g = h_realpath h (ci_name c)"
    using talos_covers by blast
  obtain t where t: "talos_cert h (dir, g) = Inr (Some t)" "ci_severity t = ci_severity c" "ci_days t = ci_days c"
    using same_file_same_grade [OF assms(1) p(3) g(2)] by blast
  show ?thesis using talos_cert_listed [OF assms(4) g(1) t(1)] t(2,3) by blast
qed

section \<open>Properties\<close>

definition certificate_warning :: "string \<Rightarrow> cert_info \<Rightarrow> string \<Rightarrow> node_warning" where
  "certificate_warning owner c file = warn (ci_severity c) ''certificate''
     (owner @ '' cert expires in '' @ int_text (ci_days c) @ ''d: '' @ file)"

lemma certificate_warnings:
  "ci_severity c \<noteq> SevOk \<Longrightarrow> \<not> (b \<and> contains (ci_name c) ''/system/secrets/kubernetes/'')
     \<Longrightarrow> certificate_warning ''K8s'' c (after_last CHR ''/'' (ci_name c)) \<in> set (k8s_cert_warnings b c)"
  "ci_severity c \<noteq> SevOk \<Longrightarrow> certificate_warning ''Talos'' c (ci_name c) \<in> set (talos_cert_warnings c)"
  by (simp_all add: k8s_cert_warnings_def talos_cert_warnings_def if_warn_def certificate_warning_def)

text \<open>
  C11: No certificate that is about to expire goes unreported between the two collectors. For
  every certificate the Kubernetes collector found and graded, the list has a warning of that
  severity with the days it has left: from the Kubernetes collector, or, when the file lies in the
  part of the PKI both scan and the Talos collector did not fail, from the Talos collector, also when that one
  read the file under another name.
\<close>

theorem expiring_certificate_warned:
  assumes "fst (get_warnings cf h clk s cs) = Inr ws" "cert_files_ok cf h"
    "src_k8s_certs s = collect_k8s_certificates cf h" "collect_k8s_certificates cf h = Inr ks"
    "src_talos_certs s = collect_talos_certificates cf h \<or> isl (src_talos_certs s)"
    "c \<in> set ks" "ci_severity c \<noteq> SevOk"
  shows "\<exists>owner file. certificate_warning owner c file \<in> set ws
    \<and> owner = (if \<not> isl (src_talos_certs s) \<and> contains (ci_name c) ''/system/secrets/kubernetes/'' then ''Talos'' else ''K8s'')"
proof -
  obtain m n where ws: "ws = warning_list cf h s m n" using get_warnings_list [OF assms(1)] by blast
  have k8s: "set (k8s_cert_warnings (\<not> isl (src_talos_certs s)) c) \<subseteq> set ws"
    using assms(3,4,6) unfolding ws warning_list_def by (auto simp: source_list_def)
  show ?thesis
  proof (cases "\<not> isl (src_talos_certs s) \<and> contains (ci_name c) ''/system/secrets/kubernetes/''")
    case True
    then obtain ts where ts: "collect_talos_certificates cf h = Inr ts" "src_talos_certs s = Inr ts"
      using assms(5) by (cases "src_talos_certs s"; cases "collect_talos_certificates cf h") auto
    obtain t where t: "t \<in> set ts" "ci_severity t = ci_severity c" "ci_days t = ci_days c"
      using left_to_talos [OF assms(2,4,6) ts(1)] True by blast
    have "certificate_warning ''Talos'' t (ci_name t) \<in> set ws"
      using certificate_warnings(2) [of t] t(1,2) assms(7) ts(2) unfolding ws warning_list_def by (auto simp: source_list_def)
    then have "certificate_warning ''Talos'' c (ci_name t) \<in> set ws" using t by (simp add: certificate_warning_def)
    then show ?thesis using True by auto
  next
    case False
    then show ?thesis using certificate_warnings(1) [OF assms(7) False] k8s by auto
  qed
qed

definition demo_pki_host :: host where
  "demo_pki_host = (cert_host 1706662801)\<lparr>
     h_glob := (\<lambda>p. if p = ''/host/system/secrets/kubernetes/**/*.crt'' then [''/host/system/secrets/kubernetes/ca.crt''] else []),
     h_isfile := (\<lambda>_. True)\<rparr>"

definition demo_pki_cert :: cert_info where
  "demo_pki_cert = demo_cert\<lparr>ci_name := ''/host/system/secrets/kubernetes/ca.crt''\<rparr>"

lemma demo_pki:
  "collect_k8s_certificates demo_config demo_pki_host = Inr [demo_pki_cert]"
  "collect_talos_certificates demo_config demo_pki_host = Inr [demo_cert\<lparr>ci_name := ''ca.crt''\<rparr>]"
  by code_simp+

lemma demo_pki_ok: "cert_files_ok demo_config demo_pki_host"
  by (simp add: cert_files_ok_def demo_pki_host_def cert_host_def k8s_cert_patterns_def demo_config_def)

definition demo_pki_sources :: sources where
  "demo_pki_sources = demo_sources\<lparr>src_k8s_certs := collect_k8s_certificates demo_config demo_pki_host,
     src_talos_certs := collect_talos_certificates demo_config demo_pki_host\<rparr>"

lemma demo_pki_warnings: "\<exists>ws. fst (get_warnings demo_config demo_pki_host (\<lambda>_. 0) demo_pki_sources []) = Inr ws"
proof -
  have "only_exceptions (named_sources demo_pki_sources)"
    unfolding demo_pki_sources_def demo_pki
    by (simp add: only_exceptions_def named_sources_def demo_sources_def is_exception_def)
  from gather_sections_result [OF this named_sources_distinct] show ?thesis
    by (simp add: get_warnings_def Let_def split: prod.splits)
qed

theorem expiring_certificate_warned_witness:
  "\<exists>ws file. fst (get_warnings demo_config demo_pki_host (\<lambda>_. 0) demo_pki_sources []) = Inr ws
     \<and> certificate_warning ''Talos'' demo_pki_cert file \<in> set ws"
proof -
  obtain ws where ws: "fst (get_warnings demo_config demo_pki_host (\<lambda>_. 0) demo_pki_sources []) = Inr ws"
    using demo_pki_warnings by blast
  have src: "src_k8s_certs demo_pki_sources = collect_k8s_certificates demo_config demo_pki_host"
    "src_talos_certs demo_pki_sources = collect_talos_certificates demo_config demo_pki_host"
    by (simp_all add: demo_pki_sources_def)
  have path: "contains (ci_name demo_pki_cert) ''/system/secrets/kubernetes/''" "ci_severity demo_pki_cert \<noteq> SevOk"
    by code_simp+
  show ?thesis
    using expiring_certificate_warned [OF ws demo_pki_ok src(1) demo_pki(1) disjI1 [OF src(2)], of demo_pki_cert] path ws src(2)
    by (auto simp: demo_pki)
qed

end
