(* ===== verification/Talos.thy ===== *)
theory Talos
  imports Kube
begin

text \<open>
  \<open>app/collectors/talos.py\<close> but for its certificates, which are in the theory \<open>Certs\<close>: the
  version and machine configuration as far as the host's files and the node object tell.
\<close>

section \<open>Version\<close>

definition node_object :: "kenv \<Rightarrow> pool \<Rightarrow> json option result \<times> pool \<times> request list" where
  "node_object ke st =
     (if node_name (ke_host ke) = [] then (Inr None, st, [])
      else k8s_get ke (''/api/v1/nodes/'' @ node_name (ke_host ke)) [] st)"

definition os_version :: "string \<Rightarrow> string" where
  "os_version os_release =
     (case List.find (\<lambda>l. startswith l ''VERSION_ID='') (splitlines os_release) of
        None \<Rightarrow> []
      | Some l \<Rightarrow> strip_chars (\<lambda>c. c = dquote) (strip (after_char CHR ''='' l)))"

text \<open>\<open>node and ...\<close>: an absent or empty node object gives nothing.\<close>

definition node_truthy :: "json option \<Rightarrow> bool" where
  "node_truthy n = (case n of None \<Rightarrow> False | Some v \<Rightarrow> truthy v)"

definition talos_version :: "pyd \<Rightarrow> config \<Rightarrow> host \<Rightarrow> json option \<Rightarrow> (string \<times> string) result" where
  "talos_version pd cf h node =
     (let version = os_version (read_file h (HOST_ROOT cf @ ''/etc/os-release'')) in
      if node_truthy node
      then rbind (jget (the node) ''metadata'' (JObj [])) (\<lambda>metadata.
           rbind (jget metadata ''annotations'' (JObj [])) (\<lambda>annotations.
           rbind (jget annotations ''extensions.talos.dev/schematic'' (JStr [])) (\<lambda>schematic.
           rbind (pd_str pd schematic) (\<lambda>s. Inr (version, s)))))
      else Inr (version, []))"

definition collect_talos_version :: "pyd \<Rightarrow> config \<Rightarrow> kenv \<Rightarrow> pool
    \<Rightarrow> (string \<times> string) result \<times> pool \<times> request list" where
  "collect_talos_version pd cf ke st = (case node_object ke st of (r, st1, rqs) \<Rightarrow>
     (rbind r (talos_version pd cf (ke_host ke)), st1, rqs))"

section \<open>The install disk\<close>

definition talos_partlabel :: "string \<Rightarrow> bool" where
  "talos_partlabel line =
     (startswith line ''PARTNAME='' \<and> strip (drop 9 line) \<in> {''META'', ''STATE''})"

definition parent_disk :: "host \<Rightarrow> string \<Rightarrow> string" where
  "parent_disk h path = after_last CHR ''/'' (before_last CHR ''/'' (h_realpath h path))"

definition disk_of_uevent :: "host \<Rightarrow> string \<Rightarrow> string option" where
  "disk_of_uevent h path =
     (case h_read h (path @ ''/uevent'') of
        None \<Rightarrow> None
      | Some uevent \<Rightarrow>
          if list_ex talos_partlabel (splitlines uevent) \<and> parent_disk h path \<noteq> []
             \<and> parent_disk h path \<noteq> ''block''
          then Some (''/dev/'' @ parent_disk h path) else None)"

fun first_some :: "('a \<Rightarrow> 'b option) \<Rightarrow> 'a list \<Rightarrow> 'b option" where
  "first_some f [] = None"
| "first_some f (x # xs) = (case f x of Some y \<Rightarrow> Some y | None \<Rightarrow> first_some f xs)"

definition install_disk_from_sysfs :: "config \<Rightarrow> host \<Rightarrow> string" where
  "install_disk_from_sysfs cf h =
     (let block_dir = HOST_SYS cf @ ''/class/block'' in
      case h_listdir h block_dir of
        None \<Rightarrow> []
      | Some names \<Rightarrow> opt_default []
          (first_some (\<lambda>name. disk_of_uevent h (block_dir @ ''/'' @ name)) (sort names)))"

definition root_from_cmdline :: "string \<Rightarrow> string" where
  "root_from_cmdline cmdline =
     (case List.find (\<lambda>p. startswith p ''root='') (split_ws cmdline) of
        None \<Rightarrow> [] | Some p \<Rightarrow> after_char CHR ''='' p)"

section \<open>Network interfaces\<close>

definition ip_addr_text :: "json \<Rightarrow> string option" where
  "ip_addr_text a = (case a of
     JObj m \<Rightarrow> (case (dget m ''local'', dget m ''prefixlen'') of
         (Some l, Some p) \<Rightarrow> Some (json_str l @ ''/'' @ json_str p) | _ \<Rightarrow> None)
   | _ \<Rightarrow> None)"

definition add_iface :: "json \<Rightarrow> (string, string list) dict \<Rightarrow> (string, string list) dict result" where
  "add_iface iface d = (case iface of
     JObj m \<Rightarrow>
       (let name = json_str (opt_default (JStr []) (dget m ''ifname''));
            d1 = dsetdefault name [] d in
        rbind (jiter (jor (opt_default (JList []) (dget m ''addr_info'')) (JList []))) (\<lambda>infos.
          Inr (dset name (dget_or d1 name [] @ List.map_filter ip_addr_text infos) d1)))
   | _ \<Rightarrow> Inr d)"

fun add_ifaces :: "json list \<Rightarrow> (string, string list) dict \<Rightarrow> (string, string list) dict result" where
  "add_ifaces [] d = Inr d"
| "add_ifaces (i # is) d = rbind (add_iface i d) (add_ifaces is)"

definition parse_ip_addr :: "string \<Rightarrow> (string, string list) dict result" where
  "parse_ip_addr stdout = (case json_loads stdout of
     Some (JList ifaces) \<Rightarrow> add_ifaces ifaces [] | _ \<Rightarrow> Inr [])"

definition skip_iface_prefixes :: "string list" where
  "skip_iface_prefixes = [''veth'', ''lxc'', ''cilium_'', ''cali'', ''cni'', ''flannel'',
     ''docker'', ''br-'', ''kube-ipvs'', ''tunl'', ''vxlan'', ''genev'']"

definition listed_iface :: "string \<Rightarrow> bool" where
  "listed_iface name = (name \<noteq> ''lo'' \<and> \<not> startswith_any name skip_iface_prefixes)"

record machine_config =
  mc_machine_type :: string
  mc_install_disk :: string
  mc_interfaces :: "(string \<times> string list) list"
  mc_extensions :: "string list"
  mc_available :: bool
  mc_error :: string

text \<open>\<open>s.replace(p, "")\<close> for a non-empty \<open>p\<close>; the counter skips the rest of an occurrence.\<close>

fun remove_all :: "string \<Rightarrow> nat \<Rightarrow> string \<Rightarrow> string" where
  "remove_all p k [] = []"
| "remove_all p (Suc k) (c # s) = remove_all p k s"
| "remove_all p 0 (c # s) =
     (if startswith (c # s) p then remove_all p (length p - 1) s else c # remove_all p 0 s)"

definition extension_text :: "string \<times> json \<Rightarrow> string option" where
  "extension_text kv = (case kv of (key, val) \<Rightarrow>
     if startswith key ''extensions.talos.dev/''
     then Some (remove_all ''extensions.talos.dev/'' 0 key @ '':'' @ json_str val) else None)"

text \<open>\<open>labels.items()\<close>\<close>

definition jitems :: "json \<Rightarrow> (string \<times> json) list result" where
  "jitems v = (case v of
     JObj m \<Rightarrow> Inr m
   | _ \<Rightarrow> Inl (Exn AttributeError ([squote] @ type_name v @ [squote] @ '' object has no attribute ''
             @ [squote] @ ''items'' @ [squote])))"

text \<open>The machine type and the extensions from the node object.\<close>

definition node_labels_info :: "json option \<Rightarrow> (string \<times> string list \<times> string) result" where
  "node_labels_info node =
     (if \<not> node_truthy node
      then Inr ([], [], ''Node object unavailable from the Kubernetes API'')
      else rbind (jget (the node) ''metadata'' (JObj [])) (\<lambda>metadata.
           rbind (jget metadata ''labels'' (JObj [])) (\<lambda>labels.
           rbind (jmem ''node-role.kubernetes.io/control-plane'' labels) (\<lambda>ctl.
           rbind (jitems labels) (\<lambda>items.
             Inr (if ctl then ''controlplane'' else ''worker'',
                  List.map_filter extension_text items, [])))))) "

definition machine_config_of :: "config \<Rightarrow> host \<Rightarrow> json option \<Rightarrow> machine_config result" where
  "machine_config_of cf h node =
     rbind (node_labels_info node) (\<lambda>(machine_type, extensions, error).
       (let sysfs = install_disk_from_sysfs cf h;
            disk = (if sysfs = [] then root_from_cmdline (read_file h (HOST_PROC cf @ ''/cmdline'')) else sysfs);
            names = opt_default [] (h_listdir h (HOST_SYS cf @ ''/class/net/''))
        in case h_run h [''ip'', ''-j'', ''addr'', ''show''] of (stdout, _, rc) \<Rightarrow>
          rbind (if rc = 0 \<and> strip stdout \<noteq> [] then parse_ip_addr stdout else Inr []) (\<lambda>addresses.
            Inr \<lparr>mc_machine_type = machine_type, mc_install_disk = disk,
              mc_interfaces = map (\<lambda>n. (n, dget_or addresses n [])) (filter listed_iface (sort names)),
              mc_extensions = extensions, mc_available = node_truthy node, mc_error = error\<rparr>)))"

definition collect_talos_machine_config :: "config \<Rightarrow> kenv \<Rightarrow> pool
    \<Rightarrow> machine_config result \<times> pool \<times> request list" where
  "collect_talos_machine_config cf ke st = (case node_object ke st of (r, st1, rqs) \<Rightarrow>
     (rbind r (machine_config_of cf (ke_host ke)), st1, rqs))"

section \<open>Lemmas\<close>

lemma add_iface_dict: "JObj m = iface \<Longrightarrow> dget m ''addr_info'' = Some (JList xs) \<Longrightarrow> \<exists>d'. add_iface iface d = Inr d'"
  by (auto simp: add_iface_def jor_def Let_def)

lemma machine_type_cases:
  "node_labels_info node = Inr (t, ext, err) \<Longrightarrow>
     (node_truthy node \<and> err = [] \<and> t \<in> {''controlplane'', ''worker''}) \<or> (\<not> node_truthy node \<and> t = [] \<and> err \<noteq> [])"
  by (auto simp: node_labels_info_def rbind_Inr_iff split: if_splits)

lemma machine_config_fields:
  assumes "machine_config_of cf h node = Inr mc"
  shows "map fst (mc_interfaces mc) = filter listed_iface (sort (opt_default [] (h_listdir h (HOST_SYS cf @ ''/class/net/''))))
    \<and> mc_available mc = node_truthy node
    \<and> (\<exists>ext err. node_labels_info node = Inr (mc_machine_type mc, ext, err))"
proof -
  obtain t ext err where l: "node_labels_info node = Inr (t, ext, err)"
    using assms by (auto simp: machine_config_of_def rbind_Inr_iff)
  then show ?thesis
    using assms by (auto simp: machine_config_of_def rbind_Inr_iff Let_def comp_def split: prod.splits)
qed

section \<open>Properties\<close>

text \<open>
  The machine configuration lists every network device of the node but the loopback and
  the devices of container networks, once and in order of name, and leaves the machine type open
  exactly when the node object could not be had.
\<close>

theorem machine_config_sound:
  assumes "machine_config_of cf h node = Inr mc" "h_listdir h (HOST_SYS cf @ ''/class/net/'') = Some names"
  shows "sorted (map fst (mc_interfaces mc)) \<and>
    mset (map fst (mc_interfaces mc)) = filter_mset listed_iface (mset names) \<and>
    (mc_machine_type mc = [] \<longleftrightarrow> \<not> mc_available mc)"
proof -
  obtain ext err where l: "node_labels_info node = Inr (mc_machine_type mc, ext, err)"
    using machine_config_fields [OF assms(1)] by blast
  show ?thesis
    using machine_config_fields [OF assms(1)] machine_type_cases [OF l] assms(2) by (auto simp: sorted_wrt_filter mset_filter)
qed

definition talos_host :: host where
  "talos_host = null_host\<lparr>h_listdir := (\<lambda>p. if p = ''/sys/class/net/''
     then Some [''lxc12'', ''lo'', ''eth1'', ''eth0''] else None)\<rparr>"

lemma demo_machine_config:
  "machine_config_of demo_config talos_host None = Inr \<lparr>mc_machine_type = [], mc_install_disk = [],
     mc_interfaces = [(''eth0'', []), (''eth1'', [])], mc_extensions = [], mc_available = False,
     mc_error = ''Node object unavailable from the Kubernetes API''\<rparr>"
  by code_simp

theorem machine_config_sound_witness:
  "mset [''eth0'', ''eth1''] = filter_mset listed_iface {#''lxc12'', ''lo'', ''eth1'', ''eth0''#}"
  using machine_config_sound [OF demo_machine_config, of "[''lxc12'', ''lo'', ''eth1'', ''eth0'']"]
  by (simp add: demo_config_def talos_host_def)

end
