(* ===== verification/Aggregates.thy ===== *)
theory Aggregates
  imports Smart Mounts Certs Talos Network
begin

text \<open>
  The collectors that gather others: \<open>collect_storage\<close>, \<open>collect_kubernetes\<close> and
  \<open>collect_talos\<close>. The gathered coroutines share the pool of HTTP clients; the model runs them in
  the order of the arguments, and of several exceptions the first in that order is raised. The
  lemmas carry the safety of the token over to everything they send.
\<close>

section \<open>Storage\<close>

record storage_overview =
  so_disks :: "disk list"
  so_smart :: "smart_health list"
  so_usage :: "disk_usage list"

definition collect_storage :: "pyd \<Rightarrow> config \<Rightarrow> host \<Rightarrow> storage_overview result" where
  "collect_storage pd cf h =
     rbind (collect_disks pd h) (\<lambda>disks. rbind (collect_all_smart pd cf h) (\<lambda>smart.
     rbind (collect_disk_usage cf h) (\<lambda>usage.
       Inr \<lparr>so_disks = disks, so_smart = smart, so_usage = usage\<rparr>)))"

section \<open>Calls over the pool\<close>

type_synonym 'a call = "pool \<Rightarrow> 'a result \<times> pool \<times> request list"

text \<open>Two gathered calls: both are made, whatever becomes of the first.\<close>

definition both :: "'a call \<Rightarrow> 'b call \<Rightarrow> ('a \<times> 'b) call" where
  "both f g st = (case f st of (a, st1, rqs1) \<Rightarrow> case g st1 of (b, st2, rqs2) \<Rightarrow>
     (rbind a (\<lambda>x. rbind b (\<lambda>y. Inr (x, y))), st2, rqs1 @ rqs2))"

definition call_map :: "('a \<Rightarrow> 'b result) \<Rightarrow> 'a call \<Rightarrow> 'b call" where
  "call_map k f st = (case f st of (a, st1, rqs) \<Rightarrow> (rbind a k, st1, rqs))"

definition local_call :: "'a result \<Rightarrow> 'a call" where
  "local_call r st = (r, st, [])"

section \<open>Kubernetes\<close>

record ssh_info =
  ssh_enabled :: bool
  ssh_port :: int
  ssh_password :: bool

record kubernetes_overview =
  ko_node :: node_info
  ko_certificates :: "cert_info list"
  ko_endpoint :: "string \<times> bool"
  ko_components :: "component list"
  ko_nodes :: "cluster_node list"
  ko_ssh :: ssh_info

definition collect_kubernetes :: "pyd \<Rightarrow> config \<Rightarrow> kenv \<Rightarrow> kubernetes_overview call" where
  "collect_kubernetes pd cf ke =
     call_map (\<lambda>(node, certs, endpoint, comps, nodes).
         Inr \<lparr>ko_node = node, ko_certificates = certs, ko_endpoint = endpoint, ko_components = comps,
           ko_nodes = nodes, ko_ssh = \<lparr>ssh_enabled = SSH_ENABLED cf, ssh_port = SSH_PORT cf,
             ssh_password = SSH_PASSWORD_AUTH cf\<rparr>\<rparr>)
       (both (collect_k8s_node_info pd ke)
       (both (local_call (collect_k8s_certificates cf (ke_host ke)))
       (both (collect_k8s_api_endpoint ke)
       (both (collect_k8s_components cf ke) (collect_cluster_nodes pd ke)))))"

section \<open>Talos\<close>

record talos_overview =
  to_version :: "string \<times> string"
  to_config :: machine_config
  to_certificates :: "cert_info list"

text \<open>The version and the machine configuration both want the node object. It is cached, briefly
  even when there is none, so gathered they share one answer of the API server.\<close>

definition collect_talos :: "pyd \<Rightarrow> config \<Rightarrow> kenv \<Rightarrow> talos_overview call" where
  "collect_talos pd cf ke st = (case node_object ke st of (r, st1, rqs) \<Rightarrow>
     (rbind (rbind r (talos_version pd cf (ke_host ke))) (\<lambda>version.
      rbind (rbind r (machine_config_of cf (ke_host ke))) (\<lambda>mc.
      rbind (collect_talos_certificates cf (ke_host ke)) (\<lambda>certs.
        Inr \<lparr>to_version = version, to_config = mc, to_certificates = certs\<rparr>))), st1, rqs))"

section \<open>What the aggregates send\<close>

text \<open>A call is safe when it keeps the pool in order and sends the token only to the cluster.\<close>

definition safe_call :: "config \<Rightarrow> 'a call \<Rightarrow> bool" where
  "safe_call cf f = (\<forall>st. pool_ok cf st \<longrightarrow> pool_ok cf (fst (snd (f st))) \<and> safe_trace (snd (snd (f st))))"

lemma safe_trace_append [simp]: "safe_trace (a @ b) \<longleftrightarrow> safe_trace a \<and> safe_trace b"
  by (auto simp: safe_trace_def)

lemma safe_callI: "(\<And>st r st' rqs. pool_ok cf st \<Longrightarrow> f st = (r, st', rqs) \<Longrightarrow> pool_ok cf st' \<and> safe_trace rqs)
    \<Longrightarrow> safe_call cf f"
  by (simp add: safe_call_def) (metis prod.collapse)

lemma safe_both: "safe_call cf f \<Longrightarrow> safe_call cf g \<Longrightarrow> safe_call cf (both f g)"
  by (simp add: safe_call_def both_def prod.case_eq_if)

lemma safe_call_map: "safe_call cf f \<Longrightarrow> safe_call cf (call_map k f)"
  by (simp add: safe_call_def call_map_def prod.case_eq_if)

lemma safe_local: "safe_call cf (local_call r)"
  by (simp add: safe_call_def local_call_def)

lemma safe_k8s_get: "safe_call cf (k8s_get ke path params)"
proof (rule safe_callI)
  fix st r st' rqs
  assume "pool_ok cf st" "k8s_get ke path params st = (r, st', rqs)"
  then show "pool_ok cf st' \<and> safe_trace rqs"
    using k8s_get_safe [of cf st ke path params] pool_ok_ops(1) [of cf st "ke_tls ke"]
    by (auto simp: k8s_get_def Let_def split: prod.splits option.splits if_splits)
qed

lemma safe_node_info: "safe_call cf (collect_k8s_node_info pd ke)"
  using safe_k8s_get [of cf ke "''/api/v1/nodes/'' @ node_name (ke_host ke)" "[]"]
  by (auto simp: safe_call_def collect_k8s_node_info_def prod.case_eq_if)

lemma safe_cluster_nodes: "safe_call cf (collect_cluster_nodes pd ke)"
  using safe_k8s_get [of cf ke "''/api/v1/nodes''" "[(''resourceVersion'', ''0'')]"]
  by (simp add: safe_call_def collect_cluster_nodes_def prod.case_eq_if)

lemma safe_node_object: "safe_call cf (node_object ke)"
  using safe_k8s_get [of cf ke "''/api/v1/nodes/'' @ node_name (ke_host ke)" "[]"]
  by (simp add: safe_call_def node_object_def)

lemma safe_endpoint: "safe_call cf (collect_k8s_api_endpoint ke)"
proof (rule safe_callI)
  fix st r st' rqs
  assume "pool_ok cf st" "collect_k8s_api_endpoint ke st = (r, st', rqs)"
  moreover have "insecure_client s = (i, s') \<Longrightarrow> pool_ok cf s \<Longrightarrow> pool_ok cf s'" for s i s'
    using pool_ok_ops(4) [of cf s] by simp
  ultimately show "pool_ok cf st' \<and> safe_trace rqs"
    using api_endpoint_safe [of cf st ke] pool_ok_ops(1) [of cf st "ke_tls ke"]
    by (auto simp: collect_k8s_api_endpoint_def Let_def split: prod.splits option.splits if_splits)
qed

lemma safe_components: "safe_call cf (collect_k8s_components cf ke)"
proof (rule safe_callI)
  fix st r st' rqs
  assume a: "pool_ok cf st" "collect_k8s_components cf ke st = (r, st', rqs)"
  then show "pool_ok cf st' \<and> safe_trace rqs"
    using probe_all_safe [OF a(1), of ke "read_service_account_token (ke_host ke)" components]
    by (cases "probe_all cf ke (read_service_account_token (ke_host ke)) components st")
      (auto simp: collect_k8s_components_def split: if_splits)
qed

lemmas safe_calls = safe_both safe_call_map safe_local safe_node_info safe_cluster_nodes safe_endpoint safe_components

lemma safe_kubernetes: "safe_call cf (collect_kubernetes pd cf ke)"
  unfolding collect_kubernetes_def by (intro safe_calls)

lemma safe_talos: "safe_call cf (collect_talos pd cf ke)"
  using safe_node_object [of cf ke] by (simp add: safe_call_def collect_talos_def prod.case_eq_if)

text \<open>
  C22: The service account token stays with the cluster in everything the dashboard sends: in the
  Kubernetes and Talos overviews and in the connectivity check, whatever the pool of clients went
  through before and whatever the servers answer, a request that carries a header goes out on a client pinned
  to the cluster CA.
\<close>

theorem aggregates_token_safe:
  assumes "rqs \<in> {snd (snd (collect_kubernetes pd cf ke (pool_run cf evs))),
      snd (snd (collect_talos pd cf ke (pool_run cf evs))),
      snd (snd (collect_connectivity cf ke (pool_run cf evs)))}"
    "rq \<in> set rqs" "rq_headers rq \<noteq> []"
  shows "cluster_ca (rq_verify rq)"
  using assms safe_kubernetes [of cf pd ke] safe_talos [of cf pd ke] pool_run_ok [of cf evs]
    connectivity_safe [OF pool_run_ok [of cf evs]]
  unfolding safe_call_def safe_trace_def by blast

theorem aggregates_token_safe_witness:
  "\<exists>rq. rq \<in> set (snd (snd (collect_connectivity demo_config demo_cluster_kenv (pool_run demo_config []))))
     \<and> rq_headers rq = [(''Authorization'', ''Bearer tok'')] \<and> cluster_ca (rq_verify rq)"
proof -
  let ?rqs = "snd (snd (collect_connectivity demo_config demo_cluster_kenv (pool_run demo_config [])))"
  have "[(''Authorization'', ''Bearer tok'')] \<in> rq_headers ` set ?rqs"
    using arg_cong [OF demo_connectivity, of "\<lambda>xs. snd ` set xs"] by (simp add: image_image)
  then obtain rq where rq: "rq \<in> set ?rqs" "rq_headers rq = [(''Authorization'', ''Bearer tok'')]" by auto
  then show ?thesis
    using aggregates_token_safe [of ?rqs strict_pyd demo_config demo_cluster_kenv "[]" rq] by auto
qed

end
