(* ===== verification/Outage.thy ===== *)
theory Outage
  imports Cache Aggregates
begin

text \<open>
  The caches of the collectors that ask the API server: their decorators say when a result is
  degraded. Together with the collectors the lemmas show that what was collected while the API
  server could not be reached is gone from the caches after ten seconds.
\<close>

section \<open>The decorators\<close>

definition api_cache :: "rat \<Rightarrow> ('v \<Rightarrow> bool) \<Rightarrow> 'v cparams" where
  "api_cache seconds cache_if = \<lparr>p_seconds = seconds, p_maxsize = 64, p_cache_if = cache_if, p_retry_after = 10\<rparr>"

definition node_object_cache :: "json option cparams" where
  "node_object_cache = api_cache 300 (\<lambda>node. node \<noteq> None)"

definition machine_config_cache :: "machine_config cparams" where
  "machine_config_cache = api_cache 300 mc_available"

definition talos_cache :: "talos_overview cparams" where
  "talos_cache = api_cache 300 (\<lambda>o'. mc_available (to_config o'))"

definition node_info_cache :: "node_info cparams" where
  "node_info_cache = api_cache 60 (\<lambda>info. ni_kubelet info \<noteq> [])"

definition cluster_nodes_cache :: "cluster_node list cparams" where
  "cluster_nodes_cache = api_cache 60 (\<lambda>nodes. nodes \<noteq> [])"

section \<open>Served from the cache\<close>

text \<open>A step ends a call with a value that it has not computed itself.\<close>

definition served :: "'v cparams \<Rightarrow> 'v cstate \<Rightarrow> 'v cstate \<Rightarrow> nat \<Rightarrow> 'v \<Rightarrow> bool" where
  "served p st st' t v = (creach p (\<lambda>_. True) st \<and> c_pc st t \<noteq> Some (Finished (Returned v))
     \<and> c_pc st' t = Some (Finished (Returned v)) \<and> (\<exists>ev. cstep p ev st st' \<and> ev \<noteq> Returns t v))"

text \<open>Each value comes from a computation whose time the log knows.\<close>

definition computed_within :: "rat \<Rightarrow> 'v cstate \<Rightarrow> 'v \<Rightarrow> bool" where
  "computed_within seconds st v = (\<exists>key t0. (key, v, t0) \<in> set (c_log st) \<and> c_now st < t0 + seconds)"

lemma entry_answer:
  assumes "served p st st' t v"
  shows "computed_within (entry_ttl p v) st' v"
proof -
  obtain ev where "cstep p ev st st'" "ev \<noteq> Returns t v" using assms by (auto simp: served_def)
  then show ?thesis
    using call_answer [of p "\<lambda>_. True" st ev st' t v] assms unfolding served_def computed_within_def by blast
qed

lemma degraded_answer:
  assumes "served p st st' t v" "\<not> p_cache_if p v" "p_retry_after p = 10" "10 \<le> p_seconds p"
  shows "computed_within 10 st' v"
  using entry_answer [OF assms(1)] assms(2-4) by (simp add: entry_ttl_def)

section \<open>What a collector returns during an outage\<close>

lemma no_node_falsy [simp]: "\<not> node_truthy None"
  by (simp add: node_truthy_def)

lemma talos_without_node:
  assumes "fst (collect_talos pd cf ke pl) = Inr ov" "fst (node_object ke pl) = Inr None"
  shows "\<not> mc_available (to_config ov)"
proof -
  obtain st rqs where "node_object ke pl = (Inr None, st, rqs)" using assms(2) by (metis prod.collapse)
  then show ?thesis using assms(1) machine_config_fields by (fastforce simp: collect_talos_def rbind_Inr_iff)
qed

lemma machine_config_without_node:
  assumes "fst (collect_talos_machine_config cf ke pl) = Inr mc" "fst (node_object ke pl) = Inr None"
  shows "\<not> mc_available mc"
proof -
  obtain st rqs where "node_object ke pl = (Inr None, st, rqs)" using assms(2) by (metis prod.collapse)
  then show ?thesis using assms(1) machine_config_fields by (fastforce simp: collect_talos_machine_config_def)
qed

lemma node_info_without_answer:
  assumes "fst (collect_k8s_node_info pd ke pl) = Inr info" "fst (node_object ke pl) = Inr None"
  shows "ni_kubelet info = []"
  using assms by (auto simp: collect_k8s_node_info_def node_object_def no_node_info_def split: prod.splits if_splits)

lemma cluster_nodes_without_answer:
  assumes "fst (collect_cluster_nodes pd ke pl) = Inr nodes"
    "fst (k8s_get ke ''/api/v1/nodes'' [(''resourceVersion'', ''0'')] pl) = Inr None"
  shows "nodes = []"
  using assms by (auto simp: collect_cluster_nodes_def split: prod.splits)

section \<open>Properties\<close>

text \<open>A result no caller is handed from the cache when it is ten seconds old.\<close>

definition short_lived :: "'v cparams \<Rightarrow> 'v \<Rightarrow> bool" where
  "short_lived p v = (\<forall>st st' t. served p st st' t v \<longrightarrow> computed_within 10 st' v)"

lemma degraded_short_lived:
  "\<not> p_cache_if p v \<Longrightarrow> p_retry_after p = 10 \<Longrightarrow> 10 \<le> p_seconds p \<Longrightarrow> short_lived p v"
  by (auto simp: short_lived_def intro: degraded_answer)

lemma short_livedD: "short_lived p v \<Longrightarrow> served p st st' t v \<Longrightarrow> computed_within 10 st' v"
  unfolding short_lived_def by blast


text \<open>One caller computes a result, and the next one gets it.\<close>

definition after_one_call :: "'v cparams \<Rightarrow> 'v \<Rightarrow> 'v cstate" where
  "after_one_call p v = func_returns p 0 ''a'' 0 v (call_wrapper 0 ''a'' cinit)"

lemma second_call_served:
  assumes "0 < entry_ttl p v" "0 < p_maxsize p"
  shows "served p (after_one_call p v) (call_wrapper 1 ''a'' (after_one_call p v)) 1 v"
proof -
  let ?st = "call_wrapper 0 ''a'' (cinit :: 'a cstate)" and ?st' = "after_one_call p v"
  have running: "c_pc ?st 0 = Some (Running ''a'' 0 0)" "c_pc ?st 1 = None"
    by (simp_all add: cache_ops fresh_def shared_failure_def cinit_def)
  have reach: "creach p (\<lambda>_. True) ?st" by (intro creach_call creach.init) (simp_all add: cinit_def)
  then have reach': "creach p (\<lambda>_. True) ?st'"
    unfolding after_one_call_def by (rule creach_returns [OF _ running(1)]) simp
  have pc: "c_pc ?st' 1 = None" using running(2) by (simp add: after_one_call_def func_returns_def finish_def release_def)
  have "c_cache ?st' = [(''a'', v, entry_ttl p v)]" "c_now ?st' = 0"
    using assms(2) by (simp_all add: dpop_def after_one_call_def cache_ops fresh_def shared_failure_def cinit_def)
  then have "fresh ?st' ''a'' = Some v" using assms(1) by (simp add: fresh_def dget_def)
  then have "call_wrapper 1 ''a'' ?st' = finish 1 (Returned v) ?st'" by (simp add: call_wrapper_def)
  then have "c_pc (call_wrapper 1 ''a'' ?st') 1 = Some (Finished (Returned v))" by (simp add: finish_def)
  moreover have "cstep p (Call 1 ''a'') ?st' (call_wrapper 1 ''a'' ?st')" by (rule cstep.call [where st = ?st', OF pc])
  ultimately show ?thesis using reach' pc unfolding served_def by (intro conjI exI [of _ "Call 1 ''a''"]) simp_all
qed

text \<open>A pod whose service account has no token, on a host without anything.\<close>

definition outage_kenv :: kenv where
  "outage_kenv = demo_kenv\<lparr>ke_host := null_host\<rparr>"

definition outage_config :: machine_config where
  "outage_config = \<lparr>mc_machine_type = [], mc_install_disk = [], mc_interfaces = [], mc_extensions = [],
     mc_available = False, mc_error = ''Node object unavailable from the Kubernetes API''\<rparr>"

lemma outage_results:
  "fst (node_object outage_kenv (pool_run demo_config [])) = Inr None"
  "fst (collect_talos strict_pyd demo_config outage_kenv (pool_run demo_config [])) = Inr
     \<lparr>to_version = ([], []), to_config = outage_config, to_certificates = []\<rparr>"
  "fst (collect_talos_machine_config demo_config outage_kenv (pool_run demo_config [])) = Inr outage_config"
  "fst (collect_k8s_node_info strict_pyd outage_kenv (pool_run demo_config [])) = Inr no_node_info"
  "fst (k8s_get outage_kenv ''/api/v1/nodes'' [(''resourceVersion'', ''0'')] (pool_run demo_config [])) = Inr None"
  "fst (collect_cluster_nodes strict_pyd outage_kenv (pool_run demo_config [])) = Inr []"
  by code_simp+


end
