(* ===== verification/Codec.thy ===== *)
theory Codec
  imports PyStr
begin

text \<open>
  The two codecs of the standard library the authentication rests on. A \<open>bytes\<close> value is a
  list of integers below 256, a \<open>str\<close> that may leave the Latin-1 range a list of code points.
  \<open>utf8_encode\<close> and \<open>utf8_decode\<close> are the strict codec \<open>"utf-8"\<close>; \<open>b64decode\<close> is
  \<open>base64.b64decode\<close> of a text, which skips the characters outside its alphabet;
  \<open>b64encode\<close> is what a client applies to its credentials.
\<close>

type_synonym bytes = "int list"
type_synonym code_points = "int list"

text \<open>The code points of a Latin-1 text, which are also the bytes it was decoded from.\<close>

definition ints :: "string \<Rightarrow> int list" where
  "ints s = map (\<lambda>c. int (cp c)) s"

text \<open>What an encoder and its decoder promise together.\<close>

locale codec =
  fixes enc :: "'a \<Rightarrow> 'b" and dec :: "'b \<Rightarrow> 'a option" and valid :: "'a \<Rightarrow> bool"
  assumes dec_enc: "valid x \<Longrightarrow> dec (enc x) = Some x"
begin

lemma enc_inject: "valid x \<Longrightarrow> valid y \<Longrightarrow> enc x = enc y \<longleftrightarrow> x = y"
  using dec_enc by (metis option.inject)

lemma dec_enc_eq: "valid x \<Longrightarrow> dec (enc x) = Some y \<longleftrightarrow> x = y"
  by (simp add: dec_enc)

end

text \<open>Two codecs one after the other.\<close>

locale codec_pair = a: codec enc1 dec1 valid1 + b: codec enc2 dec2 valid2
  for enc1 :: "'a \<Rightarrow> 'b" and dec1 valid1 and enc2 :: "'b \<Rightarrow> 'c" and dec2 valid2 +
  assumes enc_valid: "valid1 x \<Longrightarrow> valid2 (enc1 x)"
begin

lemma dec_enc2: "valid1 x \<Longrightarrow> Option.bind (dec2 (enc2 (enc1 x))) dec1 = Some x"
  by (simp add: a.dec_enc b.dec_enc enc_valid)

end

section \<open>UTF-8\<close>

definition is_surrogate :: "int \<Rightarrow> bool" where
  "is_surrogate u = (0xD800 \<le> u \<and> u \<le> 0xDFFF)"

definition scalar :: "int \<Rightarrow> bool" where
  "scalar u = (0 \<le> u \<and> u < 0x110000 \<and> \<not> is_surrogate u)"

definition utf8_char :: "int \<Rightarrow> bytes" where
  "utf8_char u =
     (if u < 0x80 then [u]
      else if u < 0x800 then [0xC0 + u div 0x40, 0x80 + u mod 0x40]
      else if u < 0x10000 then
        [0xE0 + u div 0x1000, 0x80 + u div 0x40 mod 0x40, 0x80 + u mod 0x40]
      else
        [0xF0 + u div 0x40000, 0x80 + u div 0x1000 mod 0x40, 0x80 + u div 0x40 mod 0x40,
         0x80 + u mod 0x40])"

definition utf8_bytes :: "code_points \<Rightarrow> bytes" where
  "utf8_bytes s = concat (map utf8_char s)"

text \<open>\<open>s.encode("utf-8")\<close>: a lone surrogate cannot be encoded.\<close>

definition utf8_encode :: "code_points \<Rightarrow> bytes result" where
  "utf8_encode s =
     (if list_ex is_surrogate s then Inl (Exn UnicodeEncodeError ''surrogates not allowed'')
      else Inr (utf8_bytes s))"

definition is_cont :: "int \<Rightarrow> bool" where
  "is_cont b = (0x80 \<le> b \<and> b < 0xC0)"

text \<open>\<open>b.decode("utf-8")\<close>; None is the UnicodeDecodeError. Overlong forms, surrogates and
  code points past U+10FFFF are refused.\<close>

fun utf8_decode :: "bytes \<Rightarrow> code_points option" where
  "utf8_decode [] = Some []"
| "utf8_decode (a # bs) =
     (if a < 0x80 then map_option (\<lambda>r. a # r) (utf8_decode bs)
      else (case bs of
          [] \<Rightarrow> None
        | b # cs \<Rightarrow>
          if \<not> is_cont b then None
          else if a < 0xC2 then None
          else if a < 0xE0 then
            map_option (\<lambda>r. ((a - 0xC0) * 0x40 + (b - 0x80)) # r) (utf8_decode cs)
          else (case cs of
              [] \<Rightarrow> None
            | c # ds \<Rightarrow>
              if \<not> is_cont c then None
              else if a < 0xF0 then
                (let u = (a - 0xE0) * 0x1000 + (b - 0x80) * 0x40 + (c - 0x80) in
                 if u < 0x800 \<or> is_surrogate u then None
                 else map_option (\<lambda>r. u # r) (utf8_decode ds))
              else (case ds of
                  [] \<Rightarrow> None
                | d # es \<Rightarrow>
                  if \<not> is_cont d \<or> 0xF4 < a then None
                  else
                    (let u = (a - 0xF0) * 0x40000 + (b - 0x80) * 0x1000 + (c - 0x80) * 0x40
                          + (d - 0x80) in
                     if u < 0x10000 \<or> 0x110000 \<le> u then None
                     else map_option (\<lambda>r. u # r) (utf8_decode es))))))"

lemma sextets:
  "(u :: int) div 0x1000 * 0x1000 + u div 0x40 mod 0x40 * 0x40 + u mod 0x40 = u"
  "u div 0x40000 * 0x40000 + u div 0x1000 mod 0x40 * 0x1000 + u div 0x40 mod 0x40 * 0x40
     + u mod 0x40 = u"
proof -
  have s: "u div 0x1000 = u div 0x40 div 0x40" "u div 0x40000 = u div 0x1000 div 0x40"
    using zdiv_zmult2_eq [of 64 u 64] zdiv_zmult2_eq [of 64 u 4096] by simp_all
  have e: "x div 0x40 * 0x40 + x mod 0x40 = x" for x :: int by simp
  show "u div 0x1000 * 0x1000 + u div 0x40 mod 0x40 * 0x40 + u mod 0x40 = u"
    using e [of u] e [of "u div 0x40"] unfolding s(1) by linarith
  then show "u div 0x40000 * 0x40000 + u div 0x1000 mod 0x40 * 0x1000 + u div 0x40 mod 0x40 * 0x40
     + u mod 0x40 = u"
    using e [of "u div 0x1000"] unfolding s(2) by linarith
qed

lemma utf8_decode_2:
  assumes "2 \<le> x" "x < 0x20" "0 \<le> y" "y < 0x40"
  shows "utf8_decode ((0xC0 + x) # (0x80 + y) # bs)
    = map_option (\<lambda>r. (x * 0x40 + y) # r) (utf8_decode bs)"
  using assms by (simp add: is_cont_def)

lemma utf8_decode_3:
  assumes "0 \<le> x" "x < 0x10" "0 \<le> y" "y < 0x40" "0 \<le> z" "z < 0x40"
    "u = x * 0x1000 + y * 0x40 + z" "0x800 \<le> u" "\<not> is_surrogate u"
  shows "utf8_decode ((0xE0 + x) # (0x80 + y) # (0x80 + z) # bs)
    = map_option (\<lambda>r. u # r) (utf8_decode bs)"
  using assms by (simp add: is_cont_def Let_def)

lemma utf8_decode_4:
  assumes "0 \<le> w" "w \<le> 4" "0 \<le> x" "x < 0x40" "0 \<le> y" "y < 0x40" "0 \<le> z" "z < 0x40"
    "u = w * 0x40000 + x * 0x1000 + y * 0x40 + z" "0x10000 \<le> u" "u < 0x110000"
  shows "utf8_decode ((0xF0 + w) # (0x80 + x) # (0x80 + y) # (0x80 + z) # bs)
    = map_option (\<lambda>r. u # r) (utf8_decode bs)"
  using assms by (simp add: is_cont_def Let_def)

lemma utf8_decode_char:
  assumes "scalar u"
  shows "utf8_decode (utf8_char u @ bs) = map_option (\<lambda>r. u # r) (utf8_decode bs)"
proof -
  have m: "0 \<le> x mod 0x40 \<and> x mod 0x40 < 0x40" for x :: int by simp
  consider "u < 0x80" | "0x80 \<le> u" "u < 0x800" | "0x800 \<le> u" "u < 0x10000" | "0x10000 \<le> u"
    by linarith
  then show ?thesis
  proof cases
    case 1
    then show ?thesis by (simp add: utf8_char_def)
  next
    case 2
    then have "2 \<le> u div 0x40" "u div 0x40 < 0x20" by linarith+
    then show ?thesis
      using 2 m [of u] utf8_decode_2 [of "u div 0x40" "u mod 0x40"]
      by (simp add: utf8_char_def del: utf8_decode.simps)
  next
    case 3
    then have "0 \<le> u div 0x1000" "u div 0x1000 < 0x10" by linarith+
    then show ?thesis
      using 3 assms m [of u] m [of "u div 0x40"]
        utf8_decode_3 [OF _ _ _ _ _ _ sextets(1) [of u, symmetric]]
      by (simp add: utf8_char_def scalar_def del: utf8_decode.simps)
  next
    case 4
    then have "0 \<le> u div 0x40000" "u div 0x40000 \<le> 4"
      using assms unfolding scalar_def by linarith+
    then show ?thesis
      using 4 assms m [of u] m [of "u div 0x40"] m [of "u div 0x1000"]
        utf8_decode_4 [OF _ _ _ _ _ _ _ _ sextets(2) [of u, symmetric]]
      by (simp add: utf8_char_def scalar_def del: utf8_decode.simps)
  qed
qed

lemma utf8_roundtrip: "list_all scalar s \<Longrightarrow> utf8_decode (utf8_bytes s) = Some s"
  by (induction s) (simp_all add: utf8_bytes_def utf8_decode_char)

definition byte :: "int \<Rightarrow> bool" where
  "byte b = (0 \<le> b \<and> b < 256)"

lemma utf8_bytes_are_bytes: "list_all scalar s \<Longrightarrow> list_all byte (utf8_bytes s)"
proof (induction s)
  case (Cons u s)
  have "list_all byte (utf8_char u)"
    using Cons.prems by (auto simp: utf8_char_def byte_def scalar_def)
  then show ?case using Cons by (simp add: utf8_bytes_def)
qed (simp add: utf8_bytes_def)

interpretation utf8: codec utf8_bytes utf8_decode "list_all scalar"
  by unfold_locales (rule utf8_roundtrip)

lemma utf8_bytes_append: "utf8_bytes (s @ t) = utf8_bytes s @ utf8_bytes t"
  by (simp add: utf8_bytes_def)

lemma utf8_bytes_ascii: "\<forall>u \<in> set s. u < 0x80 \<Longrightarrow> utf8_bytes s = s"
  by (induction s) (simp_all add: utf8_bytes_def utf8_char_def)

section \<open>Base64\<close>

definition b64_char :: "int \<Rightarrow> char" where
  "b64_char v = char_of (nat (if v < 26 then v + 65 else if v < 52 then v + 71
     else if v < 62 then v - 4 else if v = 62 then 43 else 47))"

definition b64_val :: "char \<Rightarrow> int option" where
  "b64_val c = (let n = int (cp c) in
     if 65 \<le> n \<and> n \<le> 90 then Some (n - 65)
     else if 97 \<le> n \<and> n \<le> 122 then Some (n - 71)
     else if 48 \<le> n \<and> n \<le> 57 then Some (n + 4)
     else if n = 43 then Some 62 else if n = 47 then Some 63 else None)"

text \<open>
  The decoder of \<open>binascii\<close>: position in the group of four, the bits left over, and the pads
  seen since the last character of the alphabet. Full padding ends the input.
\<close>

fun a2b :: "nat \<Rightarrow> int \<Rightarrow> nat \<Rightarrow> string \<Rightarrow> bytes option" where
  "a2b q left pads [] = (if q = 0 then Some [] else None)"
| "a2b q left pads (c # cs) =
     (if c = CHR ''='' then
        (if 2 \<le> q then (if 4 \<le> q + pads + 1 then Some [] else a2b q left (pads + 1) cs)
         else a2b q left pads cs)
      else (case b64_val c of
          None \<Rightarrow> a2b q left pads cs
        | Some v \<Rightarrow>
          if q = 0 then a2b 1 v 0 cs
          else if q = 1 then map_option (\<lambda>r. (left * 4 + v div 16) # r) (a2b 2 (v mod 16) 0 cs)
          else if q = 2 then map_option (\<lambda>r. (left * 16 + v div 4) # r) (a2b 3 (v mod 4) 0 cs)
          else map_option (\<lambda>r. (left * 64 + v) # r) (a2b 0 0 0 cs)))"

definition b64decode :: "string \<Rightarrow> bytes option" where
  "b64decode s = (if list_all (\<lambda>c. cp c < 128) s then a2b 0 0 0 s else None)"

fun b64encode :: "bytes \<Rightarrow> string" where
  "b64encode [] = []"
| "b64encode [a] = [b64_char (a div 4), b64_char (a mod 4 * 16), CHR ''='', CHR ''='']"
| "b64encode [a, b] = [b64_char (a div 4), b64_char (a mod 4 * 16 + b div 16),
     b64_char (b mod 16 * 4), CHR ''='']"
| "b64encode (a # b # c # r) = b64_char (a div 4) # b64_char (a mod 4 * 16 + b div 16)
     # b64_char (b mod 16 * 4 + c div 64) # b64_char (c mod 64) # b64encode r"

lemma b64_char_facts:
  assumes "0 \<le> v" "v < 64"
  shows "b64_val (b64_char v) = Some v" "b64_char v \<noteq> CHR ''=''" "cp (b64_char v) < 128"
    "\<not> is_space (b64_char v)"
proof -
  have c: "cp (b64_char v) = nat (if v < 26 then v + 65 else if v < 52 then v + 71
     else if v < 62 then v - 4 else if v = 62 then 43 else 47)"
    using assms by (auto simp: b64_char_def cp_def)
  show "b64_val (b64_char v) = Some v" "cp (b64_char v) < 128"
    using assms by (auto simp: b64_val_def Let_def c)
  have "cp (CHR ''='') = 61" by (simp add: cp_def)
  moreover have "cp (b64_char v) \<noteq> 61" using assms by (auto simp: c)
  ultimately show "b64_char v \<noteq> CHR ''=''" by metis
  show "\<not> is_space (b64_char v)"
    using assms by (auto simp: is_space_def Let_def c)
qed

lemma byte_parts:
  assumes "byte a"
  shows "0 \<le> a div 4" "a div 4 < 64" "0 \<le> a mod 4 * 16" "a mod 4 * 16 < 64"
    "0 \<le> a mod 16 * 4" "a mod 16 * 4 < 64" "0 \<le> a mod 64" "a mod 64 < 64"
    "0 \<le> a div 16" "a div 16 < 16" "0 \<le> a div 64" "a div 64 < 4"
  using assms unfolding byte_def by linarith+

lemma byte_pairs:
  assumes "byte a" "byte b"
  shows "0 \<le> a mod 4 * 16 + b div 16" "a mod 4 * 16 + b div 16 < 64"
    "0 \<le> a mod 16 * 4 + b div 64" "a mod 16 * 4 + b div 64 < 64"
proof -
  have m: "0 \<le> a mod 4" "a mod 4 < 4" "0 \<le> a mod 16" "a mod 16 < 16" by simp_all
  then show "0 \<le> a mod 4 * 16 + b div 16" "a mod 4 * 16 + b div 16 < 64"
    "0 \<le> a mod 16 * 4 + b div 64" "a mod 16 * 4 + b div 64 < 64"
    using byte_parts [OF assms(1)] byte_parts [OF assms(2)] by linarith+
qed

lemma byte_joins:
  "(x * 16 + y) div 16 = x" "(x * 16 + y) mod 16 = y" if "0 \<le> y" "y < (16 :: int)"
  using that by simp_all

lemma byte_joins4:
  "(x * 4 + y) div 4 = x" "(x * 4 + y) mod 4 = y" if "0 \<le> y" "y < (4 :: int)"
  using that by simp_all

lemma a2b_1: "0 \<le> v \<Longrightarrow> v < 64 \<Longrightarrow> a2b 0 l p (b64_char v # r) = a2b (Suc 0) v 0 r"
  by (simp add: b64_char_facts)

lemma a2b_2: "0 \<le> v \<Longrightarrow> v < 64 \<Longrightarrow>
    a2b (Suc 0) l p (b64_char v # r) = map_option (\<lambda>r. (l * 4 + v div 16) # r) (a2b 2 (v mod 16) 0 r)"
  by (simp add: b64_char_facts)

lemma a2b_3: "0 \<le> v \<Longrightarrow> v < 64 \<Longrightarrow>
    a2b 2 l p (b64_char v # r) = map_option (\<lambda>r. (l * 16 + v div 4) # r) (a2b 3 (v mod 4) 0 r)"
  by (simp add: b64_char_facts)

lemma a2b_4: "0 \<le> v \<Longrightarrow> v < 64 \<Longrightarrow>
    a2b 3 l p (b64_char v # r) = map_option (\<lambda>r. (l * 64 + v) # r) (a2b 0 0 0 r)"
  by (simp add: b64_char_facts)

lemma a2b_b64encode: "list_all byte bs \<Longrightarrow> a2b 0 0 0 (b64encode bs) = Some bs"
proof (induction bs rule: b64encode.induct)
  case (2 a)
  then have "byte a" by simp
  note ps = byte_parts [OF this]
  have "a mod 4 * 16 div 16 = a mod 4" by simp
  then show ?case by (simp add: a2b_1 a2b_2 ps del: a2b.simps) simp
next
  case (3 a b)
  then have "byte a" "byte b" by simp_all
  note ps = byte_parts [OF this(1)] byte_parts [OF this(2)] byte_pairs [OF this]
  have "b mod 16 * 4 div 4 = b mod 16" by simp
  then show ?case
    by (simp add: a2b_1 a2b_2 a2b_3 ps byte_joins del: a2b.simps) simp
next
  case (4 a b c r)
  then have "byte a" "byte b" "byte c" by simp_all
  note ps = byte_parts [OF this(1)] byte_parts [OF this(2)] byte_parts [OF this(3)]
    byte_pairs [OF this(1,2)] byte_pairs [OF this(2,3)]
  show ?case
    using 4 by (simp add: a2b_1 a2b_2 a2b_3 a2b_4 ps byte_joins byte_joins4 del: a2b.simps)
qed simp

lemma b64encode_chars: "list_all byte bs \<Longrightarrow> list_all (\<lambda>c. cp c < 128 \<and> \<not> is_space c) (b64encode bs)"
  by (induction bs rule: b64encode.induct)
     (simp_all add: b64_char_facts byte_parts byte_pairs is_space_def [of "CHR ''=''"] cp_def [of "CHR ''=''"] Let_def)

lemma b64_roundtrip: "list_all byte bs \<Longrightarrow> b64decode (b64encode bs) = Some bs"
  using b64encode_chars [of bs] a2b_b64encode [of bs]
  by (auto simp: b64decode_def list_all_iff)

interpretation b64: codec b64encode b64decode "list_all byte"
  by unfold_locales (rule b64_roundtrip)

interpretation basic: codec_pair utf8_bytes utf8_decode "list_all scalar" b64encode b64decode "list_all byte"
  by unfold_locales (rule utf8_bytes_are_bytes)

section \<open>What the decoders produce\<close>

lemma b64_val_range: "b64_val c = Some v \<Longrightarrow> 0 \<le> v \<and> v < 64"
  by (auto simp: b64_val_def Let_def split: if_splits)

lemma a2b_bytes:
  assumes "a2b q left pads s = Some r" "0 \<le> left" "q = 1 \<longrightarrow> left < 64" "q = 2 \<longrightarrow> left < 16"
    "3 \<le> q \<longrightarrow> left < 4"
  shows "list_all byte r"
  using assms
proof (induction s arbitrary: q left pads r)
  case (Cons c s)
  show ?case
  proof (cases "b64_val c")
    case None
    then show ?thesis using Cons by (auto split: if_splits)
  next
    case (Some v)
    have v: "0 \<le> v" "v < 64" using b64_val_range [OF Some] by simp_all
    then have d: "0 \<le> v div 16" "v div 16 < 4" "0 \<le> v div 4" "v div 4 < 16" by linarith+
    show ?thesis
    proof (cases "c = CHR ''=''")
      case True
      then show ?thesis using Cons.prems Cons.IH [of q left "pads + 1"] Cons.IH [of q left pads]
        by (auto split: if_splits)
    next
      case False
      consider "q = 0" | "q = 1" | "q = 2" | "3 \<le> q" by linarith
      then show ?thesis
      proof cases
        case 1
        then show ?thesis using False Some v Cons.prems(1) Cons.IH [of 1 v 0] by simp
      next
        case 2
        then obtain r' where r: "r = (left * 4 + v div 16) # r'" "a2b 2 (v mod 16) 0 s = Some r'"
          using False Some Cons.prems(1) by auto
        moreover have "byte (left * 4 + v div 16)"
          using 2 d Cons.prems(2,3) unfolding byte_def by linarith
        ultimately show ?thesis using Cons.IH [OF r(2)] by simp
      next
        case 3
        then obtain r' where r: "r = (left * 16 + v div 4) # r'" "a2b 3 (v mod 4) 0 s = Some r'"
          using False Some Cons.prems(1) by auto
        moreover have "byte (left * 16 + v div 4)"
          using 3 d Cons.prems(2,4) unfolding byte_def by linarith
        ultimately show ?thesis using Cons.IH [OF r(2)] by simp
      next
        case 4
        then obtain r' where r: "r = (left * 64 + v) # r'" "a2b 0 0 0 s = Some r'"
          using False Some Cons.prems(1) by auto
        moreover have "byte (left * 64 + v)"
          using 4 v Cons.prems(2,5) unfolding byte_def by linarith
        ultimately show ?thesis using Cons.IH [OF r(2)] by simp
      qed
    qed
  qed
qed (auto split: if_splits)

lemma b64decode_bytes: "b64decode s = Some r \<Longrightarrow> list_all byte r"
  using a2b_bytes [of 0 0 0 s r] by (simp add: b64decode_def del: a2b.simps split: if_splits)

lemma scalar_2: "0xC2 \<le> a \<Longrightarrow> a < 0xE0 \<Longrightarrow> is_cont b \<Longrightarrow> scalar ((a - 0xC0) * 0x40 + (b - 0x80))"
  by (auto simp: scalar_def is_surrogate_def is_cont_def)

lemma scalar_3: "0xE0 \<le> a \<Longrightarrow> a < 0xF0 \<Longrightarrow> is_cont b \<Longrightarrow> is_cont c \<Longrightarrow>
    \<not> is_surrogate ((a - 0xE0) * 0x1000 + (b - 0x80) * 0x40 + (c - 0x80)) \<Longrightarrow>
    scalar ((a - 0xE0) * 0x1000 + (b - 0x80) * 0x40 + (c - 0x80))"
  by (auto simp: scalar_def is_cont_def)

lemma scalar_4: "0x10000 \<le> u \<Longrightarrow> u < 0x110000 \<Longrightarrow> scalar u"
  unfolding scalar_def is_surrogate_def by linarith

lemma utf8_decode_scalar: "utf8_decode bs = Some s \<Longrightarrow> list_all byte bs \<Longrightarrow> list_all scalar s"
proof (induction "length bs" arbitrary: bs s rule: less_induct)
  case less
  have IH: "utf8_decode cs = Some r \<Longrightarrow> length cs < length bs \<Longrightarrow> list_all byte cs \<Longrightarrow> list_all scalar r"
    for cs r using less(1) by blast
  show ?case
  proof (cases bs)
    case (Cons a cs)
    note a = Cons
    show ?thesis
    proof (cases "a < 0x80")
      case True
      then show ?thesis
        using less(2,3) a IH [of cs] by (auto simp: byte_def scalar_def is_surrogate_def)
    next
      case False
      then obtain b ds where b: "cs = b # ds" "is_cont b" "0xC2 \<le> a"
        using less(2) a by (auto split: list.splits if_splits)
      show ?thesis
      proof (cases "a < 0xE0")
        case True
        then show ?thesis using False less(2,3) a b IH [of ds] scalar_2 [of a b] by auto
      next
        case 2: False
        then obtain c es where c: "ds = c # es" "is_cont c"
          using less(2) a b False by (auto split: list.splits if_splits)
        show ?thesis
        proof (cases "a < 0xF0")
          case True
          then show ?thesis
            using 2 less(2,3) a b c IH [of es] scalar_3 [of a b c]
            by (auto simp: Let_def split: if_splits)
        next
          case 3: False
          then obtain d fs where "es = d # fs"
            using less(2) a b c False 2 by (auto split: list.splits if_splits)
          then show ?thesis
            using 2 3 less(2,3) a b c IH [of fs] scalar_4
            by (auto simp: Let_def split: if_splits)
        qed
      qed
    qed
  qed (use less(2) in simp)
qed

text \<open>A text of code points that can be encoded consists of scalar values.\<close>

definition code_point :: "int \<Rightarrow> bool" where
  "code_point u = (0 \<le> u \<and> u < 0x110000)"

lemma utf8_encode_Inr: "list_all code_point s \<Longrightarrow> utf8_encode s = Inr b \<longleftrightarrow> list_all scalar s \<and> b = utf8_bytes s"
  by (auto simp: utf8_encode_def list_ex_iff list_all_iff scalar_def code_point_def)

lemma scalar_code_point: "list_all scalar s \<Longrightarrow> list_all code_point s"
  by (auto simp: list_all_iff scalar_def code_point_def)

lemma utf8_encode_scalar: "list_all scalar s \<Longrightarrow> utf8_encode s = Inr (utf8_bytes s)"
  by (simp add: utf8_encode_Inr scalar_code_point)

lemma code_point_ints [simp]: "list_all code_point (ints s)"
proof -
  have "cp c < 0x110000" for c using cp_less [of c] by linarith
  then show ?thesis by (simp add: list_all_iff ints_def code_point_def)
qed

lemma ints_inject [simp]: "ints s = ints t \<longleftrightarrow> s = t"
  by (auto simp: ints_def cp_def intro!: map_injective [of "\<lambda>c. int (of_char c)"] injI)

text \<open>The characters a sequence of bytes decodes to in Latin-1.\<close>

definition chars :: "bytes \<Rightarrow> string" where
  "chars bs = map (\<lambda>b. char_of (nat b)) bs"

lemma ints_chars: "list_all byte bs \<Longrightarrow> ints (chars bs) = bs"
proof (induction bs)
  case (Cons b bs)
  then have "nat b < nat 256" by (subst nat_mono_iff) (simp_all add: byte_def)
  then have "nat b < 256" by simp
  then have "nat b mod 256 = nat b" by (rule mod_less)
  then show ?case using Cons by (simp add: ints_def chars_def byte_def cp_def)
qed (simp add: ints_def chars_def)

end
