(* ===== verification/Auth.thy ===== *)
theory Auth
  imports Codec Config
begin

text \<open>
  \<open>app/auth.py\<close>: the optional bearer token and Basic password in front of every route. A
  header value is the Latin-1 decoding of the bytes the client sent; credentials are code
  points. The lemmas give what the middleware forwards, that every well-formed client is let
  in, and that a UTF-8 token can be cut short by the white space stripping.
\<close>

section \<open>Credentials\<close>

record auth_config =
  a_token :: code_points
  a_username :: code_points
  a_password :: code_points

definition auth_of_config :: "config \<Rightarrow> auth_config" where
  "auth_of_config c = \<lparr>a_token = ints (AUTH_TOKEN c), a_username = ints (AUTH_USERNAME c),
     a_password = ints (AUTH_PASSWORD c)\<rparr>"

definition auth_configured :: "auth_config \<Rightarrow> bool" where
  "auth_configured ac = (a_token ac \<noteq> [] \<or> a_password ac \<noteq> [])"

text \<open>\<open>_same\<close>: comparing the encodings; a lone surrogate on either side raises.\<close>

definition same_credential :: "code_points \<Rightarrow> code_points \<Rightarrow> bool result" where
  "same_credential a b = rbind (utf8_encode a) (\<lambda>x. rbind (utf8_encode b) (\<lambda>y. Inr (x = y)))"

definition split_scheme :: "string \<Rightarrow> string \<times> string" where
  "split_scheme header = (case split_ws1 (strip header) of
     [s, t] \<Rightarrow> (lower s, strip t) | _ \<Rightarrow> ([], []))"

definition check_bearer :: "auth_config \<Rightarrow> string \<Rightarrow> bool result" where
  "check_bearer ac header = (case split_scheme header of (scheme, token) \<Rightarrow>
     if a_token ac = [] \<or> scheme \<noteq> ''bearer'' then Inr False
     else rbind (utf8_encode (a_token ac)) (\<lambda>t. Inr (ints token = t)))"

text \<open>\<open>decoded.partition(":")\<close>\<close>

definition partition_colon :: "code_points \<Rightarrow> code_points \<times> code_points" where
  "partition_colon s = (takeWhile (\<lambda>u. u \<noteq> 58) s, tl (dropWhile (\<lambda>u. u \<noteq> 58) s))"

definition check_basic :: "auth_config \<Rightarrow> string \<Rightarrow> bool result" where
  "check_basic ac header = (case split_scheme header of (scheme, payload) \<Rightarrow>
     if a_password ac = [] \<or> scheme \<noteq> ''basic'' then Inr False
     else (case Option.bind (b64decode payload) utf8_decode of
         None \<Rightarrow> Inr False
       | Some decoded \<Rightarrow>
           (case partition_colon decoded of (username, password) \<Rightarrow>
              rbind (same_credential username (a_username ac)) (\<lambda>user_ok.
              rbind (same_credential password (a_password ac)) (\<lambda>pass_ok.
                Inr (user_ok \<and> pass_ok))))))"

definition is_authorized :: "auth_config \<Rightarrow> string \<Rightarrow> bool result" where
  "is_authorized ac header =
     (if \<not> auth_configured ac then Inr True
      else if header = [] then Inr False
      else rbind (check_bearer ac header) (\<lambda>b. if b then Inr True else check_basic ac header))"

section \<open>The middleware\<close>

text \<open>An ASGI scope; a header is a pair of byte strings.\<close>

record scope =
  s_type :: string
  s_path :: "string option"
  s_headers :: "(string \<times> string) list"

datatype asgi_out = Forwarded | Ws_close int | Unauthorized "(string \<times> string) list"

text \<open>\<open>bytes.lower\<close> maps the ASCII letters only.\<close>

definition lower_ascii :: "string \<Rightarrow> string" where
  "lower_ascii s = map (\<lambda>c. if 65 \<le> cp c \<and> cp c \<le> 90 then char_of (cp c + 32) else c) s"

definition scope_header :: "scope \<Rightarrow> string \<Rightarrow> string" where
  "scope_header sc name =
     (case List.find (\<lambda>kv. lower_ascii (fst kv) = name) (s_headers sc) of
        Some kv \<Rightarrow> snd kv | None \<Rightarrow> [])"

definition middleware :: "auth_config \<Rightarrow> scope \<Rightarrow> asgi_out result" where
  "middleware ac sc =
     (if s_type sc \<notin> {''http'', ''websocket''} \<or> \<not> auth_configured ac then Inr Forwarded
      else rbind (if s_path sc = Some ''/api/health'' then Inr True
                  else is_authorized ac (scope_header sc ''authorization'')) (\<lambda>ok.
        if ok then Inr Forwarded
        else if s_type sc = ''websocket'' then Inr (Ws_close 1008)
        else Inr (Unauthorized (if a_password ac = [] then []
          else [(''WWW-Authenticate'', ''Basic realm='' @ dquote # ''Node Debug Dashboard'' @ [dquote])]))))"

section \<open>White space around scheme and credentials\<close>

definition spaces :: "string \<Rightarrow> bool" where
  "spaces s = list_all is_space s"

lemma lstrip_decomp: "\<exists>pre. s = pre @ lstrip s \<and> spaces pre"
  unfolding lstrip_def spaces_def
  by (metis list_all_iff set_takeWhileD takeWhile_dropWhile_id)

lemma rstrip_decomp: "\<exists>post. s = rstrip s @ post \<and> spaces post"
proof -
  obtain p where p: "rev s = p @ lstrip (rev s)" "spaces p" using lstrip_decomp by blast
  then have "s = rev (lstrip (rev s)) @ rev p" by (metis rev_append rev_rev_ident)
  then show ?thesis using p(2) by (auto simp: rstrip_def lstrip_def spaces_def intro!: exI [of _ "rev p"])
qed

lemma strip_decomp: "\<exists>pre post. s = pre @ strip s @ post \<and> spaces pre \<and> spaces post"
proof -
  obtain pre where "s = pre @ lstrip s" "spaces pre" using lstrip_decomp by blast
  moreover obtain post where "lstrip s = strip s @ post" "spaces post"
    using rstrip_decomp [of "lstrip s"] by (auto simp: strip_def)
  ultimately show ?thesis by metis
qed

text \<open>A header carries scheme and credentials, white space around and between them.\<close>

definition carries :: "string \<Rightarrow> string \<Rightarrow> string \<Rightarrow> bool" where
  "carries header scheme cred = (\<exists>pre sch gap post. header = pre @ sch @ gap @ cred @ post
     \<and> spaces pre \<and> spaces gap \<and> gap \<noteq> [] \<and> spaces post \<and> lower sch = scheme)"

lemma dropWhile_nonspace_gap: "lstrip (dropWhile nonspace t) \<noteq> [] \<Longrightarrow>
    \<exists>gap. dropWhile nonspace t = gap @ lstrip (dropWhile nonspace t) \<and> spaces gap \<and> gap \<noteq> []"
  using lstrip_decomp [of "dropWhile nonspace t"] hd_dropWhile [of nonspace t]
  by (metis append_Nil dropWhile_eq_Nil_conv hd_dropWhile lstrip_def nonspace_def)

lemma split_scheme_carries:
  assumes "split_scheme header = (scheme, cred)" "scheme \<noteq> []"
  shows "carries header scheme cred"
proof -
  obtain pre post where h: "header = pre @ strip header @ post" "spaces pre" "spaces post"
    using strip_decomp by blast
  let ?t = "lstrip (strip header)"
  obtain p where p: "strip header = p @ ?t" "spaces p" using lstrip_decomp by blast
  let ?d = "dropWhile nonspace ?t"
  have ne: "?t \<noteq> []" "lstrip ?d \<noteq> []"
    using assms by (auto simp: split_scheme_def split_ws1_def Let_def split: if_splits)
  then have eq: "scheme = lower (takeWhile nonspace ?t)" "cred = strip (lstrip ?d)"
    using assms by (auto simp: split_scheme_def split_ws1_def Let_def)
  obtain gap where g: "?d = gap @ lstrip ?d" "spaces gap" "gap \<noteq> []"
    using dropWhile_nonspace_gap [OF ne(2)] by blast
  obtain a b where c: "lstrip ?d = a @ cred @ b" "spaces a" "spaces b"
    using strip_decomp [of "lstrip ?d"] eq(2) by blast
  have "header = (pre @ p) @ takeWhile nonspace ?t @ (gap @ a) @ cred @ (b @ post)"
    using h(1) p(1) g(1) c(1) takeWhile_dropWhile_id [of nonspace ?t] by (metis append.assoc)
  moreover have "spaces (pre @ p)" "spaces (gap @ a)" "spaces (b @ post)"
    using h p g c by (simp_all add: spaces_def)
  ultimately show ?thesis using g(3) eq(1) unfolding carries_def by blast
qed

lemma stripped_lstrip: "is_stripped s \<Longrightarrow> lstrip s = s"
  by (cases s) (auto simp: is_stripped_def lstrip_def)

lemma split_scheme_made:
  assumes "sch \<noteq> []" "list_all nonspace sch" "cred \<noteq> []" "is_stripped cred"
  shows "split_scheme (sch @ CHR '' '' # cred) = (lower sch, cred)"
proof -
  let ?h = "sch @ CHR '' '' # cred"
  have sp: "is_space (CHR '' '')" by (simp add: is_space_def cp_def)
  have "is_stripped ?h"
    using assms by (cases sch) (auto simp: is_stripped_def nonspace_def)
  then have h: "strip ?h = ?h" "lstrip ?h = ?h"
    by (auto intro: strip_stripped stripped_lstrip)
  have "takeWhile nonspace ?h = sch" "dropWhile nonspace ?h = CHR '' '' # cred"
    using assms(2) sp by (simp_all add: list_all_iff nonspace_def)
  moreover have "lstrip (CHR '' '' # cred) = cred"
    using stripped_lstrip [OF assms(4)] sp by (simp add: lstrip_def)
  ultimately show ?thesis
    using assms by (simp add: split_scheme_def split_ws1_def h strip_stripped [OF assms(4)])
qed

section \<open>What the checks decide\<close>

definition wf_credentials :: "auth_config \<Rightarrow> bool" where
  "wf_credentials ac = (list_all code_point (a_token ac) \<and> list_all code_point (a_username ac)
     \<and> list_all code_point (a_password ac))"

lemma wf_auth_of_config: "wf_credentials (auth_of_config c)"
  by (simp add: wf_credentials_def auth_of_config_def)

lemma same_credential_True:
  assumes "list_all code_point a" "list_all code_point b"
  shows "same_credential a b = Inr True \<longleftrightarrow> a = b \<and> list_all scalar a"
  using assms utf8.enc_inject [of a b]
  by (auto simp: same_credential_def rbind_Inr_iff utf8_encode_Inr)

lemma same_credential_scalar:
  assumes "list_all scalar a" "list_all scalar b"
  shows "same_credential a b = Inr (a = b)"
  using assms utf8.enc_inject [of a b] by (simp add: same_credential_def rbind_simps utf8_encode_scalar)

lemma partition_colon_Cons:
  "partition_colon s = (u, p) \<Longrightarrow> p \<noteq> [] \<Longrightarrow> s = u @ 58 # p"
  unfolding partition_colon_def
  by (metis (mono_tags, lifting) Pair_inject dropWhile_eq_Cons_conv list.collapse list.sel(2)
      takeWhile_dropWhile_id)

lemma partition_colon_made: "58 \<notin> set u \<Longrightarrow> partition_colon (u @ 58 # p) = (u, p)"
  by (induction u) (auto simp: partition_colon_def)

text \<open>What a header must carry to hold the credentials of a configuration.\<close>

definition holds_token :: "auth_config \<Rightarrow> string \<Rightarrow> bool" where
  "holds_token ac header = (\<exists>cred. carries header ''bearer'' cred \<and> a_token ac \<noteq> []
     \<and> ints cred = utf8_bytes (a_token ac))"

definition holds_password :: "auth_config \<Rightarrow> string \<Rightarrow> bool" where
  "holds_password ac header = (\<exists>cred. carries header ''basic'' cred \<and> a_password ac \<noteq> []
     \<and> Option.bind (b64decode cred) utf8_decode = Some (a_username ac @ 58 # a_password ac))"

lemma check_bearer_True:
  assumes "wf_credentials ac" "check_bearer ac header = Inr True"
  shows "holds_token ac header"
  using assms split_scheme_carries [of header]
  by (auto simp: check_bearer_def holds_token_def wf_credentials_def utf8_encode_Inr rbind_Inr_iff
      split: prod.splits if_splits)

lemma decoded_scalar:
  "Option.bind (b64decode s) utf8_decode = Some d \<Longrightarrow> list_all scalar d"
  by (auto simp: Option.bind_eq_Some_conv intro: utf8_decode_scalar b64decode_bytes)

lemma partition_scalar:
  assumes "partition_colon d = (u, p)" "list_all scalar d"
  shows "list_all scalar u \<and> list_all scalar p"
proof -
  let ?P = "\<lambda>u. u \<noteq> (58 :: int)"
  have "set (tl ys) \<subseteq> set ys" for ys :: "int list" by (cases ys) auto
  moreover have "set (dropWhile ?P d) \<subseteq> set d" "set (takeWhile ?P d) \<subseteq> set d"
    by (auto dest: set_dropWhileD set_takeWhileD)
  moreover have "u = takeWhile ?P d" "p = tl (dropWhile ?P d)"
    using assms(1) by (simp_all add: partition_colon_def)
  ultimately have "set p \<subseteq> set d" "set u \<subseteq> set d" by blast+
  then show ?thesis using assms(2) by (auto simp: list_all_iff)
qed

lemma check_basic_True:
  assumes "wf_credentials ac" "check_basic ac header = Inr True"
  shows "holds_password ac header"
proof -
  obtain cred where cred: "split_scheme header = (''basic'', cred)" "a_password ac \<noteq> []"
    using assms(2) by (cases "split_scheme header") (auto simp: check_basic_def split: if_splits)
  obtain d u p where d: "Option.bind (b64decode cred) utf8_decode = Some d"
      "partition_colon d = (u, p)" "same_credential u (a_username ac) = Inr True"
      "same_credential p (a_password ac) = Inr True"
    using assms(2) cred
    by (auto simp: check_basic_def rbind_Inr_iff split: option.splits prod.splits)
  have "list_all scalar u" "list_all scalar p"
    using partition_scalar [OF d(2) decoded_scalar [OF d(1)]] by simp_all
  then have "u = a_username ac" "p = a_password ac"
    using d(3,4) assms(1) by (auto simp: same_credential_True scalar_code_point wf_credentials_def)
  then have "d = a_username ac @ 58 # a_password ac"
    using partition_colon_Cons [OF d(2)] cred(2) by simp
  then show ?thesis
    using d(1) cred(2) split_scheme_carries [OF cred(1)] by (auto simp: holds_password_def)
qed

text \<open>What a forwarded request on a guarded path carries.\<close>

lemma forwarded_holds:
  assumes "wf_credentials ac" "auth_configured ac" "s_type sc \<in> {''http'', ''websocket''}"
    "s_path sc \<noteq> Some ''/api/health''" "middleware ac sc = Inr Forwarded"
  shows "holds_token ac (scope_header sc ''authorization'') \<or> holds_password ac (scope_header sc ''authorization'')"
proof -
  let ?h = "scope_header sc ''authorization''"
  have "is_authorized ac ?h = Inr True"
    using assms(2-5) by (auto simp: middleware_def rbind_Inr_iff split: if_splits)
  then have "check_bearer ac ?h = Inr True \<or> check_basic ac ?h = Inr True"
    using assms(2) by (auto simp: is_authorized_def rbind_Inr_iff split: if_splits)
  then show ?thesis using check_bearer_True check_basic_True assms(1) by blast
qed

section \<open>Properties\<close>

text \<open>
  C1: With a token or a password configured, an HTTP request or WebSocket handshake for any
  path but \<open>/api/health\<close> reaches the application only when its first \<open>authorization\<close> header
  carries the configured token under the scheme Bearer, or the configured user and password
  under the scheme Basic.
\<close>

theorem middleware_guards:
  assumes "wf_credentials ac" "auth_configured ac" "s_type sc \<in> {''http'', ''websocket''}"
    "s_path sc \<noteq> Some ''/api/health''" "middleware ac sc = Inr Forwarded"
  shows "\<exists>header. header = scope_header sc ''authorization'' \<and>
    (holds_token ac header \<or> holds_password ac header)"
  using forwarded_holds [OF assms] by blast

definition demo_auth :: auth_config where
  "demo_auth = \<lparr>a_token = ints ''s3cret'', a_username = ints ''debug'', a_password = ints ''pw''\<rparr>"

definition demo_scope :: scope where
  "demo_scope = \<lparr>s_type = ''http'', s_path = Some ''/api/v1/node'',
     s_headers = [(''Authorization'', ''bEARER  s3cret'')]\<rparr>"

lemma demo_auth_facts:
  "wf_credentials demo_auth" "auth_configured demo_auth"
  "middleware demo_auth demo_scope = Inr Forwarded"
  by (simp add: wf_credentials_def demo_auth_def) code_simp+

theorem middleware_guards_witness:
  "holds_token demo_auth (scope_header demo_scope ''authorization'')
   \<or> holds_password demo_auth (scope_header demo_scope ''authorization'')"
  using middleware_guards [OF demo_auth_facts(1,2) _ _ demo_auth_facts(3)]
  by (simp add: demo_scope_def)

text \<open>
  C18: A client that sends a user name without a colon and a password the way RFC 7617 says,
  in UTF-8 and Base64, is let in exactly when both are the configured ones, whatever their
  characters and whether or not a token is configured too.
\<close>

theorem basic_client_decided:
  assumes "list_all scalar u" "list_all scalar p" "58 \<notin> set u" "list_all scalar (a_token ac)"
    "list_all scalar (a_username ac)" "list_all scalar (a_password ac)" "a_password ac \<noteq> []"
  shows "is_authorized ac (''Basic '' @ b64encode (utf8_bytes (u @ 58 # p)))
    = Inr (u = a_username ac \<and> p = a_password ac)"
proof -
  let ?cred = "b64encode (utf8_bytes (u @ 58 # p))"
  have sc: "list_all scalar (u @ 58 # p)" using assms by (simp add: scalar_def is_surrogate_def)
  have "utf8_bytes (u @ 58 # p) \<noteq> []" by (simp add: utf8_bytes_def utf8_char_def)
  then have ne: "?cred \<noteq> []" by (cases "utf8_bytes (u @ 58 # p)" rule: b64encode.cases) auto
  have "list_all (\<lambda>c. \<not> is_space c) ?cred"
    using b64encode_chars [OF utf8_bytes_are_bytes [OF sc]] by (simp add: list_all_iff)
  then have st: "is_stripped ?cred" by (rule no_space_stripped)
  have sp: "split_scheme (''Basic'' @ CHR '' '' # ?cred) = (lower ''Basic'', ?cred)"
    by (rule split_scheme_made) (use ne st in \<open>simp_all add: nonspace_def is_space_def cp_def\<close>)
  have lo: "lower ''Basic'' = ''basic''" by code_simp
  have "Option.bind (b64decode ?cred) utf8_decode = Some (u @ 58 # p)"
    using basic.dec_enc2 [OF sc] .
  then have "check_basic ac (''Basic '' @ ?cred) = Inr (u = a_username ac \<and> p = a_password ac)"
    using sp lo assms
    by (simp add: check_basic_def partition_colon_made same_credential_scalar rbind_simps)
  moreover have "check_bearer ac (''Basic '' @ ?cred) = Inr False"
    using sp lo by (simp add: check_bearer_def)
  ultimately show ?thesis
    using assms(7) by (simp add: is_authorized_def auth_configured_def rbind_simps)
qed

theorem basic_client_decided_witness:
  "is_authorized demo_auth (''Basic '' @ b64encode (utf8_bytes ([100, 0xE9] @ 58 # [0x20AC])))
     = Inr False"
  using basic_client_decided [of "[100, 0xE9]" "[0x20AC]" demo_auth]
  by (simp add: demo_auth_def scalar_def is_surrogate_def ints_def cp_def)

text \<open>
  A token client is let in when the bytes it sends, less white space around them, are the
  UTF-8 encoding of the token, provided these bytes do not themselves begin or end with a byte
  that Latin-1 takes for white space.
\<close>

theorem bearer_client_admitted:
  assumes "list_all scalar (a_token ac)" "a_token ac \<noteq> []"
    "is_stripped (chars (utf8_bytes (a_token ac)))"
  shows "is_authorized ac (''Bearer '' @ chars (utf8_bytes (a_token ac))) = Inr True"
proof -
  let ?cred = "chars (utf8_bytes (a_token ac))"
  have "utf8_bytes (a_token ac) \<noteq> []"
    using assms(2) by (cases "a_token ac") (auto simp: utf8_bytes_def utf8_char_def)
  then have "split_scheme (''Bearer'' @ CHR '' '' # ?cred) = (lower ''Bearer'', ?cred)"
    by (intro split_scheme_made)
       (use assms(3) in \<open>simp_all add: nonspace_def is_space_def cp_def chars_def\<close>)
  moreover have "lower ''Bearer'' = ''bearer''" by code_simp
  ultimately have "check_bearer ac (''Bearer '' @ ?cred) = Inr True"
    using assms
    by (simp add: check_bearer_def rbind_simps utf8_encode_scalar ints_chars utf8_bytes_are_bytes)
  then show ?thesis
    using assms(2) by (simp add: is_authorized_def auth_configured_def rbind_simps)
qed

theorem bearer_client_admitted_witness:
  "is_authorized demo_auth (''Bearer '' @ chars (utf8_bytes (a_token demo_auth))) = Inr True"
  by (rule bearer_client_admitted)
     (simp_all add: demo_auth_def scalar_def is_surrogate_def ints_def cp_def utf8_bytes_ascii
       chars_def is_stripped_def is_space_def)

text \<open>
  C39: A token whose UTF-8 encoding ends in the byte A0 or 85, as any token ending in a grave a
  or a ringed capital A does, can never be presented: the header is stripped as Latin-1 text
  before it is turned back into bytes, so no header value whatever passes the bearer check.
\<close>

theorem bearer_token_unusable:
  assumes "list_all scalar (a_token ac)" "a_token ac \<noteq> []"
    "last (utf8_bytes (a_token ac)) \<in> {0x85, 0xA0}"
  shows "check_bearer ac header = Inr False"
proof (rule ccontr)
  assume "check_bearer ac header \<noteq> Inr False"
  then obtain cred where c: "split_scheme header = (''bearer'', cred)"
      "ints cred = utf8_bytes (a_token ac)"
    using assms(2) utf8_encode_scalar [OF assms(1)]
    by (cases "split_scheme header") (auto simp: check_bearer_def rbind_simps split: if_splits)
  have "is_stripped cred"
    using c(1) by (auto simp: split_scheme_def is_stripped_strip split: list.split_asm)
  moreover have "utf8_bytes (a_token ac) \<noteq> []"
    using assms(2) by (cases "a_token ac") (auto simp: utf8_bytes_def utf8_char_def)
  then have "cred \<noteq> []" using c(2) by (auto simp: ints_def)
  ultimately have "\<not> is_space (last cred)" by (simp add: is_stripped_def)
  moreover have "int (cp (last cred)) = last (utf8_bytes (a_token ac))"
    using c(2) \<open>cred \<noteq> []\<close> by (metis (mono_tags, lifting) ints_def last_map)
  ultimately show False using assms(3) by (auto simp: is_space_def Let_def)
qed

theorem bearer_token_unusable_witness:
  "check_bearer (demo_auth\<lparr>a_token := [0x76, 0x6F, 0x69, 0x6C, 0xE0]\<rparr>)
     (''Bearer voil'' @ [CHR 0xC3, CHR 0xA0]) = Inr False"
  by (rule bearer_token_unusable)
     (simp_all add: scalar_def is_surrogate_def utf8_bytes_def utf8_char_def)

end
