(* ===== verification/App.thy ===== *)
theory App
  imports Auth HttpClient
begin

text \<open>
  \<open>app/main.py\<close>: what the application does when it starts and stops. The routing is that of the
  web framework; the middleware every request passes first is the theory \<open>Auth\<close>.
\<close>

text \<open>The lines the lifespan logs before it yields.\<close>

definition lifespan_start :: "auth_config \<Rightarrow> string list" where
  "lifespan_start ac = (if auth_configured ac then []
     else [''Dashboard authentication is DISABLED: set AUTH_TOKEN or AUTH_PASSWORD to require credentials.''])"

definition lifespan_stop :: "pool \<Rightarrow> pool" where
  "lifespan_stop st = close_clients st"

text \<open>Starting without credentials is never silent: a dashboard that forwards a request without
  any has said so.\<close>

lemma open_dashboard_warned:
  assumes "middleware ac sc = Inr Forwarded" "scope_header sc ''authorization'' = []"
    "s_path sc \<noteq> Some ''/api/health''" "s_type sc \<in> {''http'', ''websocket''}"
  shows "lifespan_start ac \<noteq> []"
  using assms by (auto simp: middleware_def lifespan_start_def is_authorized_def rbind_Inr_iff split: if_splits)

end
