(* ===== verification/Lscpu.thy ===== *)
theory Lscpu
  imports Base
begin

text \<open>
  \<open>app/collectors/cpu.py\<close>: reading \<open>lscpu\<close>, also where it prints one block for each type of
  core, and the flags of \<open>/proc/cpuinfo\<close>. The lemmas show that the blocks are kept apart and
  that their cores add up.
\<close>

section \<open>Parsing\<close>

definition count_field :: "string option \<Rightarrow> int option" where
  "count_field val = (case val of None \<Rightarrow> None | Some s \<Rightarrow> if s = [] then None else int_of_str s)"

text \<open>\<open>a or b\<close> on counts: zero is false.\<close>

definition or_count :: "int option \<Rightarrow> int option \<Rightarrow> int option" where
  "or_count a b = (case a of None \<Rightarrow> b | Some n \<Rightarrow> if n = 0 then b else Some n)"

type_synonym field_map = "(string, string) dict"

text \<open>The first dict holds the first value of each field, the list the blocks.\<close>

definition lscpu_line :: "field_map \<times> field_map list \<Rightarrow> string \<Rightarrow> field_map \<times> field_map list" where
  "lscpu_line st line = (case st of (fs, blocks) \<Rightarrow>
     if CHR '':'' \<notin> set line then st
     else
       (let key = strip (before_char CHR '':'' line); val = strip (after_char CHR '':'' line);
            blocks1 = (if key = ''Model name'' \<and> ''Model name'' \<in> set (dkeys (last blocks))
              then blocks @ [[]] else blocks)
        in (dsetdefault key val fs, butlast blocks1 @ [dset key val (last blocks1)])))"

definition block_cores :: "field_map \<Rightarrow> int" where
  "block_cores b =
     (case or_count (count_field (dget b ''Core(s) per socket'')) (count_field (dget b ''Core(s) per cluster'')) of
        None \<Rightarrow> 0
      | Some per \<Rightarrow>
          if per = 0 then 0
          else per * opt_default 1 (or_count (or_count (count_field (dget b ''Socket(s)''))
                 (count_field (dget b ''Cluster(s)''))) (Some 1)))"

definition model_names :: "field_map list \<Rightarrow> string list" where
  "model_names blocks = dkeys (foldl (\<lambda>d name. dset name () d) []
     (List.map_filter (\<lambda>b. case dget b ''Model name'' of Some n \<Rightarrow> if n = [] then None else Some n | None \<Rightarrow> None) blocks))"

record lscpu =
  lc_model :: string
  lc_sockets :: int
  lc_cores_per :: int
  lc_threads :: int

definition lscpu_fields :: "string \<Rightarrow> field_map \<times> field_map list" where
  "lscpu_fields stdout = foldl lscpu_line ([], [[]]) (splitlines stdout)"

definition parse_lscpu :: "string \<Rightarrow> lscpu" where
  "parse_lscpu stdout = (case lscpu_fields stdout of (fs, blocks) \<Rightarrow>
     (let cores_total = sum_list (map block_cores blocks);
          sockets = opt_default 1 (or_count (count_field (dget fs ''Socket(s)'')) (Some 1));
          cores_per = max (cores_total div sockets) 1;
          threads = opt_default (sockets * cores_per)
            (or_count (count_field (dget fs ''CPU(s)'')) (Some (sockets * cores_per)))
      in \<lparr>lc_model = join '' + '' (model_names blocks), lc_sockets = sockets,
           lc_cores_per = cores_per, lc_threads = threads\<rparr>))"

record cpu_info =
  ci_model :: string
  ci_sockets :: int
  ci_cores_per_socket :: int
  ci_threads :: int
  ci_architecture :: string
  ci_flags :: "string list"

definition flags_line :: "string \<Rightarrow> bool" where
  "flags_line line = (startswith_any line [''flags'', ''Features''] \<and> CHR '':'' \<in> set line)"

definition cpu_flags :: "string \<Rightarrow> string list" where
  "cpu_flags cpuinfo = (case List.find flags_line (splitlines cpuinfo) of
     None \<Rightarrow> [] | Some line \<Rightarrow> split_ws (strip (after_char CHR '':'' line)))"

definition first_field :: "field_map \<Rightarrow> string \<Rightarrow> field_map" where
  "first_field fs line =
     (if CHR '':'' \<in> set line
      then dsetdefault (strip (before_char CHR '':'' line)) (strip (after_char CHR '':'' line)) fs
      else fs)"

definition collect_cpu :: "config \<Rightarrow> host \<Rightarrow> cpu_info" where
  "collect_cpu cf h = (case h_run h [''lscpu''] of (stdout, _, _) \<Rightarrow>
     (let p = parse_lscpu stdout; fs = foldl first_field [] (splitlines stdout) in
      \<lparr>ci_model = (if lc_model p = [] then ''Unknown'' else lc_model p),
        ci_sockets = lc_sockets p, ci_cores_per_socket = lc_cores_per p, ci_threads = lc_threads p,
        ci_architecture = dget_or fs ''Architecture'' ''Unknown'',
        ci_flags = take 50 (cpu_flags (read_file h (HOST_PROC cf @ ''/cpuinfo'')))\<rparr>))"

section \<open>Blocks\<close>

text \<open>How \<open>lscpu\<close> prints one block: a line for each field.\<close>

definition field_line :: "string \<times> string \<Rightarrow> string" where
  "field_line kv = fst kv @ '':'' @ snd kv"

definition printable_block :: "field_map \<Rightarrow> bool" where
  "printable_block b = (dwf b \<and> (\<forall>(k, v) \<in> set b. CHR '':'' \<notin> set k \<and> strip k = k \<and> strip v = v))"

lemma before_after_field:
  assumes "CHR '':'' \<notin> set k"
  shows "before_char CHR '':'' (field_line (k, v)) = k" "after_char CHR '':'' (field_line (k, v)) = v"
    "CHR '':'' \<in> set (field_line (k, v))"
proof -
  have "x \<noteq> CHR '':''" if "x \<in> set k" for x using assms that by auto
  then show "before_char CHR '':'' (field_line (k, v)) = k" "after_char CHR '':'' (field_line (k, v)) = v"
    by (simp_all add: before_char_def after_char_def field_line_def takeWhile_append_stop dropWhile_append_stop)
qed (simp add: field_line_def)

lemma lscpu_line_same:
  assumes "CHR '':'' \<notin> set k" "strip k = k" "strip v = v" "k = ''Model name'' \<longrightarrow> k \<notin> fst ` set b"
  shows "snd (lscpu_line (f, bs @ [b]) (field_line (k, v))) = bs @ [dset k v b]"
  using assms before_after_field [OF assms(1), of v]
  by (auto simp: lscpu_line_def Let_def dkeys_def)

lemma dset_snoc: "k \<notin> fst ` set d \<Longrightarrow> dset k v d = d @ [(k, v)]"
  by (induction k v d rule: dset.induct) auto

lemma lscpu_block_tail:
  assumes "printable_block (b @ c)"
  shows "snd (foldl lscpu_line (f, bs @ [b]) (map field_line c)) = bs @ [b @ c]"
  using assms
proof (induction c arbitrary: b f)
  case (Cons kv c)
  obtain k v where kv: "kv = (k, v)" by (cases kv)
  have new: "k \<notin> fst ` set b" and ok: "CHR '':'' \<notin> set k" "strip k = k" "strip v = v"
    using Cons.prems kv by (auto simp: printable_block_def dwf_def)
  obtain f' where "lscpu_line (f, bs @ [b]) (field_line (k, v)) = (f', bs @ [b @ [(k, v)]])"
    using lscpu_line_same [OF ok, of b f bs] new by (metis dset_snoc prod.exhaust_sel)
  then show ?case using Cons.IH [of "b @ [(k, v)]" f'] Cons.prems kv by simp
qed simp

text \<open>Each printed block starts with its model name; blocks are read back apart.\<close>

definition core_block :: "field_map \<Rightarrow> bool" where
  "core_block b = (printable_block b \<and> b \<noteq> [] \<and> fst (hd b) = ''Model name'')"

lemma lscpu_next_block:
  assumes "core_block b" "core_block c"
  shows "snd (foldl lscpu_line (f, bs @ [b]) (map field_line c)) = bs @ [b, c]"
proof -
  obtain v rest where c: "c = (''Model name'', v) # rest"
    using assms(2) by (cases c) (auto simp: core_block_def)
  have k: "CHR '':'' \<notin> set ''Model name''" by simp
  have m: "''Model name'' \<in> set (dkeys b)"
    using assms(1) by (cases b) (auto simp: core_block_def dkeys_def)
  have "strip ''Model name'' = ''Model name''" "strip v = v"
    using assms(2) c by (auto simp: core_block_def printable_block_def)
  then have "snd (lscpu_line (f, bs @ [b]) (field_line (''Model name'', v))) = bs @ [b] @ [[(''Model name'', v)]]"
    using before_after_field [OF k, of v] m butlast_append [of bs "[b, []]"] by (simp add: lscpu_line_def Let_def del: set_simps)
  then obtain f' where "lscpu_line (f, bs @ [b]) (field_line (''Model name'', v)) = (f', (bs @ [b]) @ [[(''Model name'', v)]])"
    by (metis append.assoc prod.exhaust_sel)
  then show ?thesis
    using lscpu_block_tail [of "[(''Model name'', v)]" rest f' "bs @ [b]"] assms(2) c
    by (simp add: core_block_def)
qed

lemma lscpu_blocks_from:
  "core_block b \<Longrightarrow> list_all core_block cs \<Longrightarrow>
     snd (foldl lscpu_line (f, bs @ [b]) (concat (map (map field_line) cs))) = bs @ b # cs"
proof (induction cs arbitrary: bs b f)
  case (Cons c cs)
  obtain f' where "foldl lscpu_line (f, bs @ [b]) (map field_line c) = (f', (bs @ [b]) @ [c])"
    using lscpu_next_block [of b c f bs] Cons.prems by (metis append.assoc append_Cons append_Nil list.pred_inject(2) prod.exhaust_sel)
  then show ?case using Cons.IH [of c f' "bs @ [b]"] Cons.prems by simp
qed simp

lemma lscpu_blocks:
  assumes "list_all core_block bs" "bs \<noteq> []"
  shows "snd (foldl lscpu_line (f, [[]]) (concat (map (map field_line) bs))) = bs"
proof -
  obtain b cs where bs: "bs = b # cs" using assms(2) by (cases bs) auto
  obtain f' where "foldl lscpu_line (f, [] @ [[]]) (map field_line b) = (f', [] @ [b])"
    using lscpu_block_tail [of "[]" b f "[]"] assms(1) bs
    by (metis append_Nil core_block_def list.pred_inject(2) prod.exhaust_sel)
  then show ?thesis
    using lscpu_blocks_from [of b cs f' "[]"] assms(1) bs by simp
qed

section \<open>Properties\<close>

text \<open>
  Hybrid processors are counted by their clusters: when \<open>lscpu\<close> prints a block for each type
  of core, whatever their fields, the cores of all blocks are added up, and the model names are
  those of the blocks, each once; a machine never has less than one core.
\<close>

theorem hybrid_cores_add_up:
  assumes "splitlines stdout = concat (map (map field_line) bs)" "list_all core_block bs" "bs \<noteq> []"
    "parse_lscpu stdout = c"
  shows "lc_cores_per c = max (sum_list (map block_cores bs) div lc_sockets c) 1
    \<and> lc_model c = join '' + '' (model_names bs) \<and> 1 \<le> lc_cores_per c"
proof -
  obtain f where "lscpu_fields stdout = (f, bs)"
    using lscpu_blocks [OF assms(2,3), of "[]"] assms(1) unfolding lscpu_fields_def
    by (metis prod.exhaust_sel)
  then show ?thesis using assms(4) by (auto simp: parse_lscpu_def Let_def)
qed

definition demo_lscpu :: "field_map list" where
  "demo_lscpu = [[(''Model name'', ''A55''), (''Core(s) per cluster'', ''4'')],
     [(''Model name'', ''A76''), (''Core(s) per cluster'', ''2''), (''Cluster(s)'', ''2'')]]"

definition demo_lscpu_text :: string where
  "demo_lscpu_text = join [nl] (concat (map (map field_line) demo_lscpu))"

theorem hybrid_cores_add_up_witness:
  "lc_cores_per (parse_lscpu demo_lscpu_text) = 8 \<and> lc_model (parse_lscpu demo_lscpu_text) = ''A55 + A76''"
proof -
  have s: "splitlines demo_lscpu_text = concat (map (map field_line) demo_lscpu)" by code_simp
  have b: "list_all core_block demo_lscpu" "demo_lscpu \<noteq> []" by code_simp+
  have n: "lc_sockets (parse_lscpu demo_lscpu_text) = 1" "sum_list (map block_cores demo_lscpu) = 8"
    "join '' + '' (model_names demo_lscpu) = ''A55 + A76''" by code_simp+
  show ?thesis using hybrid_cores_add_up [OF s b refl] n by simp
qed

end
