(* ===== verification/Containers.thy ===== *)
theory Containers
  imports Pydantic Base Regex "HOL-Library.List_Lexorder" "HOL-Library.Char_ord" "HOL-Library.Product_Lexorder"
begin

text \<open>
  \<open>app/collectors/containers.py\<close>: the containers \<open>crictl\<close> lists, with the pods and statistics
  they are joined with, split into system services and workloads. The lemmas show that no
  container is lost or listed twice.
\<close>

section \<open>Sizes and ages\<close>

fun human_units :: "string list \<Rightarrow> rat \<Rightarrow> string" where
  "human_units [] n = format_f 1 n @ '' TB''"
| "human_units (u # us) n = (if \<bar>n\<bar> < 1024 then format_f 1 n @ '' '' @ u else human_units us (fdiv n 1024))"

definition human_bytes :: "int \<Rightarrow> string" where
  "human_bytes n = human_units [''B'', ''KB'', ''MB'', ''GB''] (of_int n)"

text \<open>Days, hours and minutes; a leading zero part is left out.\<close>

definition age_parts :: "int \<Rightarrow> string list" where
  "age_parts secs =
     (let days = secs div 86400; hours = secs mod 86400 div 3600; mins = secs mod 3600 div 60 in
      (if days \<noteq> 0 then [str_of_int days @ ''d''] else []) @ (if hours \<noteq> 0 then [str_of_int hours @ ''h''] else [])
      @ [str_of_int mins @ ''m''])"

definition uptime_from_created :: "rat \<Rightarrow> int \<Rightarrow> string" where
  "uptime_from_created now created_ns =
     (if created_ns \<le> 0 then []
      else (let secs = rat_trunc (fsub now (fdiv (of_int created_ns) 1000000000)) in
        if secs < 0 then [] else join '' '' (age_parts secs)))"

definition container_uptime :: "rat \<Rightarrow> json \<Rightarrow> string result" where
  "container_uptime now c =
     rbind (jget c ''state'' JNull) (\<lambda>state.
     if state \<noteq> JStr ''CONTAINER_RUNNING'' then Inr []
     else (case rbind (jget c ''createdAt'' (JInt 0)) jint of
         Inr ns \<Rightarrow> Inr (uptime_from_created now ns)
       | Inl e \<Rightarrow> if exn_cls e = TypeError \<or> is_value_error e then Inr [] else Inl e))"

section \<open>What crictl reports\<close>

definition cri_endpoint :: "config \<Rightarrow> string" where
  "cri_endpoint cf = ''unix://'' @ HOST_ROOT cf @ ''/run/containerd/containerd.sock''"

definition crictl :: "config \<Rightarrow> string list \<Rightarrow> string list" where
  "crictl cf args = [''crictl'', ''--runtime-endpoint'', cri_endpoint cf] @ args"

text \<open>The JSON a command prints; None when it fails, prints nothing or prints no JSON.\<close>

definition crictl_json :: "config \<Rightarrow> host \<Rightarrow> string list \<Rightarrow> json option" where
  "crictl_json cf h args = (case h_run h (crictl cf args) of (stdout, _, rc) \<Rightarrow>
     if rc \<noteq> 0 \<or> strip stdout = [] then None else json_loads stdout)"

text \<open>A value as the key of a dict or the element of a set: numbers that are equal are one key, and
  lists and dicts cannot be hashed.\<close>

definition dict_key :: "json \<Rightarrow> json result" where
  "dict_key v = (case v of
     JBool b \<Rightarrow> Inr (JInt (if b then 1 else 0))
   | JFloat (Fin q) \<Rightarrow> Inr (if of_int \<lfloor>q\<rfloor> = q then JInt \<lfloor>q\<rfloor> else v)
   | JList _ \<Rightarrow> Inl (Exn TypeError ''unhashable type'')
   | JObj _ \<Rightarrow> Inl (Exn TypeError ''unhashable type'')
   | _ \<Rightarrow> Inr v)"

definition in_names :: "string list \<Rightarrow> json \<Rightarrow> bool result" where
  "in_names names v = rbind (dict_key v) (\<lambda>k. Inr (k \<in> JStr ` set names))"

text \<open>\<open>v.get(a, {}).get(b, d)\<close>\<close>

definition jget2 :: "json \<Rightarrow> string \<Rightarrow> string \<Rightarrow> json \<Rightarrow> json result" where
  "jget2 v a b d = rbind (jget v a (JObj [])) (\<lambda>w. jget w b d)"

record pod =
  pod_name :: json
  pod_namespace :: json
  pod_state :: json

fun add_pods :: "json list \<Rightarrow> (json, pod) dict \<Rightarrow> (json, pod) dict result" where
  "add_pods [] pods = Inr pods"
| "add_pods (item # items) pods =
     rbind (jget item ''id'' (JStr [])) (\<lambda>pod_id.
     rbind (jget2 item ''metadata'' ''name'' (JStr [])) (\<lambda>name.
     rbind (jget2 item ''metadata'' ''namespace'' (JStr [])) (\<lambda>ns.
     rbind (jget item ''state'' (JStr [])) (\<lambda>state.
     rbind (dict_key pod_id) (\<lambda>k.
       add_pods items (dset k \<lparr>pod_name = name, pod_namespace = ns, pod_state = state\<rparr> pods))))))"

definition get_pods :: "config \<Rightarrow> host \<Rightarrow> (json, pod) dict result" where
  "get_pods cf h = (case crictl_json cf h [''pods'', ''-o'', ''json''] of
     None \<Rightarrow> Inr []
   | Some data \<Rightarrow> rbind (rbind (jget data ''items'' (JList [])) jiter) (\<lambda>items. add_pods items []))"

definition get_containers :: "config \<Rightarrow> host \<Rightarrow> json result" where
  "get_containers cf h = (case crictl_json cf h [''ps'', ''-a'', ''-o'', ''json''] of
     None \<Rightarrow> Inr (JList []) | Some data \<Rightarrow> jget data ''containers'' (JList []))"

text \<open>Of the statistics only the memory is read again.\<close>

record raw_stats =
  rs_cpu_nano :: json
  rs_memory_bytes :: json

fun add_stats :: "json list \<Rightarrow> (json, raw_stats) dict \<Rightarrow> (json, raw_stats) dict result" where
  "add_stats [] stats = Inr stats"
| "add_stats (item # items) stats =
     rbind (jget2 item ''attributes'' ''id'' (JStr [])) (\<lambda>cid.
     rbind (jget item ''cpu'' (JObj [])) (\<lambda>cpu.
     rbind (jget item ''memory'' (JObj [])) (\<lambda>mem.
     rbind (jget2 cpu ''usageCoreNanoSeconds'' ''value'' (JInt 0)) (\<lambda>nano.
     rbind (jget2 mem ''workingSetBytes'' ''value'' (JInt 0)) (\<lambda>bytes.
     rbind (dict_key cid) (\<lambda>k.
       add_stats items (dset k \<lparr>rs_cpu_nano = nano, rs_memory_bytes = bytes\<rparr> stats)))))))"

definition get_stats :: "config \<Rightarrow> host \<Rightarrow> (json, raw_stats) dict result" where
  "get_stats cf h = (case crictl_json cf h [''stats'', ''-o'', ''json''] of
     None \<Rightarrow> Inr []
   | Some data \<Rightarrow> rbind (rbind (jget data ''stats'' (JList [])) jiter) (\<lambda>items. add_stats items []))"

record container_stats =
  cst_cpu_percent :: rat
  cst_memory_bytes :: int
  cst_memory_human :: string

definition build_stats :: "(json, raw_stats) dict \<Rightarrow> json \<Rightarrow> container_stats result" where
  "build_stats stats_map container_id =
     rbind (dict_key container_id) (\<lambda>k.
     rbind (case dget stats_map k of None \<Rightarrow> Inr 0 | Some s \<Rightarrow> jint (rs_memory_bytes s)) (\<lambda>mem_bytes.
       Inr \<lparr>cst_cpu_percent = 0, cst_memory_bytes = mem_bytes, cst_memory_human = human_bytes mem_bytes\<rparr>))"

section \<open>System services and workloads\<close>

definition system_namespaces :: "string list" where
  "system_namespaces = [''kube-system'']"

definition system_container_names :: "string list" where
  "system_container_names = [''etcd'', ''kube-apiserver'', ''kube-scheduler'', ''kube-controller-manager'', ''kube-proxy'']"

record container =
  ct_pod_name :: string
  ct_namespace :: string
  ct_name :: string
  ct_id :: string
  ct_image :: string
  ct_state :: string
  ct_uptime :: string
  ct_created_at :: string
  ct_stats :: container_stats

text \<open>What both loops read first: identifier, name, pod, namespace and whether it is a system
  container.\<close>

record container_head =
  ch_id :: json
  ch_name :: json
  ch_pod :: "pod option"
  ch_namespace :: json
  ch_system :: bool

definition read_head :: "(json, pod) dict \<Rightarrow> json \<Rightarrow> container_head result" where
  "read_head pods c =
     rbind (jget c ''id'' (JStr [])) (\<lambda>cid.
     rbind (jget2 c ''metadata'' ''name'' (JStr [])) (\<lambda>name.
     rbind (rbind (jget c ''podSandboxId'' (JStr [])) dict_key) (\<lambda>pod_id.
     (let pod = dget pods pod_id; ns = (case pod of None \<Rightarrow> JStr [] | Some p \<Rightarrow> pod_namespace p) in
      rbind (in_names system_namespaces ns) (\<lambda>in_ns.
      rbind (if in_ns then Inr True else in_names system_container_names name) (\<lambda>is_system.
        Inr \<lparr>ch_id = cid, ch_name = name, ch_pod = pod, ch_namespace = ns, ch_system = is_system\<rparr>))))))"

definition image_ref :: "json \<Rightarrow> json result" where
  "image_ref c = rbind (jget c ''imageRef'' (JStr [])) (\<lambda>r.
     if truthy r then Inr r else jget2 c ''image'' ''image'' (JStr []))"

text \<open>\<open>image_ref.split("@")[0] if "@" in image_ref else image_ref\<close>\<close>

definition image_name :: "json \<Rightarrow> json result" where
  "image_name r = rbind (jmem ''@'' r) (\<lambda>has.
     if has then (case r of JStr s \<Rightarrow> Inr (JStr (before_char CHR ''@'' s))
         | _ \<Rightarrow> Inl (Exn AttributeError ''object has no attribute split''))
     else Inr r)"

text \<open>The rest of both loops: the fields of the model, then their validation. A system container is
  shown without its pod.\<close>

definition container_of :: "pyd \<Rightarrow> rat \<Rightarrow> (json, raw_stats) dict \<Rightarrow> json \<Rightarrow> container_head \<Rightarrow> container result" where
  "container_of pd now stats c ch =
     rbind (rbind (jget c ''createdAt'' (JInt 0)) jint) (\<lambda>created_ns.
     rbind (rbind (image_ref c) image_name) (\<lambda>image.
     rbind (jget c ''state'' (JStr [])) (\<lambda>state.
     rbind (container_uptime now c) (\<lambda>uptime.
     rbind (build_stats stats (ch_id ch)) (\<lambda>st.
     rbind (pd_str pd (if ch_system ch then JStr [] else (case ch_pod ch of None \<Rightarrow> JStr [] | Some p \<Rightarrow> pod_name p))) (\<lambda>pod.
     rbind (pd_str pd (if ch_system ch then JStr [] else ch_namespace ch)) (\<lambda>ns.
     rbind (pd_str pd (ch_name ch)) (\<lambda>name. rbind (pd_str pd (ch_id ch)) (\<lambda>cid.
     rbind (pd_str pd image) (\<lambda>img. rbind (pd_str pd state) (\<lambda>stt.
       Inr \<lparr>ct_pod_name = pod, ct_namespace = ns, ct_name = name, ct_id = cid, ct_image = img,
         ct_state = stt, ct_uptime = uptime, ct_created_at = str_of_int created_ns, ct_stats = st\<rparr>)))))))))))"

text \<open>One turn of a loop: the containers of the other kind are passed over.\<close>

definition keep_container :: "pyd \<Rightarrow> rat \<Rightarrow> (json, pod) dict \<Rightarrow> (json, raw_stats) dict \<Rightarrow> bool \<Rightarrow> json \<Rightarrow> container option result" where
  "keep_container pd now pods stats system c =
     rbind (read_head pods c) (\<lambda>ch.
     if ch_system ch \<noteq> system then Inr None
     else rbind (container_of pd now stats c ch) (\<lambda>x. Inr (Some x)))"

definition kept_containers :: "pyd \<Rightarrow> config \<Rightarrow> host \<Rightarrow> bool \<Rightarrow> container list result" where
  "kept_containers pd cf h system =
     rbind (get_containers cf h) (\<lambda>containers.
     rbind (get_pods cf h) (\<lambda>pods.
     rbind (get_stats cf h) (\<lambda>stats.
     rbind (jiter containers) (\<lambda>cs.
     rbind (rmap (keep_container pd (h_now h) pods stats system) cs) (\<lambda>rs. Inr (List.map_filter id rs))))))"

definition collect_system_containers :: "pyd \<Rightarrow> config \<Rightarrow> host \<Rightarrow> container list result" where
  "collect_system_containers pd cf h =
     rbind (kept_containers pd cf h True) (\<lambda>cs. Inr (sort_asc ct_name cs))"

definition workload_order :: "container \<Rightarrow> string \<times> string \<times> string" where
  "workload_order c = (ct_namespace c, ct_pod_name c, ct_name c)"

definition collect_workload_containers :: "pyd \<Rightarrow> config \<Rightarrow> host \<Rightarrow> container list result" where
  "collect_workload_containers pd cf h =
     rbind (kept_containers pd cf h False) (\<lambda>cs. Inr (sort_asc workload_order cs))"

record containers_overview =
  cv_system :: "container list"
  cv_workloads :: "container list"

definition collect_containers :: "pyd \<Rightarrow> config \<Rightarrow> host \<Rightarrow> containers_overview result" where
  "collect_containers pd cf h =
     rbind (collect_system_containers pd cf h) (\<lambda>s.
     rbind (collect_workload_containers pd cf h) (\<lambda>w. Inr \<lparr>cv_system = s, cv_workloads = w\<rparr>))"


section \<open>Neither lost nor listed twice\<close>

definition container_id :: "pyd \<Rightarrow> json \<Rightarrow> string result" where
  "container_id pd c = rbind (jget c ''id'' (JStr [])) (pd_str pd)"

lemma read_head_id: "read_head pods c = Inr ch \<Longrightarrow> jget c ''id'' (JStr []) = Inr (ch_id ch)"
  unfolding read_head_def Let_def by (elim rbindE) (drule sum.inject(2) [THEN iffD1], hypsubst, simp)

lemma container_of_id: "container_of pd now stats c ch = Inr x \<Longrightarrow> pd_str pd (ch_id ch) = Inr (ct_id x)"
  unfolding container_of_def by (elim rbindE) (drule sum.inject(2) [THEN iffD1], hypsubst, simp)

lemma keep_container_cases:
  assumes "keep_container pd now pods stats b c = Inr r"
  shows "\<exists>ch. read_head pods c = Inr ch
    \<and> (if ch_system ch = b then (\<exists>x. r = Some x \<and> container_id pd c = Inr (ct_id x)) else r = None)"
proof -
  obtain ch where ch: "read_head pods c = Inr ch"
      "(if ch_system ch \<noteq> b then Inr None
        else rbind (container_of pd now stats c ch) (\<lambda>x. Inr (Some x))) = Inr r"
    using assms unfolding keep_container_def rbind_Inr_iff by blast
  show ?thesis
  proof (cases "ch_system ch = b")
    case True
    then obtain x where "r = Some x" "container_of pd now stats c ch = Inr x"
      using ch(2) by (auto simp: rbind_Inr_iff)
    then show ?thesis
      using True ch(1) read_head_id [OF ch(1)] container_of_id by (auto simp: container_id_def)
  qed (use ch in simp)
qed

text \<open>The two loops over the same containers, one keeping what the other passes over.\<close>

lemma kept_once:
  assumes "rmap (keep_container pd now pods stats True) cs = Inr rs"
    "rmap (keep_container pd now pods stats False) cs = Inr ts"
  shows "\<exists>ids. rmap (container_id pd) cs = Inr ids
    \<and> mset (map ct_id (List.map_filter id rs)) + mset (map ct_id (List.map_filter id ts)) = mset ids"
  using assms
proof (induction cs arbitrary: rs ts)
  case Nil
  then show ?case by (simp add: map_filter_simps)
next
  case (Cons c cs)
  obtain r rs' where r: "keep_container pd now pods stats True c = Inr r" "rs = r # rs'"
      "rmap (keep_container pd now pods stats True) cs = Inr rs'"
    using Cons.prems(1) by (auto simp: rbind_Inr_iff)
  obtain t ts' where t: "keep_container pd now pods stats False c = Inr t" "ts = t # ts'"
      "rmap (keep_container pd now pods stats False) cs = Inr ts'"
    using Cons.prems(2) by (auto simp: rbind_Inr_iff)
  obtain ids where ids: "rmap (container_id pd) cs = Inr ids"
      "mset (map ct_id (List.map_filter id rs')) + mset (map ct_id (List.map_filter id ts')) = mset ids"
    using Cons.IH [OF r(3) t(3)] by blast
  obtain ch where ch: "read_head pods c = Inr ch" using keep_container_cases [OF r(1)] by blast
  have "\<exists>x. (r = Some x \<and> t = None \<or> r = None \<and> t = Some x) \<and> container_id pd c = Inr (ct_id x)"
    using keep_container_cases [OF r(1)] keep_container_cases [OF t(1)] ch by (cases "ch_system ch") auto
  then show ?case using ids unfolding r(2) t(2) by (auto simp: map_filter_simps id_def)
qed

text \<open>
  C24: Every container \<open>crictl\<close> reports is shown exactly once, either among the system services
  or among the workloads: the identifiers of the two lists together are the reported ones, however
  often each occurs. The services come in the order of their names, the workloads in that of
  namespace, pod and name.
\<close>

theorem containers_partitioned:
  assumes "collect_containers pd cf h = Inr ov"
  shows "\<exists>v cs ids. get_containers cf h = Inr v \<and> jiter v = Inr cs \<and> rmap (container_id pd) cs = Inr ids
    \<and> mset (map ct_id (cv_system ov @ cv_workloads ov)) = mset ids
    \<and> sorted (map ct_name (cv_system ov)) \<and> sorted (map workload_order (cv_workloads ov))"
proof -
  obtain v pods stats cs rs ts where p: "get_containers cf h = Inr v" "jiter v = Inr cs"
      "rmap (keep_container pd (h_now h) pods stats True) cs = Inr rs"
      "rmap (keep_container pd (h_now h) pods stats False) cs = Inr ts"
      "cv_system ov = sort_asc ct_name (List.map_filter id rs)"
      "cv_workloads ov = sort_asc workload_order (List.map_filter id ts)"
    using assms by (auto simp: collect_containers_def collect_system_containers_def
        collect_workload_containers_def kept_containers_def rbind_Inr_iff)
  obtain ids where ids: "rmap (container_id pd) cs = Inr ids"
      "mset (map ct_id (List.map_filter id rs)) + mset (map ct_id (List.map_filter id ts)) = mset ids"
    using kept_once [OF p(3,4)] by blast
  have "mset (map ct_id (cv_system ov @ cv_workloads ov)) = mset ids"
    using ids(2) unfolding p(5,6) by (simp add: asc.srt_mset)
  moreover have "sorted (map ct_name (cv_system ov))" "sorted (map workload_order (cv_workloads ov))"
    unfolding p(5,6) by (simp_all add: sort_asc_def)
  ultimately show ?thesis using p(1,2) ids(1) by blast
qed

definition demo_crictl :: "string list \<Rightarrow> string \<times> string \<times> int" where
  "demo_crictl cmd = (if ''ps'' \<in> set cmd then (replace_char CHR ''~'' [dquote]
       ''{~containers~: [{~id~: ~b~, ~metadata~: {~name~: ~web~}}, {~id~: ~a~, ~metadata~: {~name~: ~etcd~}}]}'', [], 0)
     else ([], [], 1))"

definition demo_containers :: containers_overview where
  "demo_containers = (let st = \<lparr>cst_cpu_percent = 0, cst_memory_bytes = 0, cst_memory_human = ''0.0 B''\<rparr>;
     c = (\<lambda>name cid. \<lparr>ct_pod_name = [], ct_namespace = [], ct_name = name, ct_id = cid, ct_image = [], ct_state = [],
       ct_uptime = [], ct_created_at = ''0'', ct_stats = st\<rparr>)
     in \<lparr>cv_system = [c ''etcd'' ''a''], cv_workloads = [c ''web'' ''b'']\<rparr>)"

lemma demo_collect: "collect_containers strict_pyd demo_config (null_host\<lparr>h_run := demo_crictl\<rparr>) = Inr demo_containers"
  by code_simp

theorem containers_partitioned_witness:
  "\<exists>v cs ids. get_containers demo_config (null_host\<lparr>h_run := demo_crictl\<rparr>) = Inr v \<and> jiter v = Inr cs
    \<and> rmap (container_id strict_pyd) cs = Inr ids
    \<and> mset (map ct_id (cv_system demo_containers @ cv_workloads demo_containers)) = mset ids"
  using containers_partitioned [OF demo_collect] by blast

end
