(* ===== verification/Node.thy ===== *)
theory Node
  imports Lscpu Memory Containers
begin

text \<open>
  \<open>app/collectors/node.py\<close>: the identity of the node, with its uptime cut into days, hours and
  minutes by floating point division, and the addresses of its own interfaces. The lemmas show
  that the cutting is exact for every uptime below \<open>2 ^ 53\<close> seconds.
\<close>

section \<open>Floor division of floats\<close>

text \<open>
  \<open>x % y\<close> and \<open>x // y\<close> for a positive \<open>y\<close>, as the interpreter computes them: the remainder
  is that of \<open>fmod\<close>, which is exact, and the quotient is rounded before it is floored.
\<close>

definition fmod :: "rat \<Rightarrow> rat \<Rightarrow> rat" where
  "fmod x y = x - y * of_int (rat_trunc (x / y))"

definition float_mod :: "rat \<Rightarrow> rat \<Rightarrow> rat" where
  "float_mod x y = (let m = fmod x y in if m < 0 then fadd m y else m)"

definition float_floordiv :: "rat \<Rightarrow> rat \<Rightarrow> int" where
  "float_floordiv x y =
     (let m = fmod x y; d = fdiv (fsub x m) y; d' = (if m < 0 then fsub d 1 else d) in
      if 1 / 2 < fsub d' (of_int \<lfloor>d'\<rfloor>) then \<lfloor>d'\<rfloor> + 1 else \<lfloor>d'\<rfloor>)"

lemma floor_divide_bounds:
  assumes "0 < (y :: rat)"
  shows "of_int \<lfloor>x / y\<rfloor> * y \<le> x" "x < (of_int \<lfloor>x / y\<rfloor> + 1) * y"
proof -
  have "of_int \<lfloor>x / y\<rfloor> \<le> x / y" "x / y < of_int \<lfloor>x / y\<rfloor> + 1" by linarith+
  then show "of_int \<lfloor>x / y\<rfloor> * y \<le> x" "x < (of_int \<lfloor>x / y\<rfloor> + 1) * y"
    using assms by (simp_all only: pos_le_divide_eq pos_divide_less_eq)
qed

lemma fmod_floor:
  assumes "0 \<le> x" "0 < y"
  shows "x = y * of_int \<lfloor>x / y\<rfloor> + fmod x y" "0 \<le> fmod x y" "fmod x y < y"
proof -
  have q: "0 \<le> x / y" using assms by simp
  then show "x = y * of_int \<lfloor>x / y\<rfloor> + fmod x y" by (simp add: fmod_def rat_trunc_def)
  show "0 \<le> fmod x y" "fmod x y < y"
    using q floor_divide_bounds [OF assms(2), of x] by (simp_all add: fmod_def rat_trunc_def algebra_simps)
qed

lemma float_mod_floor: "0 \<le> x \<Longrightarrow> 0 < y \<Longrightarrow> float_mod x y = fmod x y"
  using fmod_floor(2) [of x y] by (simp add: float_mod_def Let_def)

text \<open>Rounding cannot change a quotient of integers this small.\<close>

lemma float_floordiv_floor:
  assumes "0 \<le> x" "x < 2 ^ 53" "0 < n"
  shows "float_floordiv x (of_int n) = \<lfloor>x / of_int n\<rfloor>"
proof -
  let ?y = "of_int n :: rat" and ?k = "\<lfloor>x / of_int n\<rfloor>"
  have y: "0 < ?y" using assms(3) by simp
  note f = fmod_floor [OF assms(1) y]
  have k0: "0 \<le> ?k" using assms(1) y by simp
  have whole: "x - fmod x ?y = of_int (n * ?k)" using f(1) by simp
  have "of_int (n * ?k) \<le> x" using f(2) whole by linarith
  then have lt: "of_int (n * ?k) < (of_int (2 ^ 53) :: rat)" using assms(2) by simp
  then have small: "n * ?k < 2 ^ 53" unfolding of_int_less_iff .
  have kn: "?k \<le> n * ?k" using k0 assms(3) by (simp add: mult_le_cancel_right1)
  have nk: "0 \<le> n * ?k" using k0 assms(3) by simp
  have "fsub x (fmod x ?y) = of_int (n * ?k)"
    unfolding fsub_def whole using small nk by (intro fl_of_int) simp
  moreover have "of_int (n * ?k) / ?y = (of_int ?k :: rat)" using y by simp
  moreover have "fl (of_int ?k) = (of_int ?k :: rat)" 
    using fl_of_int [of ?k] small kn k0 by linarith
  ultimately have "fdiv (fsub x (fmod x ?y)) ?y = of_int ?k" by (simp only: fdiv_def)
  then show ?thesis using f(2) by (simp add: float_floordiv_def Let_def fsub_def)
qed

section \<open>The node\<close>

record ip_address =
  ip_interface :: string
  ip_address :: string
  ip_prefix_length :: int
  ip_family :: string

record node_summary =
  nd_hostname :: string
  nd_k8s_name :: "string option"
  nd_talos_version :: "string option"
  nd_os_name :: string
  nd_kernel :: string
  nd_uptime_seconds :: rat
  nd_uptime_human :: string
  nd_load :: "pyfloat \<times> pyfloat \<times> pyfloat"
  nd_cpu_model :: string
  nd_cpu_cores :: int
  nd_cpu_threads :: int
  nd_ram_gb :: rat
  nd_addresses :: "ip_address list"

definition skipped_names :: "string list" where
  "skipped_names = [''lo'', ''cni0'', ''kube-ipvs0'', ''nodelocaldns'']"

definition skipped_prefixes :: "string list" where
  "skipped_prefixes = [''veth'', ''cali'', ''lxc'', ''cilium_'', ''flannel'', ''vxlan'', ''tunl'', ''genev'']"

definition pod_interface :: "json \<Rightarrow> bool result" where
  "pod_interface name = rbind (in_names skipped_names name) (\<lambda>skip.
     if skip then Inr True
     else (case name of JStr s \<Rightarrow> Inr (startswith_any s skipped_prefixes)
       | _ \<Rightarrow> Inl (Exn AttributeError ''object has no attribute startswith'')))"

definition address_of :: "pyd \<Rightarrow> json \<Rightarrow> json \<Rightarrow> ip_address result" where
  "address_of pd name info =
     rbind (jget info ''local'' (JStr [])) (\<lambda>a. rbind (jget info ''prefixlen'' (JInt 0)) (\<lambda>p.
     rbind (jget info ''family'' (JStr [])) (\<lambda>f.
     rbind (pd_str pd name) (\<lambda>n. rbind (pd_str pd a) (\<lambda>a. rbind (pd_int pd p) (\<lambda>p. rbind (pd_str pd f) (\<lambda>f.
       Inr \<lparr>ip_interface = n, ip_address = a, ip_prefix_length = p, ip_family = f\<rparr>)))))))"

definition iface_addresses :: "pyd \<Rightarrow> json \<Rightarrow> ip_address list result" where
  "iface_addresses pd iface =
     rbind (jget iface ''ifname'' (JStr [])) (\<lambda>name.
     rbind (pod_interface name) (\<lambda>skip.
     if skip then Inr []
     else rbind (rbind (jget iface ''addr_info'' (JList [])) jiter) (rmap (address_of pd name))))"

definition collect_ip_addresses :: "pyd \<Rightarrow> host \<Rightarrow> ip_address list result" where
  "collect_ip_addresses pd h = (case h_run h [''ip'', ''-j'', ''addr'', ''show''] of (stdout, _, rc) \<Rightarrow>
     if rc \<noteq> 0 \<or> strip stdout = [] then Inr []
     else (case json_loads stdout of None \<Rightarrow> Inr []
       | Some data \<Rightarrow> rbind (rbind (jiter data) (rmap (iface_addresses pd))) (\<lambda>xs. Inr (concat xs))))"

definition host_name :: "config \<Rightarrow> host \<Rightarrow> string" where
  "host_name cf h = (let name = strip (read_file h (HOST_ROOT cf @ ''/etc/hostname'')) in
     if name \<noteq> [] then name
     else (case h_run h [''hostname''] of (stdout, _, _) \<Rightarrow> if strip stdout = [] then ''unknown'' else strip stdout))"

definition pretty_name :: "string \<Rightarrow> string" where
  "pretty_name os_release =
     (case List.find (\<lambda>l. startswith l ''PRETTY_NAME='') (splitlines os_release) of
        None \<Rightarrow> ''Unknown'' | Some l \<Rightarrow> strip_chars (\<lambda>c. c = dquote) (after_char CHR ''='' l))"

definition ram_kb :: "string \<Rightarrow> int result" where
  "ram_kb text = (case List.find (\<lambda>l. startswith l ''MemTotal:'') (splitlines text) of
     None \<Rightarrow> Inr 0 | Some l \<Rightarrow> number_in l)"

text \<open>A days or hours part of zero is left out. An uptime that is not finite cannot be cut.\<close>

definition uptime_text :: "int \<Rightarrow> int \<Rightarrow> int \<Rightarrow> string" where
  "uptime_text days hours minutes = join '' ''
     ((if days \<noteq> 0 then [str_of_int days @ ''d''] else []) @ (if hours \<noteq> 0 then [str_of_int hours @ ''h''] else [])
      @ [str_of_int minutes @ ''m''])"

definition uptime_human :: "rat \<Rightarrow> string" where
  "uptime_human u = uptime_text (float_floordiv u 86400) (float_floordiv (float_mod u 86400) 3600)
     (float_floordiv (float_mod u 3600) 60)"

definition node_uptime :: "string \<Rightarrow> rat result" where
  "node_uptime uptime_raw =
     (if uptime_raw = [] then Inr 0
      else (case split_ws uptime_raw of
          [] \<Rightarrow> Inl (Exn IndexError ''list index out of range'')
        | w # _ \<Rightarrow> rbind (py_float w) (\<lambda>f. case f of
              Fin u \<Rightarrow> Inr u | _ \<Rightarrow> Inl (Exn ValueError ''cannot convert float NaN to integer''))))"

definition load_part :: "string list \<Rightarrow> nat \<Rightarrow> pyfloat result" where
  "load_part load_parts i = (if i < length load_parts then py_float (load_parts ! i) else Inr (Fin 0))"

definition collect_node_info :: "pyd \<Rightarrow> config \<Rightarrow> host \<Rightarrow> node_summary result" where
  "collect_node_info pd cf h =
     (case h_run h [''uname'', ''-r''] of (uname, _, _) \<Rightarrow>
      case h_run h [''lscpu''] of (stdout, _, _) \<Rightarrow>
      (let cpu = parse_lscpu stdout; load_parts = split_ws (read_file h (HOST_PROC cf @ ''/loadavg''));
           version = strip (read_file h (HOST_ROOT cf @ ''/etc/talos/version'')) in
       rbind (ram_kb (read_file h (HOST_PROC cf @ ''/meminfo''))) (\<lambda>ram.
       rbind (node_uptime (read_file h (HOST_PROC cf @ ''/uptime''))) (\<lambda>u.
       rbind (load_part load_parts 0) (\<lambda>l1. rbind (load_part load_parts 1) (\<lambda>l5. rbind (load_part load_parts 2) (\<lambda>l15.
       rbind (collect_ip_addresses pd h) (\<lambda>ips.
         Inr \<lparr>nd_hostname = host_name cf h, nd_k8s_name = h_env h ''KUBERNETES_NODE_NAME'',
           nd_talos_version = (if version = [] then None else Some version),
           nd_os_name = pretty_name (read_file h (HOST_ROOT cf @ ''/etc/os-release'')), nd_kernel = strip uname,
           nd_uptime_seconds = u, nd_uptime_human = uptime_human u, nd_load = (l1, l5, l15),
           nd_cpu_model = lc_model cpu, nd_cpu_cores = lc_sockets cpu * lc_cores_per cpu,
           nd_cpu_threads = lc_threads cpu, nd_ram_gb = gib ram, nd_addresses = ips\<rparr>))))))))"

section \<open>The text of the uptime\<close>

lemma uptime_human_floor:
  assumes "0 \<le> u" "u < 2 ^ 53"
  shows "uptime_human u = uptime_text \<lfloor>u / 86400\<rfloor> \<lfloor>fmod u 86400 / 3600\<rfloor> \<lfloor>fmod u 3600 / 60\<rfloor>"
proof -
  have m: "0 \<le> fmod u 86400 \<and> fmod u 86400 < 86400" "0 \<le> fmod u 3600 \<and> fmod u 3600 < 3600"
    using fmod_floor(2,3) [OF assms(1)] by simp_all
  have "float_floordiv u 86400 = \<lfloor>u / 86400\<rfloor>"
    "float_floordiv (fmod u 86400) 3600 = \<lfloor>fmod u 86400 / 3600\<rfloor>"
    "float_floordiv (fmod u 3600) 60 = \<lfloor>fmod u 3600 / 60\<rfloor>"
    using float_floordiv_floor [OF assms, of 86400] float_floordiv_floor [of "fmod u 86400" 3600]
      float_floordiv_floor [of "fmod u 3600" 60] m by simp_all
  then show ?thesis using assms(1) by (simp add: uptime_human_def float_mod_floor)
qed

lemma uptime_split:
  assumes "0 \<le> (u :: rat)" "d = \<lfloor>u / 86400\<rfloor>" "k = \<lfloor>fmod u 86400 / 3600\<rfloor>" "m = \<lfloor>fmod u 3600 / 60\<rfloor>"
  shows "0 \<le> d \<and> 0 \<le> k \<and> k < 24 \<and> 0 \<le> m \<and> m < 60
    \<and> of_int (86400 * d + 3600 * k + 60 * m) \<le> u \<and> u < of_int (86400 * d + 3600 * k + 60 * m + 60)"
proof -
  let ?a = "fmod u 86400" and ?b = "fmod u 3600"
  have a: "u = 86400 * of_int d + ?a" "0 \<le> ?a" "?a < 86400"
    using fmod_floor [OF assms(1), of 86400] assms(2) by simp_all
  have b: "u = 3600 * of_int \<lfloor>u / 3600\<rfloor> + ?b" "0 \<le> ?b" "?b < 3600"
    using fmod_floor [OF assms(1), of 3600] by simp_all
  have k: "of_int k * 3600 \<le> ?a" "?a < (of_int k + 1) * 3600"
    using floor_divide_bounds [of 3600 ?a] unfolding assms(3) by simp_all
  have m: "of_int m * 60 \<le> ?b" "?b < (of_int m + 1) * 60"
    using floor_divide_bounds [of 60 ?b] unfolding assms(4) by simp_all
  have "\<lfloor>u / 3600\<rfloor> = 24 * d + k"
    by (rule floor_unique) (use a(1) k in \<open>simp_all add: field_simps\<close>)
  then have u: "u = of_int (86400 * d + 3600 * k) + ?b" using b(1) by simp
  have "0 \<le> d" "0 \<le> k" "0 \<le> m" "k < 24" "m < 60"
    using assms(1) a b unfolding assms(2-4) by (simp_all add: floor_less_iff divide_less_eq)
  then show ?thesis using u m by simp
qed

text \<open>
  C35: The uptime shown is exact to the minute: whatever uptime below \<open>2 ^ 53\<close> seconds the kernel
  reports, the days, hours and minutes of the text, cut out of a float by floating point division,
  are the whole ones, with fewer than 24 hours and fewer than 60 minutes beside the days.
\<close>

theorem uptime_exact:
  assumes "collect_node_info pd cf h = Inr nd" "0 \<le> nd_uptime_seconds nd" "nd_uptime_seconds nd < 2 ^ 53"
  shows "\<exists>days hours minutes. nd_uptime_human nd = uptime_text days hours minutes
    \<and> 0 \<le> days \<and> 0 \<le> hours \<and> hours < 24 \<and> 0 \<le> minutes \<and> minutes < 60
    \<and> of_int (86400 * days + 3600 * hours + 60 * minutes) \<le> nd_uptime_seconds nd
    \<and> nd_uptime_seconds nd < of_int (86400 * days + 3600 * hours + 60 * minutes + 60)"
proof -
  have "nd_uptime_human nd = uptime_human (nd_uptime_seconds nd)"
    using assms(1) unfolding collect_node_info_def Let_def prod.case_eq_if
    by (elim rbindE) (drule sum.inject(2) [THEN iffD1], hypsubst, simp)
  then show ?thesis
    using uptime_human_floor [OF assms(2,3)] uptime_split [OF assms(2) refl refl refl] by metis
qed

definition demo_uptime_host :: host where
  "demo_uptime_host = null_host\<lparr>h_read := (\<lambda>p. if p = ''/host-proc/uptime'' then Some ''90061.5 1'' else None)\<rparr>"

lemma demo_node_parts:
  "ram_kb (read_file demo_uptime_host (HOST_PROC demo_config @ ''/meminfo'')) = Inr 0"
  "node_uptime (read_file demo_uptime_host (HOST_PROC demo_config @ ''/uptime'')) = Inr (180123 / 2)"
  "load_part (split_ws (read_file demo_uptime_host (HOST_PROC demo_config @ ''/loadavg''))) i = Inr (Fin 0)"
  "collect_ip_addresses strict_pyd demo_uptime_host = Inr []"
proof -
  have "split_ws (read_file demo_uptime_host (HOST_PROC demo_config @ ''/loadavg'')) = []" by code_simp
  then show "load_part (split_ws (read_file demo_uptime_host (HOST_PROC demo_config @ ''/loadavg''))) i = Inr (Fin 0)"
    by (simp add: load_part_def)
qed code_simp+

lemma demo_node: "\<exists>nd. collect_node_info strict_pyd demo_config demo_uptime_host = Inr nd \<and> nd_uptime_seconds nd = 180123 / 2"
  unfolding collect_node_info_def Let_def demo_node_parts rbind_simps prod.case_eq_if by simp

theorem uptime_exact_witness:
  "\<exists>nd days hours minutes. collect_node_info strict_pyd demo_config demo_uptime_host = Inr nd
    \<and> nd_uptime_human nd = uptime_text days hours minutes \<and> hours < 24 \<and> minutes < 60
    \<and> of_int (86400 * days + 3600 * hours + 60 * minutes) \<le> (180123 / 2 :: rat)"
proof -
  obtain nd where nd: "collect_node_info strict_pyd demo_config demo_uptime_host = Inr nd" "nd_uptime_seconds nd = 180123 / 2"
    using demo_node by blast
  have "0 \<le> nd_uptime_seconds nd" "nd_uptime_seconds nd < 2 ^ 53" using nd(2) by simp_all
  from uptime_exact [OF nd(1) this] nd show ?thesis by metis
qed

end
