(* ===== verification/Devices.thy ===== *)
theory Devices
  imports Blocks Pydantic Regex
begin

text \<open>
  The collectors that list devices from the output of one tool: \<open>app/collectors/pci.py\<close>,
  \<open>usb.py\<close>, \<open>efi.py\<close> and \<open>gpu.py\<close>. The lemmas relate the PCI loop to the blocks of
  \<open>lspci\<close>, and show what becomes of the sentinels \<open>nvidia-smi\<close> prints in place of numbers.
\<close>

section \<open>PCI\<close>

record pci_device =
  pc_slot :: string
  pc_class_name :: string
  pc_vendor :: string
  pc_device :: string
  pc_subsystem_vendor :: string
  pc_subsystem_device :: string
  pc_rev :: string
  pc_driver :: string

definition pci_of :: "(string, string) dict \<Rightarrow> pci_device" where
  "pci_of current = \<lparr>pc_slot = dget_or current ''Slot'' [], pc_class_name = dget_or current ''Class'' [],
     pc_vendor = dget_or current ''Vendor'' [], pc_device = dget_or current ''Device'' [],
     pc_subsystem_vendor = dget_or current ''SVendor'' [], pc_subsystem_device = dget_or current ''SDevice'' [],
     pc_rev = dget_or current ''Rev'' [], pc_driver = dget_or current ''Driver'' []\<rparr>"

definition flush_pci :: "pci_device block_state \<Rightarrow> pci_device list" where
  "flush_pci st = (case st of (current, devices) \<Rightarrow>
     if current \<noteq> [] then devices @ [pci_of current] else devices)"

definition colon_tab :: string where
  "colon_tab = [CHR '':'', tab]"

definition pci_line :: "pci_device block_state \<Rightarrow> string \<Rightarrow> pci_device block_state" where
  "pci_line st line = (let stripped = strip line in
     if stripped = [] then ([], flush_pci st)
     else (case partition_str colon_tab stripped of (key, found, val) \<Rightarrow>
       if found then (dset (strip key) (strip val) (fst st), snd st) else st))"

definition collect_pci :: "host \<Rightarrow> pci_device list" where
  "collect_pci h = (case h_run h [''lspci'', ''-vmm'', ''-k''] of (stdout, _, rc) \<Rightarrow>
     if rc \<noteq> 0 then [] else flush_pci (foldl pci_line ([], []) (splitlines stdout)))"

definition pci_entry :: "string \<Rightarrow> (string \<times> string) option" where
  "pci_entry line = (case partition_str colon_tab (strip line) of (key, found, val) \<Rightarrow>
     if found then Some (strip key, strip val) else None)"

definition emit_pci :: "(string, string) dict \<Rightarrow> pci_device option" where
  "emit_pci d = (if d \<noteq> [] then Some (pci_of d) else None)"

interpretation pcis: block_stream pci_line flush_pci "\<lambda>l. strip l = []" pci_entry emit_pci
  by unfold_locales
    (auto simp: pci_line_def flush_pci_def pci_entry_def add_entry_def emit_pci_def Let_def List.map_filter_def
      split: prod.splits)

section \<open>USB\<close>

record usb_device =
  us_bus :: string
  us_device :: string
  us_id :: string
  us_name :: string

definition lsusb_re :: regex where
  "lsusb_re = rseq [rlit ''Bus'', rplus rspace, RGroup 1 (rplus rdigit), rplus rspace, rlit ''Device'',
     rplus rspace, RGroup 2 (rplus rdigit), rlit '':'', rplus rspace, rlit ''ID'', rplus rspace,
     RGroup 3 (rplus rnonspace), RStar rspace, RGroup 4 rdots]"

definition usb_line :: "string \<Rightarrow> usb_device option" where
  "usb_line line = (case re_match False lsusb_re (strip line) of
     None \<Rightarrow> None
   | Some (g, _) \<Rightarrow> Some \<lparr>us_bus = grp g 1, us_device = grp g 2, us_id = grp g 3, us_name = strip (grp g 4)\<rparr>)"

definition collect_usb :: "host \<Rightarrow> usb_device list" where
  "collect_usb h = (case h_run h [''lsusb''] of (stdout, _, rc) \<Rightarrow>
     if rc \<noteq> 0 then [] else List.map_filter usb_line (splitlines stdout))"

section \<open>EFI boot entries\<close>

record efi_boot_entry =
  eb_number :: string
  eb_label :: string
  eb_active :: bool
  eb_path :: string

record efi_info =
  ef_boot_current :: "string option"
  ef_boot_order :: "string list"
  ef_entries :: "efi_boot_entry list"
  ef_timeout :: "string option"

definition efi_blank :: efi_info where
  "efi_blank = \<lparr>ef_boot_current = None, ef_boot_order = [], ef_entries = [], ef_timeout = None\<rparr>"

definition rhex :: regex where
  "rhex = RSet False [CRange CHR ''0'' CHR ''9'', CRange CHR ''A'' CHR ''F'', CRange CHR ''a'' CHR ''f'']"

definition boot_re :: regex where
  "boot_re = rseq [RBol, rlit ''Boot'', rtimes 4 rhex]"

definition boot_entry_re :: regex where
  "boot_entry_re = rseq [RBol, rlit ''Boot'', RGroup 1 (rtimes 4 rhex), RGroup 2 (ropt (rchr CHR ''*'')),
     rplus rspace, RGroup 3 (RLazy RAny), ropt (RGroup 4 (RSeq (rchr tab) rdots)), REol]"

definition boot_entry :: "string \<Rightarrow> efi_boot_entry option" where
  "boot_entry line = (case re_match False boot_entry_re line of
     None \<Rightarrow> None
   | Some (g, _) \<Rightarrow> Some \<lparr>eb_number = grp g 1, eb_label = strip (grp g 3),
       eb_active = (grp g 2 = ''*''),
       eb_path = (case dget g 4 of None \<Rightarrow> [] | Some p \<Rightarrow> if p = [] then [] else strip p)\<rparr>)"

definition efi_line :: "efi_info \<Rightarrow> string \<Rightarrow> efi_info" where
  "efi_line info raw = (let line = strip raw in
     if startswith line ''BootCurrent:'' then info\<lparr>ef_boot_current := Some (strip (after_char CHR '':'' line))\<rparr>
     else if startswith line ''BootOrder:''
     then info\<lparr>ef_boot_order := map strip (split_char CHR '','' (strip (after_char CHR '':'' line)))\<rparr>
     else if startswith line ''Timeout:'' then info\<lparr>ef_timeout := Some (strip (after_char CHR '':'' line))\<rparr>
     else if re_match False boot_re line \<noteq> None
     then (case boot_entry line of None \<Rightarrow> info | Some e \<Rightarrow> info\<lparr>ef_entries := ef_entries info @ [e]\<rparr>)
     else info)"

definition efibootmgr_output :: "host \<Rightarrow> string option" where
  "efibootmgr_output h = (case h_run h [''efibootmgr'', ''-v''] of (out, _, rc) \<Rightarrow>
     if rc = 0 then Some out
     else (case h_run h [''efibootmgr''] of (out2, _, rc2) \<Rightarrow> if rc2 = 0 then Some out2 else None))"

definition collect_efi :: "host \<Rightarrow> efi_info" where
  "collect_efi h = (case efibootmgr_output h of
     None \<Rightarrow> efi_blank | Some out \<Rightarrow> foldl efi_line efi_blank (splitlines out))"

section \<open>GPUs\<close>

record gpu_info =
  gp_index :: int
  gp_name :: string
  gp_driver_version :: string
  gp_memory_total_mb :: int
  gp_memory_used_mb :: int
  gp_temperature_c :: "int option"
  gp_utilization_percent :: "int option"
  gp_power_draw_w :: "rat option"

text \<open>\<open>_num(val)\<close> and \<open>_num(val, int)\<close>: nan and the infinities become None.\<close>

definition num_float :: "string \<Rightarrow> rat option" where
  "num_float val = (case float_of_str val of Some (Fin q) \<Rightarrow> Some q | _ \<Rightarrow> None)"

definition num_int :: "string \<Rightarrow> int option" where
  "num_int val = map_option rat_trunc (num_float val)"

definition nvidia_smi_cmd :: "string list" where
  "nvidia_smi_cmd = [''nsenter'', ''--target'', ''1'', ''--mount'', ''--uts'', ''--ipc'', ''--net'', ''--pid'', ''--'',
     ''nvidia-smi'',
     ''--query-gpu=index,name,driver_version,memory.total,memory.used,temperature.gpu,utilization.gpu,power.draw'',
     ''--format=csv,noheader,nounits'']"

definition gpu_line :: "string \<Rightarrow> gpu_info option" where
  "gpu_line line = (let parts = map strip (split_char CHR '','' line) in
     if length parts < 8 then None
     else (case int_of_str (parts ! 0) of
         None \<Rightarrow> None
       | Some i \<Rightarrow> Some \<lparr>gp_index = i, gp_name = parts ! 1, gp_driver_version = parts ! 2,
           gp_memory_total_mb = opt_default 0 (num_int (parts ! 3)),
           gp_memory_used_mb = opt_default 0 (num_int (parts ! 4)),
           gp_temperature_c = num_int (parts ! 5), gp_utilization_percent = num_int (parts ! 6),
           gp_power_draw_w = num_float (parts ! 7)\<rparr>))"

definition collect_gpus :: "host \<Rightarrow> gpu_info list" where
  "collect_gpus h = (case h_run h nvidia_smi_cmd of (stdout, _, rc) \<Rightarrow>
     if rc \<noteq> 0 then [] else List.map_filter gpu_line (splitlines (strip stdout)))"

section \<open>Properties\<close>

lemma digits_ok_hd: "digits_ok (c # s) \<Longrightarrow> is_decimal c"
  by (cases s) auto

lemma sentinel_no_float:
  assumes "startswith s ''[''" "strip s = s"
  shows "num_float s = None" "num_int s = None"
proof -
  obtain u where s: "s = CHR ''['' # u" using assms(1) by (auto simp: startswith_iff)
  have l: "lower s = CHR ''['' # lower u" by (simp add: s lower_def lower_char_def cp_def)
  have "\<not> digits_ok (CHR ''['' # v)" for v
    using digits_ok_hd by (fastforce simp: is_decimal_def cp_def)
  then have "parse_decimal (CHR ''['' # lower u) = None"
    by (simp add: parse_decimal_def Let_def before_char_def opt_digits_def)
  then show "num_float s = None" using l assms(2)
    by (simp add: num_float_def float_of_str_def Let_def)
  then show "num_int s = None" by (simp add: num_int_def)
qed

text \<open>
  The PCI devices are those of the blocks \<open>lspci\<close> prints: cutting its output at the blank
  lines, each block that has a field gives one device, read from the fields of that block alone.
\<close>

theorem pci_of_blocks:
  "collect_pci h = (case h_run h [''lspci'', ''-vmm'', ''-k''] of (stdout, _, rc) \<Rightarrow>
     if rc \<noteq> 0 then []
     else map pci_of (filter (\<lambda>d. d \<noteq> []) (map (block_of pci_entry)
            (split_at (\<lambda>l. strip l = []) (splitlines stdout)))))"
proof -
  have "List.map_filter emit_pci ds = map pci_of (filter (\<lambda>d. d \<noteq> []) ds)" for ds
    by (induction ds) (auto simp: List.map_filter_def emit_pci_def)
  then show ?thesis
    unfolding collect_pci_def pcis.run_blocks by (simp split: prod.splits)
qed

text \<open>
  A GPU stays in the list whatever its readings: a line with all the fields whose index is a
  number gives a GPU of that index and name, and a reading given as a sentinel in brackets, such
  as \<open>[N/A]\<close> or \<open>[GPU is lost]\<close>, is unknown rather than zero.
\<close>

theorem gpu_sentinels:
  assumes "map strip (split_char CHR '','' line) = parts" "8 \<le> length parts" "int_of_str (parts ! 0) = Some i"
  shows "\<exists>g. gpu_line line = Some g \<and> gp_index g = i \<and> gp_name g = parts ! 1
    \<and> (startswith (parts ! 5) ''['' \<longrightarrow> gp_temperature_c g = None)
    \<and> (startswith (parts ! 6) ''['' \<longrightarrow> gp_utilization_percent g = None)
    \<and> (startswith (parts ! 7) ''['' \<longrightarrow> gp_power_draw_w g = None)"
proof -
  have st: "strip (parts ! n) = parts ! n" if "n < 8" for n
  proof -
    have "parts ! n = strip (split_char CHR '','' line ! n)"
      using assms(1,2) that by (metis length_map nth_map order_less_le_trans)
    then show ?thesis by simp
  qed
  show ?thesis
    using assms sentinel_no_float st [of 5] st [of 6] st [of 7]
    by (simp add: gpu_line_def Let_def)
qed

definition demo_gpu :: string where
  "demo_gpu = ''0, T4, 5, 16, 1, [N/A], 7, [Unknown Error]''"

theorem gpu_sentinels_witness:
  "\<exists>g. gpu_line demo_gpu = Some g \<and> gp_index g = 0 \<and> gp_temperature_c g = None \<and> gp_power_draw_w g = None"
proof -
  let ?p = "[''0'', ''T4'', ''5'', ''16'', ''1'', ''[N/A]'', ''7'', ''[Unknown Error]'']"
  have "map strip (split_char CHR '','' demo_gpu) = ?p" "8 \<le> length ?p" "int_of_str (?p ! 0) = Some 0"
    by code_simp+
  from gpu_sentinels [OF this] show ?thesis by auto
qed

end
