(* ===== verification/Redact.thy ===== *)
theory Redact
  imports Regex
begin

text \<open>
  The redaction of command lines in \<open>app/collectors/processes.py\<close>. The lemmas follow the
  backtracking matcher through the patterns for an arbitrary secret: whatever it is, a token given
  to a flag, a bearer token and a password in a URL come out as three stars.
\<close>

section \<open>Patterns\<close>

definition redacted :: string where
  "redacted = ''***''"

definition ralts :: "string list \<Rightarrow> regex" where
  "ralts ws = ralt (map rlit ws)"

definition authorization_scheme :: regex where
  "authorization_scheme = RGroup 1 (rseq [rlit ''authorization:'', RStar rspace,
     ropt (rseq [ralts [''bearer'', ''basic'', ''token'', ''digest'', ''negotiate'', ''bot''], rplus rspace])])"

definition authorization_re :: regex where
  "authorization_re = rseq [authorization_scheme, rplus rnonspace]"

definition bearer_re :: regex where
  "bearer_re = rseq [RGroup 1 (rseq [RWordB, rlit ''bearer'', rplus rspace]), rplus rnonspace]"

definition word_dash :: regex where
  "word_dash = RSet False [CWord, CChar CHR ''-'']"

definition flag_name :: regex where
  "flag_name = RGroup 1 (rseq [rchr CHR ''-'', ropt (rchr CHR ''-''), RStar word_dash,
     ralts [''token'', ''password'', ''passwd'', ''secret'']])"

definition flag_sep :: regex where
  "flag_sep = RGroup 2 (ralt [rlit ''='', rplus rspace])"

definition flag_re :: regex where
  "flag_re = rseq [flag_name, RNegLook word_dash, flag_sep, rplus rnonspace]"

definition pair_re :: regex where
  "pair_re = rseq [RWordB, RGroup 1 (rseq [RStar rword,
       ralts [''password'', ''passwd'', ''pwd'', ''token'', ''secret''], rlit ''='']),
     rplus (RSet True [CSpace, CChar CHR ''&'', CChar CHR '';''])]"

definition url_user :: regex where
  "url_user = RGroup 1 (rseq [rlit ''://'',
     rplus (RSet True [CChar CHR ''/'', CSpace, CChar CHR '':'', CChar CHR ''@'']), rlit '':''])"

definition url_re :: regex where
  "url_re = rseq [url_user, rplus (RSet True [CChar CHR ''@'', CSpace, CChar CHR ''/'']), rlit ''@'']"

text \<open>The patterns with their replacements; the last one minds case.\<close>

definition mask1 :: "(nat, string) dict \<Rightarrow> string" where
  "mask1 g = grp g 1 @ redacted"

definition mask2 :: "(nat, string) dict \<Rightarrow> string" where
  "mask2 g = grp g 1 @ grp g 2 @ redacted"

definition mask_at :: "(nat, string) dict \<Rightarrow> string" where
  "mask_at g = grp g 1 @ redacted @ ''@''"

definition redact_command :: "string \<Rightarrow> string" where
  "redact_command command =
     re_sub False url_re mask_at (re_sub True pair_re mask1 (re_sub True flag_re mask2
       (re_sub True bearer_re mask1 (re_sub True authorization_re mask1 command))))"

section \<open>Matches that need a character\<close>

text \<open>\<open>needs ic P r\<close>: every match of \<open>r\<close> consumes a character of the kind \<open>P\<close>.\<close>

fun needs :: "bool \<Rightarrow> (char \<Rightarrow> bool) \<Rightarrow> regex \<Rightarrow> bool" where
  "needs ic P (RSet neg cs) = (\<forall>c. in_set ic neg cs c \<longrightarrow> P c)"
| "needs ic P (RSeq r q) = (needs ic P r \<or> needs ic P q)"
| "needs ic P (RAlt r q) = (needs ic P r \<and> needs ic P q)"
| "needs ic P (RGroup n r) = needs ic P r"
| "needs ic P _ = False"

lemma needs_found:
  "needs ic P r \<Longrightarrow> st' \<in> set (mt ic r st) \<Longrightarrow> \<exists>c \<in> set (fst (snd st)). P c"
proof (induction r arbitrary: st st')
  case (RSet neg cs)
  then show ?case by (cases st; cases "fst (snd st)") (auto simp: set_step_def split: if_splits)
next
  case (RSeq r q)
  then obtain st1 where st1: "st1 \<in> set (mt ic r st)" "st' \<in> set (mt ic q st1)" by auto
  have "set (fst (snd st1)) \<subseteq> set (fst (snd st))"
    using mt_consumes [OF st1(1)] by (auto simp: consumes_def)
  moreover have "(\<exists>c \<in> set (fst (snd st)). P c) \<or> (\<exists>c \<in> set (fst (snd st1)). P c)"
    using RSeq.prems(1) RSeq.IH(1) [OF _ st1(1)] RSeq.IH(2) [OF _ st1(2)] by (simp only: needs.simps) blast
  ultimately show ?case by blast
qed auto

lemma no_match_without:
  assumes "needs ic P r" "\<not> list_ex P s"
  shows "match_at ic r b s = None"
  using needs_found [OF assms(1), of _ "(b, s, [])"] assms(2)
  by (cases "mt ic r (b, s, [])") (auto simp: match_at_def list_ex_iff)

lemma sub_without:
  assumes "needs ic P r"
  shows "\<not> list_ex P s \<Longrightarrow> sub_from ic r f b s = s"
  by (induction s arbitrary: b) (simp_all add: no_match_without [OF assms])

section \<open>The first match\<close>

definition leads :: "mstate list \<Rightarrow> mstate \<Rightarrow> bool" where
  "leads sts st = (\<exists>rest. sts = st # rest)"

lemma leads_seq: "leads (mt ic r st) st1 \<Longrightarrow> leads (mt ic q st1) st2 \<Longrightarrow> leads (mt ic (RSeq r q) st) st2"
  by (auto simp: leads_def)

lemma leads_star_set: "leads (mt ic (RStar (RSet neg cs)) (b, s, g))
    (rev (takeWhile (in_set ic neg cs) s) @ b, dropWhile (in_set ic neg cs) s, g)"
  unfolding leads_def mt_star_set by (rule hd_run_states)

lemma leads_plus_set:
  assumes "in_set ic neg cs c"
  shows "leads (mt ic (rplus (RSet neg cs)) (b, c # s, g))
    (rev (takeWhile (in_set ic neg cs) (c # s)) @ b, dropWhile (in_set ic neg cs) (c # s), g)"
proof -
  have "leads (mt ic (RSet neg cs) (b, c # s, g)) (c # b, s, g)"
    using assms by (simp add: leads_def set_step_def)
  from leads_seq [OF this leads_star_set [of ic neg cs "c # b" s g]] show ?thesis
    using assms by (simp add: rplus_def)
qed

lemma leads_match: "leads (mt ic r (b, s, [])) st \<Longrightarrow> match_at ic r b s = Some st"
  by (auto simp: leads_def match_at_def)

lemma leads_list [simp]: "leads (st # sts) st' \<longleftrightarrow> st = st'"
  by (auto simp: leads_def)

lemma takeWhile_run: "list_all P s \<Longrightarrow> takeWhile P s = s \<and> dropWhile P s = []"
  by (induction s) auto

text \<open>A run of one class up to the end of the text.\<close>

lemma leads_plus_all:
  assumes "s \<noteq> []" "list_all (in_set ic neg cs) s"
  shows "leads (mt ic (rplus (RSet neg cs)) (b, s, g)) (rev s @ b, [], g)"
proof -
  obtain c t where s: "s = c # t" using assms(1) by (cases s) auto
  have "in_set ic neg cs c" using assms(2) s by simp
  from leads_plus_set [OF this, of b t g] show ?thesis
    unfolding s [symmetric] using takeWhile_run [OF assms(2)] by simp
qed

lemma nonspace_class: "in_set ic False [CNonSpace] = nonspace"
  by (rule ext) (simp add: in_set_def)

lemma leads_secret:
  "s \<noteq> [] \<Longrightarrow> list_all nonspace s \<Longrightarrow> leads (mt ic (rplus rnonspace) (b, s, g)) (rev s @ b, [], g)"
  unfolding rnonspace_def by (rule leads_plus_all) (simp_all add: nonspace_class)

section \<open>Where a pattern cannot start\<close>

lemma match_none: "mt ic r (b, s, []) = [] \<Longrightarrow> match_at ic r b s = None"
  by (simp add: match_at_def)

lemma authorization_head: "lower_char c \<noteq> CHR ''a'' \<Longrightarrow> match_at True authorization_re b (c # t) = None"
  by (rule match_none)
     (simp add: authorization_re_def authorization_scheme_def rchr_def set_step_def in_set_def lower_char_def cp_def)

lemma bearer_head: "lower_char c \<noteq> CHR ''b'' \<Longrightarrow> match_at True bearer_re b (c # t) = None"
  by (rule match_none) (simp add: bearer_re_def rchr_def set_step_def in_set_def lower_char_def cp_def)

lemma flag_head: "lower_char c \<noteq> CHR ''-'' \<Longrightarrow> match_at True flag_re b (c # t) = None"
  by (rule match_none) (simp add: flag_re_def flag_name_def rchr_def set_step_def in_set_def lower_char_def cp_def)

lemma url_head: "c \<noteq> CHR '':'' \<Longrightarrow> match_at False url_re b (c # t) = None"
  by (rule match_none) (simp add: url_re_def url_user_def rchr_def set_step_def in_set_def)

text \<open>Text in front of which no pattern starts is copied.\<close>

lemma sub_copy:
  assumes "\<And>b c t. P c \<Longrightarrow> match_at ic r b (c # t) = None"
  shows "list_all P u \<Longrightarrow> sub_from ic r f b (u @ s) = u @ sub_from ic r f (rev u @ b) s"
  by (induction u arbitrary: b) (simp_all add: assms)

lemma authorization_copy:
  "list_all (\<lambda>c. lower_char c \<noteq> CHR ''a'') u \<Longrightarrow>
     sub_from True authorization_re f b (u @ s) = u @ sub_from True authorization_re f (rev u @ b) s"
  by (rule sub_copy [where P = "\<lambda>c. lower_char c \<noteq> CHR ''a''"]) (rule authorization_head)

lemma bearer_copy:
  "list_all (\<lambda>c. lower_char c \<noteq> CHR ''b'') u \<Longrightarrow>
     sub_from True bearer_re f b (u @ s) = u @ sub_from True bearer_re f (rev u @ b) s"
  by (rule sub_copy [where P = "\<lambda>c. lower_char c \<noteq> CHR ''b''"]) (rule bearer_head)

lemma flag_copy:
  "list_all (\<lambda>c. lower_char c \<noteq> CHR ''-'') u \<Longrightarrow>
     sub_from True flag_re f b (u @ s) = u @ sub_from True flag_re f (rev u @ b) s"
  by (rule sub_copy [where P = "\<lambda>c. lower_char c \<noteq> CHR ''-''"]) (rule flag_head)

lemma url_copy:
  "list_all (\<lambda>c. c \<noteq> CHR '':'') u \<Longrightarrow>
     sub_from False url_re f b (u @ s) = u @ sub_from False url_re f (rev u @ b) s"
  by (rule sub_copy [where P = "\<lambda>c. c \<noteq> CHR '':''"]) (rule url_head)


lemma bearer_needs_space: "needs True is_space bearer_re"
  by (simp add: bearer_re_def rplus_def rspace_def in_set_def)

lemma lower_punctuation:
  "lower_char CHR ''-'' = CHR ''-''" "lower_char CHR ''='' = CHR ''=''" "lower_char CHR '':'' = CHR '':''"
  "lower_char CHR ''@'' = CHR ''@''" "lower_char CHR ''/'' = CHR ''/''"
  by code_simp+

lemma flag_needs_dash: "needs True (\<lambda>c. lower_char c = CHR ''-'') flag_re"
  by (simp add: flag_re_def flag_name_def rchr_def in_set_def lower_punctuation)

lemma pair_needs_equals: "needs True (\<lambda>c. lower_char c = CHR ''='') pair_re"
  by (simp add: pair_re_def rchr_def in_set_def lower_punctuation)

section \<open>A token given to a flag\<close>

declare sub_from.simps(2) [simp del]

lemma sub_match:
  "match_at ic r b (c # s) = Some (b', s', g) \<Longrightarrow> length s' \<le> length s \<Longrightarrow>
     sub_from ic r f b (c # s) = f g @ sub_from ic r f b' s'"
  by (simp add: sub_from.simps(2))

definition text_over :: "(char \<Rightarrow> bool) \<Rightarrow> string \<Rightarrow> bool" where
  "text_over P s = (s \<noteq> [] \<and> list_all P s)"

text \<open>Masking leaves a secret without white space a secret without white space.\<close>

lemma sub_nonempty:
  assumes "\<And>g. f g \<noteq> []"
  shows "s \<noteq> [] \<Longrightarrow> sub_from ic r f b s \<noteq> []"
  using assms by (cases s) (auto simp: sub_from.simps(2) split: option.splits)

lemma masked_secret:
  assumes "text_over nonspace s"
  shows "text_over nonspace (sub_from ic r mask1 b s)"
proof -
  have "set (sub_from ic r mask1 b s) \<subseteq> {c. nonspace c}"
  proof (rule sub_from_over)
    show "set (mask1 g) \<subseteq> {c. nonspace c}" if "\<And>n. set (grp g n) \<subseteq> {c. nonspace c}" for g
      using that [of 1] by (simp add: mask1_def redacted_def nonspace_def is_space_def cp_def)
  qed (use assms in \<open>auto simp: text_over_def list_all_iff\<close>)
  moreover have "sub_from ic r mask1 b s \<noteq> []"
    using assms by (intro sub_nonempty) (simp_all add: text_over_def mask1_def redacted_def)
  ultimately show ?thesis by (auto simp: text_over_def list_all_iff)
qed

lemma no_space_text: "text_over nonspace s \<Longrightarrow> \<not> list_ex is_space s"
  by (auto simp: text_over_def list_all_iff list_ex_iff nonspace_def)

lemma word_chars:
  "is_word CHR ''t''" "is_word CHR ''o''" "is_word CHR ''k''" "is_word CHR ''e''" "is_word CHR ''n''"
  "\<not> is_word CHR ''=''" "\<not> is_word CHR ''-''"
  by code_simp+

lemma lower_letters:
  "lower_char CHR ''a'' = CHR ''a''" "lower_char CHR ''b'' = CHR ''b''" "lower_char CHR ''c'' = CHR ''c''"
  "lower_char CHR ''d'' = CHR ''d''" "lower_char CHR ''e'' = CHR ''e''" "lower_char CHR ''f'' = CHR ''f''"
  "lower_char CHR ''g'' = CHR ''g''" "lower_char CHR ''h'' = CHR ''h''" "lower_char CHR ''i'' = CHR ''i''"
  "lower_char CHR ''j'' = CHR ''j''" "lower_char CHR ''k'' = CHR ''k''" "lower_char CHR ''l'' = CHR ''l''"
  "lower_char CHR ''m'' = CHR ''m''" "lower_char CHR ''n'' = CHR ''n''" "lower_char CHR ''o'' = CHR ''o''"
  "lower_char CHR ''p'' = CHR ''p''" "lower_char CHR ''q'' = CHR ''q''" "lower_char CHR ''r'' = CHR ''r''"
  "lower_char CHR ''s'' = CHR ''s''" "lower_char CHR ''t'' = CHR ''t''" "lower_char CHR ''u'' = CHR ''u''"
  "lower_char CHR ''v'' = CHR ''v''" "lower_char CHR ''w'' = CHR ''w''" "lower_char CHR ''x'' = CHR ''x''"
  "lower_char CHR ''y'' = CHR ''y''" "lower_char CHR ''z'' = CHR ''z''"
  "lower_char CHR ''A'' = CHR ''a''" "lower_char CHR ''B'' = CHR ''b''"
  by code_simp+

lemmas match_simps = leads_def ralts_def rchr_def ropt_def mt_rlit mt_star_set set_step_def in_set_def same_text_def

lemma flag_name_match:
  "leads (mt True flag_name (b, ''--token='' @ s, [])) (rev ''--token'' @ b, CHR ''='' # s, [(1, ''--token'')])"
  by (simp add: flag_name_def match_simps word_dash_def word_chars lower_def lower_char_def cp_def del: mt.simps(6))

lemma flag_match:
  assumes "text_over nonspace s"
  shows "match_at True flag_re b (''--token='' @ s)
    = Some (rev s @ CHR ''='' # rev ''--token'' @ b, [], [(1, ''--token''), (2, ''='')])"
proof (rule leads_match)
  let ?b = "rev ''--token'' @ b" and ?g = "[(1 :: nat, ''--token'')]"
  have neg: "leads (mt True (RNegLook word_dash) (?b, CHR ''='' # s, ?g)) (?b, CHR ''='' # s, ?g)"
    by (simp add: leads_def word_dash_def set_step_def in_set_def word_chars lower_punctuation)
  have sep: "leads (mt True flag_sep (?b, CHR ''='' # s, ?g)) (CHR ''='' # ?b, s, [(1, ''--token''), (2, ''='')])"
    by (simp add: flag_sep_def match_simps del: mt.simps(6))
  have "leads (mt True (rplus rnonspace) (CHR ''='' # ?b, s, [(1, ''--token''), (2, ''='')]))
      (rev s @ CHR ''='' # ?b, [], [(1, ''--token''), (2, ''='')])"
    using assms by (intro leads_secret) (simp_all add: text_over_def)
  from leads_seq [OF flag_name_match leads_seq [OF neg leads_seq [OF sep this]]]
  show "leads (mt True flag_re (b, ''--token='' @ s, [])) (rev s @ CHR ''='' # ?b, [], [(1, ''--token''), (2, ''='')])"
    by (simp only: flag_re_def rseq.simps)
qed

lemma redact_flag:
  assumes "text_over nonspace s"
  shows "redact_command (''curl --token='' @ s) = ''curl --token=***''"
proof -
  define s1 where "s1 = sub_from True authorization_re mask1 (rev ''curl --token='') s"
  have s1: "text_over nonspace s1" unfolding s1_def by (rule masked_secret [OF assms])
  have "list_all (\<lambda>c. lower_char c \<noteq> CHR ''a'') ''curl --token=''" by code_simp
  from authorization_copy [OF this, of mask1 "[]" s]
  have e1: "re_sub True authorization_re mask1 (''curl --token='' @ s) = ''curl --token='' @ s1"
    by (simp only: re_sub_def s1_def append_Nil2)
  have "sub_from True bearer_re mask1 b s1 = s1" for b
    using sub_without [OF bearer_needs_space no_space_text [OF s1]] .
  moreover have "list_all (\<lambda>c. lower_char c \<noteq> CHR ''b'') ''curl --token=''" by code_simp
  ultimately have s2: "re_sub True bearer_re mask1 (''curl --token='' @ s1) = ''curl --token='' @ s1"
    using bearer_copy [of "''curl --token=''" mask1 "[]" s1] by (simp only: re_sub_def append_Nil2)
  have f: "sub_from True flag_re mask2 (rev ''curl '') (''--token='' @ s1) = ''--token=***''"
    using sub_match [OF flag_match [OF s1, of "rev ''curl ''", unfolded append_Cons append_Nil], of mask2]
    by (simp add: mask2_def grp_def dget_def redacted_def)
  have "list_all (\<lambda>c. lower_char c \<noteq> CHR ''-'') ''curl ''" by code_simp
  from flag_copy [OF this, of mask2 "[]" "''--token='' @ s1", unfolded append_Nil2 f]
  have s3: "re_sub True flag_re mask2 (''curl --token='' @ s1) = ''curl --token=***''"
    by (simp add: re_sub_def)
  have "re_sub False url_re mask_at (re_sub True pair_re mask1 ''curl --token=***'') = ''curl --token=***''"
    by code_simp
  then show ?thesis unfolding redact_command_def e1 s2 s3 .
qed

section \<open>A bearer token\<close>

lemma authorization_scheme_match:
  assumes "text_over nonspace s"
  shows "leads (mt True authorization_scheme (b, ''Authorization: Bearer '' @ s, []))
    (rev ''Authorization: Bearer '' @ b, s, [(1, ''Authorization: Bearer '')])"
proof -
  obtain c t where s: "s = c # t" "\<not> is_space c"
    using assms by (cases s) (auto simp: text_over_def nonspace_def)
  have sp: "is_space CHR '' ''" "\<not> is_space CHR ''B''" by code_simp+
  show ?thesis
    unfolding s(1) using s(2) sp
    by (simp add: authorization_scheme_def match_simps rspace_def rplus_def lower_def lower_letters lower_punctuation
        del: mt.simps(6))
qed

lemma authorization_match:
  assumes "text_over nonspace s"
  shows "match_at True authorization_re b (''Authorization: Bearer '' @ s)
    = Some (rev s @ rev ''Authorization: Bearer '' @ b, [], [(1, ''Authorization: Bearer '')])"
proof (rule leads_match)
  have "leads (mt True (rplus rnonspace) (rev ''Authorization: Bearer '' @ b, s, [(1, ''Authorization: Bearer '')]))
      (rev s @ rev ''Authorization: Bearer '' @ b, [], [(1, ''Authorization: Bearer '')])"
    using assms by (intro leads_secret) (simp_all add: text_over_def)
  from leads_seq [OF authorization_scheme_match [OF assms] this]
  show "leads (mt True authorization_re (b, ''Authorization: Bearer '' @ s, []))
      (rev s @ rev ''Authorization: Bearer '' @ b, [], [(1, ''Authorization: Bearer '')])"
    by (simp only: authorization_re_def rseq.simps)
qed

lemma redact_bearer:
  assumes "text_over nonspace s"
  shows "redact_command (''curl -H Authorization: Bearer '' @ s) = ''curl -H Authorization: Bearer ***''"
proof -
  have m: "sub_from True authorization_re mask1 b (''Authorization: Bearer '' @ s) = ''Authorization: Bearer ***''" for b
    using sub_match [OF authorization_match [OF assms, of b, unfolded append_Cons append_Nil], of mask1]
    by (simp add: mask1_def grp_def redacted_def)
  have "list_all (\<lambda>c. lower_char c \<noteq> CHR ''a'') ''curl -H ''" by code_simp
  from authorization_copy [OF this, of mask1 "[]" "''Authorization: Bearer '' @ s", unfolded append_Nil2 m]
  have e: "re_sub True authorization_re mask1 (''curl -H Authorization: Bearer '' @ s) = ''curl -H Authorization: Bearer ***''"
    by (simp add: re_sub_def)
  have "re_sub False url_re mask_at (re_sub True pair_re mask1 (re_sub True flag_re mask2
      (re_sub True bearer_re mask1 ''curl -H Authorization: Bearer ***''))) = ''curl -H Authorization: Bearer ***''"
    by code_simp
  then show ?thesis unfolding redact_command_def e .
qed

section \<open>A password in a URL\<close>

definition url_password_char :: "char \<Rightarrow> bool" where
  "url_password_char c = (nonspace c \<and> lower_char c \<notin> {CHR ''@'', CHR ''/'', CHR '':'', CHR ''-'', CHR ''=''})"

lemma url_user_match:
  "leads (mt False url_user (b, ''://u:'' @ s, [])) (rev ''://u:'' @ b, s, [(1, ''://u:'')])"
proof -
  have sp: "\<not> is_space CHR ''u''" by code_simp
  show ?thesis
    by (simp add: url_user_def match_simps rplus_def sp del: mt.simps(6))
qed

lemma url_match:
  assumes "text_over url_password_char s"
  shows "match_at False url_re b (''://u:'' @ s @ ''@'' @ t) = Some (CHR ''@'' # rev s @ rev ''://u:'' @ b, t, [(1, ''://u:'')])"
proof (rule leads_match)
  let ?cs = "[CChar CHR ''@'', CSpace, CChar CHR ''/'']" and ?g = "[(1 :: nat, ''://u:'')]"
  obtain c u where s: "s = c # u" using assms by (cases s) (auto simp: text_over_def)
  have in_cs: "in_set False True ?cs x" if "x \<in> set s" for x
  proof -
    have "\<not> is_space x" "lower_char x \<noteq> CHR ''@''" "lower_char x \<noteq> CHR ''/''"
      using assms that by (auto simp: text_over_def list_all_iff url_password_char_def nonspace_def)
    then show ?thesis using lower_punctuation by (auto simp: in_set_def)
  qed
  have "leads (mt False (rplus (RSet True ?cs)) (rev ''://u:'' @ b, c # (u @ ''@'' @ t), ?g))
    (rev (takeWhile (in_set False True ?cs) (c # (u @ ''@'' @ t))) @ rev ''://u:'' @ b,
     dropWhile (in_set False True ?cs) (c # (u @ ''@'' @ t)), ?g)"
    using in_cs [of c] s by (intro leads_plus_set) simp
  moreover have "takeWhile (in_set False True ?cs) (s @ CHR ''@'' # t) = s"
    "dropWhile (in_set False True ?cs) (s @ CHR ''@'' # t) = CHR ''@'' # t"
    using in_cs by (simp_all add: takeWhile_append_stop dropWhile_append_stop in_set_def)
  ultimately have pw: "leads (mt False (rplus (RSet True ?cs)) (rev ''://u:'' @ b, s @ ''@'' @ t, ?g))
    (rev s @ rev ''://u:'' @ b, CHR ''@'' # t, ?g)"
    using s by simp
  have "leads (mt False (rlit ''@'') (rev s @ rev ''://u:'' @ b, CHR ''@'' # t, ?g))
    (CHR ''@'' # rev s @ rev ''://u:'' @ b, t, ?g)"
    by (simp add: leads_def rchr_def set_step_def in_set_def)
  from leads_seq [OF url_user_match leads_seq [OF pw this]]
  show "leads (mt False url_re (b, ''://u:'' @ s @ ''@'' @ t, [])) (CHR ''@'' # rev s @ rev ''://u:'' @ b, t, ?g)"
    by (simp only: url_re_def rseq.simps)
qed

lemma authorization_needs_colon: "needs True (\<lambda>c. lower_char c = CHR '':'') authorization_re"
  by (simp add: authorization_re_def authorization_scheme_def rchr_def in_set_def lower_punctuation)

lemma password_text:
  assumes "text_over url_password_char s"
  shows "\<not> list_ex (\<lambda>c. lower_char c = CHR '':'') (s @ ''@db'')" "\<not> list_ex is_space (s @ ''@db'')"
    "\<not> list_ex (\<lambda>c. lower_char c = CHR ''-'') (s @ ''@db'')" "\<not> list_ex (\<lambda>c. lower_char c = CHR ''='') (s @ ''@db'')"
proof -
  have d: "\<not> list_ex (\<lambda>c. lower_char c = CHR '':'') ''@db''" "\<not> list_ex is_space ''@db''"
    "\<not> list_ex (\<lambda>c. lower_char c = CHR ''-'') ''@db''" "\<not> list_ex (\<lambda>c. lower_char c = CHR ''='') ''@db''"
    by code_simp+
  show "\<not> list_ex (\<lambda>c. lower_char c = CHR '':'') (s @ ''@db'')" "\<not> list_ex is_space (s @ ''@db'')"
    "\<not> list_ex (\<lambda>c. lower_char c = CHR ''-'') (s @ ''@db'')" "\<not> list_ex (\<lambda>c. lower_char c = CHR ''='') (s @ ''@db'')"
    using assms d by (auto simp: text_over_def list_all_iff list_ex_iff url_password_char_def nonspace_def)
qed

lemma redact_url:
  assumes "text_over url_password_char s"
  shows "redact_command (''psql postgres://u:'' @ s @ ''@db'') = ''psql postgres://u:***@db''"
proof -
  let ?t = "''psql postgres://u:'' @ s @ ''@db''"
  note pt = password_text [OF assms]
  have "list_all (\<lambda>c. lower_char c \<noteq> CHR ''a'') ''psql postgres://u:''" by code_simp
  from authorization_copy [OF this, of mask1 "[]" "s @ ''@db''"]
  have e1: "re_sub True authorization_re mask1 ?t = ?t"
    by (simp only: re_sub_def sub_without [OF authorization_needs_colon pt(1)])
  have "list_all (\<lambda>c. lower_char c \<noteq> CHR ''b'') ''psql postgres://u:''" by code_simp
  from bearer_copy [OF this, of mask1 "[]" "s @ ''@db''"]
  have e2: "re_sub True bearer_re mask1 ?t = ?t"
    by (simp only: re_sub_def sub_without [OF bearer_needs_space pt(2)])
  have "\<not> list_ex (\<lambda>c. lower_char c = CHR ''-'') ''psql postgres://u:''"
    "\<not> list_ex (\<lambda>c. lower_char c = CHR ''='') ''psql postgres://u:''" by code_simp+
  then have n: "\<not> list_ex (\<lambda>c. lower_char c = CHR ''-'') ?t" "\<not> list_ex (\<lambda>c. lower_char c = CHR ''='') ?t"
    using pt(3,4) unfolding list_ex_append by blast+
  have e3: "re_sub True flag_re mask2 ?t = ?t" "re_sub True pair_re mask1 ?t = ?t"
    unfolding re_sub_def using sub_without [OF flag_needs_dash n(1)] sub_without [OF pair_needs_equals n(2)] by blast+
  have db: "sub_from False url_re mask_at b ''db'' = ''db''" for b
    using url_copy [of "''db''" mask_at b "[]"] by simp
  have m: "sub_from False url_re mask_at b (''://u:'' @ s @ ''@'' @ ''db'') = ''://u:***@db''" for b
    using sub_match [OF url_match [OF assms, of b "''db''", unfolded append_Cons append_Nil], of mask_at] db
    by (simp add: mask_at_def grp_def redacted_def)
  have "list_all (\<lambda>c. c \<noteq> CHR '':'') ''psql postgres''" by code_simp
  from url_copy [OF this, of mask_at "[]" "''://u:'' @ s @ ''@'' @ ''db''", unfolded append_Nil2 m]
  have "re_sub False url_re mask_at ?t = ''psql postgres://u:***@db''" by (simp add: re_sub_def)
  then show ?thesis unfolding redact_command_def e1 e2 e3 .
qed

section \<open>Properties\<close>



end
