(* ===== verification/Processes.thy ===== *)
theory Processes
  imports Redact Memory Sensors
begin

text \<open>
  \<open>app/collectors/processes.py\<close>: the host's processes out of \<open>/proc\<close>, their CPU usage measured
  against the samples of the previous collection, and the choice of those that are shown. The
  samples are the state; the clock tick rate of the system is a parameter. The lemmas show which
  processes are kept, that usages are never negative, and that samples do not outlive processes.
\<close>

section \<open>Users and process numbers\<close>

definition passwd_line :: "(int, string) dict \<Rightarrow> string \<Rightarrow> (int, string) dict" where
  "passwd_line uid_map line = (let parts = split_char CHR '':'' line in
     if 3 \<le> length parts
     then (case int_of_str (parts ! 2) of None \<Rightarrow> uid_map | Some uid \<Rightarrow> dset uid (parts ! 0) uid_map)
     else uid_map)"

definition parse_uid_map :: "string \<Rightarrow> (int, string) dict" where
  "parse_uid_map passwd_content = foldl passwd_line [] (splitlines passwd_content)"

definition list_pids :: "host \<Rightarrow> string \<Rightarrow> int list result" where
  "list_pids h proc_root = (case h_listdir h proc_root of
     None \<Rightarrow> Inr [] | Some entries \<Rightarrow> rmap py_int (filter str_isdigit entries))"

section \<open>CPU usage\<close>

type_synonym samples = "(int \<times> int, int \<times> rat) dict"

definition lifetime_percent :: "int \<Rightarrow> int \<Rightarrow> int \<Rightarrow> rat \<Rightarrow> rat" where
  "lifetime_percent tck starttime cpu_ticks uptime_secs =
     (let age_secs = fsub uptime_secs (fdiv (of_int starttime) (of_int tck)) in
      if age_secs \<le> 0 then 0
      else round_dec 2 (fmul (fdiv (fdiv (of_int cpu_ticks) (of_int tck)) age_secs) 100))"

definition cpu_percent :: "int \<Rightarrow> int \<Rightarrow> int \<Rightarrow> int \<Rightarrow> rat \<Rightarrow> rat \<Rightarrow> samples \<Rightarrow> rat" where
  "cpu_percent tck pid starttime cpu_ticks uptime_secs now prev_samples =
     (if tck \<le> 0 then 0
      else (case dget prev_samples (pid, starttime) of
          None \<Rightarrow> lifetime_percent tck starttime cpu_ticks uptime_secs
        | Some (prev_ticks, prev_time) \<Rightarrow>
            (let elapsed = fsub now prev_time in
             if 0 < elapsed \<and> prev_ticks \<le> cpu_ticks
             then round_dec 2 (fmul (fdiv (fdiv (of_int (cpu_ticks - prev_ticks)) (of_int tck)) elapsed) 100)
             else lifetime_percent tck starttime cpu_ticks uptime_secs)))"

section \<open>One process\<close>

record process =
  pr_pid :: int
  pr_ppid :: int
  pr_user :: string
  pr_cpu :: rat
  pr_mem :: rat
  pr_rss :: int
  pr_vsz :: int
  pr_state :: string
  pr_command :: string

definition state_map :: "(string \<times> string) list" where
  "state_map = [(''R'', ''running''), (''S'', ''sleeping''), (''D'', ''disk sleep''), (''Z'', ''zombie''),
     (''T'', ''stopped''), (''t'', ''tracing stop''), (''X'', ''dead''), (''I'', ''idle'')]"

text \<open>\<open>re.search(r"\d+", line)\<close>, and its number.\<close>

definition first_number :: "string \<Rightarrow> int option" where
  "first_number line = leading_number (dropWhile (\<lambda>c. \<not> is_decimal c) line)"

record proc_status =
  ps_rss :: int
  ps_vsz :: int
  ps_uid :: int

definition status_line :: "proc_status \<Rightarrow> string \<Rightarrow> proc_status" where
  "status_line st line =
     (if startswith line ''VmRSS:'' then st\<lparr>ps_rss := opt_default (ps_rss st) (first_number line)\<rparr>
      else if startswith line ''VmSize:'' then st\<lparr>ps_vsz := opt_default (ps_vsz st) (first_number line)\<rparr>
      else if startswith line ''Uid:'' then
        (let parts = split_ws line in
         if 2 \<le> length parts then st\<lparr>ps_uid := opt_default (ps_uid st) (int_of_str (parts ! 1))\<rparr> else st)
      else st)"

definition proc_status_of :: "string \<Rightarrow> proc_status" where
  "proc_status_of status_raw = foldl status_line \<lparr>ps_rss = 0, ps_vsz = 0, ps_uid = - 1\<rparr> (splitlines status_raw)"

definition mem_percent :: "int \<Rightarrow> int \<Rightarrow> rat" where
  "mem_percent total_mem_kb rss_kb =
     (if 0 < total_mem_kb then round_dec 2 (fmul (fdiv (of_int rss_kb) (of_int total_mem_kb)) 100) else 0)"

definition user_name :: "(int, string) dict \<Rightarrow> int \<Rightarrow> string" where
  "user_name uid_map uid = (if 0 \<le> uid then dget_or uid_map uid (str_of_int uid) else [])"

definition comm_of :: "string \<Rightarrow> string" where
  "comm_of stat_raw = (if CHR ''('' \<in> set stat_raw
     then drop (Suc (length (before_char CHR ''('' stat_raw))) (before_last CHR '')'' stat_raw) else [])"

definition proc_command :: "string \<Rightarrow> string \<Rightarrow> string" where
  "proc_command cmdline_raw stat_raw =
     (if cmdline_raw \<noteq> [] then redact_command (strip (replace_char nul '' '' cmdline_raw))
      else ''['' @ comm_of stat_raw @ '']'')"

text \<open>What every process of one collection is read with.\<close>

record proc_env =
  pe_tck :: int
  pe_uptime :: rat
  pe_now :: rat
  pe_prev :: samples
  pe_total :: int
  pe_users :: "(int, string) dict"

text \<open>The numbers of the stat line: parent, ticks used, start; None for the ValueError.\<close>

definition stat_numbers :: "string list \<Rightarrow> (int \<times> int \<times> int) option" where
  "stat_numbers after_comm =
     (case (int_of_str (after_comm ! 1), int_of_str (after_comm ! 11), int_of_str (after_comm ! 12), int_of_str (after_comm ! 19)) of
        (Some ppid, Some utime, Some stime, Some starttime) \<Rightarrow> Some (ppid, utime + stime, starttime)
      | _ \<Rightarrow> None)"

text \<open>One process, with the sample it leaves; None when it is skipped.\<close>

definition read_process :: "config \<Rightarrow> host \<Rightarrow> proc_env \<Rightarrow> int \<Rightarrow> (process \<times> (int \<times> int) \<times> int \<times> rat) option" where
  "read_process cf h pe pid =
     (let pid_dir = HOST_PROC cf @ ''/'' @ str_of_int pid;
          stat_raw = read_file h (pid_dir @ ''/stat'');
          after_comm = split_ws (drop 1 (after_last CHR '')'' stat_raw))
      in if CHR '')'' \<notin> set stat_raw \<or> length after_comm < 20 then None
         else (case stat_numbers after_comm of
             None \<Rightarrow> None
           | Some (ppid, cpu_ticks, starttime) \<Rightarrow>
               (let st = proc_status_of (read_file h (pid_dir @ ''/status'')) in
                Some (\<lparr>pr_pid = pid, pr_ppid = ppid, pr_user = user_name (pe_users pe) (ps_uid st),
                     pr_cpu = cpu_percent (pe_tck pe) pid starttime cpu_ticks (pe_uptime pe) (pe_now pe) (pe_prev pe),
                     pr_mem = mem_percent (pe_total pe) (ps_rss st), pr_rss = ps_rss st, pr_vsz = ps_vsz st,
                     pr_state = opt_default (after_comm ! 0) (dget state_map (after_comm ! 0)),
                     pr_command = proc_command (read_file h (pid_dir @ ''/cmdline'')) stat_raw\<rparr>,
                   (pid, starttime), cpu_ticks, pe_now pe))))"

section \<open>The collection\<close>

definition TOP_BY_MEM :: nat where "TOP_BY_MEM = 200"
definition TOP_BY_CPU :: nat where "TOP_BY_CPU = 50"

definition shown_processes :: "process list \<Rightarrow> process list" where
  "shown_processes processes =
     (let by_cpu = sort_desc pr_cpu processes;
          top = take TOP_BY_MEM (sort_desc pr_mem processes);
          kept = set (map pr_pid top)
      in top @ filter (\<lambda>p. pr_pid p \<notin> kept) (take TOP_BY_CPU by_cpu))"

definition total_mem :: "string \<Rightarrow> int" where
  "total_mem meminfo_text = (case List.find (\<lambda>line. startswith line ''MemTotal:'') (splitlines meminfo_text) of
     None \<Rightarrow> 0 | Some line \<Rightarrow> opt_default 0 (first_number line))"

record processes_overview =
  po_total_count :: nat
  po_processes :: "process list"

text \<open>The uptime: \<open>float(uptime_raw.split()[0])\<close>. The kernel prints a finite number; the model
  stops at any other float.\<close>

definition uptime_seconds :: "string \<Rightarrow> rat result" where
  "uptime_seconds uptime_raw = (case split_ws uptime_raw of
     [] \<Rightarrow> Inl (Exn IndexError ''list index out of range'')
   | w # _ \<Rightarrow> rbind (py_float w) (\<lambda>f. case f of
         Fin u \<Rightarrow> Inr u | _ \<Rightarrow> Inl (Exn OtherException ''uptime not finite'')))"

definition collect_processes_sync :: "config \<Rightarrow> host \<Rightarrow> int \<Rightarrow> samples \<Rightarrow> processes_overview result \<times> samples" where
  "collect_processes_sync cf h tck prev =
     (let uptime_raw = read_file h (HOST_PROC cf @ ''/uptime'') in
      if uptime_raw = [] then (Inr \<lparr>po_total_count = 0, po_processes = []\<rparr>, prev)
      else (case rbind (uptime_seconds uptime_raw) (\<lambda>u. rbind (list_pids h (HOST_PROC cf)) (\<lambda>pids. Inr (u, pids))) of
          Inl e \<Rightarrow> (Inl e, prev)
        | Inr (u, pids) \<Rightarrow>
            (let pe = \<lparr>pe_tck = tck, pe_uptime = u, pe_now = h_mono h, pe_prev = prev,
                       pe_total = total_mem (read_file h (HOST_PROC cf @ ''/meminfo'')),
                       pe_users = parse_uid_map (read_file h (HOST_ROOT cf @ ''/etc/passwd''))\<rparr>;
                 found = List.map_filter (read_process cf h pe) pids
             in (Inr \<lparr>po_total_count = length found, po_processes = shown_processes (map fst found)\<rparr>,
                 foldl (\<lambda>d kv. dset (fst kv) (snd kv) d) [] (map snd found)))))"

section \<open>Lemmas\<close>

lemma lifetime_nonneg: "0 < tck \<Longrightarrow> 0 \<le> cpu_ticks \<Longrightarrow> 0 \<le> lifetime_percent tck starttime cpu_ticks uptime"
  by (simp add: lifetime_percent_def Let_def fmul_def fdiv_def fl_nonneg round_dec_nonneg)

lemma cpu_nonneg:
  assumes "0 \<le> cpu_ticks"
  shows "0 \<le> cpu_percent tck pid starttime cpu_ticks uptime now prev"
  using lifetime_nonneg [of tck cpu_ticks] assms
  by (auto simp: cpu_percent_def Let_def fmul_def fdiv_def fl_nonneg round_dec_nonneg split: option.splits)

lemma cpu_recycled:
  "dget prev (pid, starttime) = None \<Longrightarrow>
     cpu_percent tck pid starttime cpu_ticks uptime now prev = cpu_percent tck pid starttime cpu_ticks uptime now []"
  by (simp add: cpu_percent_def)

lemma read_process_pid: "read_process cf h pe pid = Some (p, (q, s), t) \<Longrightarrow> pr_pid p = pid \<and> q = pid"
  by (auto simp: read_process_def Let_def split: if_splits option.splits)

lemma found_pids:
  "map (\<lambda>x. pr_pid (fst x)) (List.map_filter (read_process cf h pe) pids) = filter (\<lambda>pid. read_process cf h pe pid \<noteq> None) pids"
  "map (\<lambda>x. fst (fst (snd x))) (List.map_filter (read_process cf h pe) pids) = filter (\<lambda>pid. read_process cf h pe pid \<noteq> None) pids"
  by (rule map_filter_names; use read_process_pid in fastforce)+

lemma fold_dset:
  "fst ` set (foldl (\<lambda>d kv. dset (fst kv) (snd kv) d) d kvs) = fst ` set d \<union> fst ` set kvs"
  "dwf d \<Longrightarrow> dwf (foldl (\<lambda>d kv. dset (fst kv) (snd kv) d) d kvs)"
  "length (foldl (\<lambda>d kv. dset (fst kv) (snd kv) d) d kvs) \<le> length d + length kvs"
proof (induction kvs arbitrary: d)
  case (Cons kv kvs)
  { case 1 then show ?case using Cons(1) by (auto simp: fst_set_dset) }
  { case 2 then show ?case using Cons(2) by simp }
  { case 3 then show ?case
      using Cons(3) [of "dset (fst kv) (snd kv) d"] length_dset_le [of "fst kv" "snd kv" d] by simp }
qed simp_all

lemma take_top:
  assumes "p \<in> set ps" "p \<notin> set (take n (sort_desc f ps))"
  shows "length (take n (sort_desc f ps)) = n" "\<forall>q \<in> set (take n (sort_desc f ps)). f p \<le> f q"
proof -
  have d: "p \<in> set (drop n (sort_desc f ps))" by (rule desc.srt_dropped [OF assms])
  then have "n < length (sort_desc f ps)" by (metis drop_eq_Nil empty_iff list.set(1) not_le)
  then show "length (take n (sort_desc f ps)) = n" by simp
  show "\<forall>q \<in> set (take n (sort_desc f ps)). f p \<le> f q"
    using desc.srt_take_drop [OF _ d] by blast
qed

lemma shown_parts:
  assumes "distinct (map pr_pid ps)" "p \<in> set ps"
  shows "p \<in> set (shown_processes ps) \<longleftrightarrow>
    p \<in> set (take TOP_BY_MEM (sort_desc pr_mem ps)) \<or> p \<in> set (take TOP_BY_CPU (sort_desc pr_cpu ps))"
proof -
  have top: "set (take TOP_BY_MEM (sort_desc pr_mem ps)) \<subseteq> set ps"
    using desc.srt_set [of pr_mem ps] set_take_subset by fast
  have "pr_pid p \<in> pr_pid ` set (take TOP_BY_MEM (sort_desc pr_mem ps)) \<longleftrightarrow> p \<in> set (take TOP_BY_MEM (sort_desc pr_mem ps))"
    using assms top by (auto simp: distinct_map inj_on_def)
  then show ?thesis by (auto simp: shown_processes_def Let_def)
qed

lemma card_filter_le: "set xs \<subseteq> set ys \<Longrightarrow> distinct xs \<Longrightarrow> \<forall>x \<in> set xs. Q x \<Longrightarrow> length xs \<le> length (filter Q ys)"
proof -
  assume a: "set xs \<subseteq> set ys" "distinct xs" "\<forall>x \<in> set xs. Q x"
  have "length xs = card (set xs)" using a(2) by (simp add: distinct_card)
  also have "\<dots> \<le> card (set (filter Q ys))" using a(1,3) by (intro card_mono) auto
  also have "\<dots> \<le> length (filter Q ys)" by (rule card_length)
  finally show ?thesis .
qed

lemma shown_at_most: "length (shown_processes ps) \<le> 250"
proof -
  have "length (shown_processes ps)
      \<le> length (take TOP_BY_MEM (sort_desc pr_mem ps)) + length (take TOP_BY_CPU (sort_desc pr_cpu ps))"
    unfolding shown_processes_def Let_def length_append by (intro add_mono length_filter_le order_refl)
  then show ?thesis by (simp add: TOP_BY_MEM_def TOP_BY_CPU_def)
qed

section \<open>Properties\<close>

text \<open>
  C29: No heavy process is hidden by the cut: of processes with distinct numbers at most 250 are
  shown, each once, and one that is left out is outranked twice: at least 200 shown processes use
  as much memory or more, and at least 50 shown ones as much CPU or more.
\<close>

theorem heavy_processes_shown:
  assumes "distinct (map pr_pid ps)" "p \<in> set ps" "p \<notin> set (shown_processes ps)"
  shows "distinct (shown_processes ps) \<and> set (shown_processes ps) \<subseteq> set ps \<and> length (shown_processes ps) \<le> 250
    \<and> 200 \<le> length (filter (\<lambda>q. pr_mem p \<le> pr_mem q) (shown_processes ps))
    \<and> 50 \<le> length (filter (\<lambda>q. pr_cpu p \<le> pr_cpu q) (shown_processes ps))"
proof -
  let ?top = "take TOP_BY_MEM (sort_desc pr_mem ps)" and ?cpu = "take TOP_BY_CPU (sort_desc pr_cpu ps)"
  have d: "distinct ps" using assms(1) by (simp add: distinct_map)
  have dist: "distinct ?top" "distinct ?cpu"
    using d desc.srt_distinct [of pr_mem ps] desc.srt_distinct [of pr_cpu ps] by (auto intro: distinct_take)
  have sub: "set ?top \<subseteq> set ps" "set ?cpu \<subseteq> set ps"
    using desc.srt_set [of pr_mem ps] desc.srt_set [of pr_cpu ps] set_take_subset by fast+
  have out: "p \<notin> set ?top" "p \<notin> set ?cpu" using shown_parts [OF assms(1,2)] assms(3) by auto
  have shown: "set ?top \<subseteq> set (shown_processes ps)" "set ?cpu \<subseteq> set (shown_processes ps)"
    using shown_parts [OF assms(1)] sub by blast+
  have mem: "200 \<le> length (filter (\<lambda>q. pr_mem p \<le> pr_mem q) (shown_processes ps))"
    using card_filter_le [OF shown(1) dist(1) take_top(2) [OF assms(2) out(1)]] take_top(1) [OF assms(2) out(1)]
    by (simp add: TOP_BY_MEM_def)
  have cpu: "50 \<le> length (filter (\<lambda>q. pr_cpu p \<le> pr_cpu q) (shown_processes ps))"
    using card_filter_le [OF shown(2) dist(2) take_top(2) [OF assms(2) out(2)]] take_top(1) [OF assms(2) out(2)]
    by (simp add: TOP_BY_CPU_def)
  note len = shown_at_most [of ps]
  have "distinct (shown_processes ps)" "set (shown_processes ps) \<subseteq> set ps"
    using dist sub by (auto simp: shown_processes_def Let_def)
  then show ?thesis using mem cpu len by blast
qed

definition demo_process :: "nat \<Rightarrow> process" where
  "demo_process i = \<lparr>pr_pid = int i, pr_ppid = 1, pr_user = [], pr_cpu = 0, pr_mem = 0, pr_rss = 0, pr_vsz = 0,
     pr_state = [], pr_command = []\<rparr>"

definition demo_processes :: "process list" where
  "demo_processes = map demo_process [0..<300]"

lemma demo_processes_distinct: "distinct (map pr_pid demo_processes)"
  by (simp add: demo_processes_def demo_process_def comp_def distinct_map inj_on_def)

lemma demo_hidden: "\<exists>p \<in> set demo_processes. p \<notin> set (shown_processes demo_processes)"
proof (rule ccontr)
  assume "\<not> ?thesis"
  then have "set demo_processes \<subseteq> set (shown_processes demo_processes)" by blast
  then have "card (set demo_processes) \<le> length (shown_processes demo_processes)"
    by (meson List.finite_set card_length card_mono le_trans)
  moreover have "distinct demo_processes" using demo_processes_distinct by (simp add: distinct_map)
  then have "card (set demo_processes) = 300"
    unfolding distinct_card [OF \<open>distinct demo_processes\<close>] by (simp add: demo_processes_def)
  moreover have "length (shown_processes demo_processes) \<le> 250"
    by (rule shown_at_most)
  ultimately show False by simp
qed

theorem heavy_processes_shown_witness:
  "\<exists>p. p \<in> set demo_processes \<and> p \<notin> set (shown_processes demo_processes)
    \<and> 200 \<le> length (filter (\<lambda>q. pr_mem p \<le> pr_mem q) (shown_processes demo_processes))"
proof -
  obtain p where p: "p \<in> set demo_processes" "p \<notin> set (shown_processes demo_processes)"
    using demo_hidden by blast
  then show ?thesis using heavy_processes_shown [OF demo_processes_distinct p] by blast
qed

text \<open>
  C28: The CPU samples never outlive the processes: after a collection there is at most one sample
  for each process number listed, each of a listed number, and one for every process that was
  read, so the table cannot grow with the processes that come and go.
\<close>

theorem samples_follow_processes:
  assumes "collect_processes_sync cf h tck prev = (Inr ov, new)" "read_file h (HOST_PROC cf @ ''/uptime'') \<noteq> []"
  shows "\<exists>pids. list_pids h (HOST_PROC cf) = Inr pids \<and> dwf new \<and> length new \<le> po_total_count ov
    \<and> po_total_count ov \<le> length pids \<and> fst ` set (dkeys new) \<subseteq> set pids
    \<and> pr_pid ` set (po_processes ov) \<subseteq> fst ` set (dkeys new)"
proof -
  obtain u pids pe where p: "list_pids h (HOST_PROC cf) = Inr pids"
      "po_total_count ov = length (List.map_filter (read_process cf h pe) pids)"
      "po_processes ov = shown_processes (map fst (List.map_filter (read_process cf h pe) pids))"
      "new = foldl (\<lambda>d kv. dset (fst kv) (snd kv) d) [] (map snd (List.map_filter (read_process cf h pe) pids))"
    using assms by (auto simp: collect_processes_sync_def Let_def rbind_def split: sum.splits)
  let ?found = "List.map_filter (read_process cf h pe) pids"
  have keys: "fst ` set new = (\<lambda>x. fst (snd x)) ` set ?found"
    using fold_dset(1) [of "[]" "map snd ?found"] unfolding p(4) by (simp add: image_image)
  have ids: "(\<lambda>x. fst (fst (snd x))) ` set ?found = {pid \<in> set pids. read_process cf h pe pid \<noteq> None}"
    "(\<lambda>x. pr_pid (fst x)) ` set ?found = {pid \<in> set pids. read_process cf h pe pid \<noteq> None}"
    using arg_cong [OF found_pids(2), of set cf h pe pids] arg_cong [OF found_pids(1), of set cf h pe pids] by auto
  have k: "fst ` set (dkeys new) = {pid \<in> set pids. read_process cf h pe pid \<noteq> None}"
    using keys ids(1) by (simp add: dkeys_def image_image)
  have "set (po_processes ov) \<subseteq> set (map fst ?found)"
    unfolding p(3) shown_processes_def Let_def
    using desc.srt_set [of pr_mem "map fst ?found"] desc.srt_set [of pr_cpu "map fst ?found"]
      set_take_subset [of TOP_BY_MEM "sort_desc pr_mem (map fst ?found)"]
      set_take_subset [of TOP_BY_CPU "sort_desc pr_cpu (map fst ?found)"] by auto
  then have "pr_pid ` set (po_processes ov) \<subseteq> (\<lambda>x. pr_pid (fst x)) ` set ?found" by auto
  moreover have "length ?found \<le> length pids"
    using arg_cong [OF found_pids(1), of length cf h pe pids] by simp
  moreover have "length new \<le> length ?found" "dwf new"
    using fold_dset(2,3) [of "[]" "map snd ?found"] unfolding p(4) by simp_all
  ultimately show ?thesis using p(1,2) k ids(2) by (intro exI [of _ pids]) auto
qed

definition demo_proc_host :: host where
  "demo_proc_host = null_host\<lparr>h_listdir := (\<lambda>_. Some [''7'', ''self'']),
     h_read := (\<lambda>p. if p = ''/host-proc/uptime'' then Some ''5''
       else if p = ''/host-proc/7/stat'' then Some ''7 (sh) S 1 0 0 0 0 0 0 0 0 0 3 4 0 0 0 0 0 0 5'' else None)\<rparr>"

lemma demo_pids:
  "uptime_seconds (read_file demo_proc_host ''/host-proc/uptime'') = Inr 5"
  "list_pids demo_proc_host ''/host-proc'' = Inr [7]"
  "read_file demo_proc_host ''/host-proc/uptime'' = ''5''"
  by code_simp+

theorem samples_follow_processes_witness:
  "\<exists>ov new. collect_processes_sync demo_config demo_proc_host 100 [] = (Inr ov, new)
    \<and> length new \<le> po_total_count ov \<and> fst ` set (dkeys new) \<subseteq> {7}"
proof -
  have c: "HOST_PROC demo_config = ''/host-proc''" by (simp add: demo_config_def)
  obtain ov new where o: "collect_processes_sync demo_config demo_proc_host 100 [] = (Inr ov, new)"
    using demo_pids by (simp add: collect_processes_sync_def Let_def c)
  have "read_file demo_proc_host (HOST_PROC demo_config @ ''/uptime'') \<noteq> []"
    using demo_pids(3) by (simp add: c)
  from samples_follow_processes [OF o this] show ?thesis
    using demo_pids(2) o c by auto
qed

lemma read_process_command:
  "read_process cf h pe pid = Some (p, x) \<Longrightarrow> pr_pid p = pid
     \<and> pr_command p = proc_command (read_file h (HOST_PROC cf @ ''/'' @ str_of_int pid @ ''/cmdline''))
         (read_file h (HOST_PROC cf @ ''/'' @ str_of_int pid @ ''/stat''))"
  by (auto simp: read_process_def Let_def split: if_splits option.splits prod.splits)

lemma shown_subset: "set (shown_processes ps) \<subseteq> set ps"
  unfolding shown_processes_def Let_def
  using desc.srt_set [of pr_mem ps] desc.srt_set [of pr_cpu ps] by (auto dest!: in_set_takeD)

lemma overview_process:
  assumes "collect_processes_sync cf h tck prev = (Inr ov, new)" "p \<in> set (po_processes ov)"
  shows "\<exists>pids pe x. list_pids h (HOST_PROC cf) = Inr pids \<and> pr_pid p \<in> set pids
    \<and> read_process cf h pe (pr_pid p) = Some (p, x)"
proof (cases "read_file h (HOST_PROC cf @ ''/uptime'') = []")
  case False
  then obtain pids pe where o: "list_pids h (HOST_PROC cf) = Inr pids"
      "po_processes ov = shown_processes (map fst (List.map_filter (read_process cf h pe) pids))"
    using assms(1) by (auto simp: collect_processes_sync_def Let_def rbind_def split: sum.splits)
  then have "p \<in> set (map fst (List.map_filter (read_process cf h pe) pids))"
    using assms(2) shown_subset by fastforce
  then obtain pid x where "pid \<in> set pids" "read_process cf h pe pid = Some (p, x)" by (auto simp: List.map_filter_def)
  then show ?thesis using o(1) read_process_command by blast
qed (use assms in \<open>auto simp: collect_processes_sync_def\<close>)

lemma nul_arguments:
  assumes "text_over nonspace s" "nul \<notin> set s"
  shows "strip (replace_char nul '' '' (''curl'' @ [nul] @ ''--token='' @ s @ [nul])) = ''curl --token='' @ s"
proof -
  have rep: "replace_char nul '' '' t = t" if "nul \<notin> set t" for t
    using that by (induction t) (auto simp: replace_char_def)
  have app: "replace_char nul r (a @ b) = replace_char nul r a @ replace_char nul r b" for r a b
    by (simp add: replace_char_def)
  have lits: "replace_char nul '' '' ''curl'' = ''curl''" "replace_char nul '' '' [nul] = '' ''"
    "replace_char nul '' '' ''--token='' = ''--token=''"
    by code_simp+
  obtain u c where s: "s = u @ [c]" "\<not> is_space c"
    using assms(1) by (cases s rule: rev_cases) (auto simp: text_over_def nonspace_def)
  have sp: "is_space CHR '' ''" "\<not> is_space CHR ''c''" by code_simp+
  show ?thesis
    unfolding app lits rep [OF assms(2)] using s sp by (simp add: strip_def lstrip_def rstrip_def)
qed


definition demo_curl_host :: host where
  "demo_curl_host = demo_proc_host\<lparr>h_read := (\<lambda>p. if p = ''/host-proc/7/cmdline''
     then Some (''curl'' @ [nul] @ ''--token='' @ ''s3cret'' @ [nul]) else h_read demo_proc_host p)\<rparr>"

lemma demo_curl:
  "uptime_seconds (read_file demo_curl_host ''/host-proc/uptime'') = Inr 5"
  "list_pids demo_curl_host ''/host-proc'' = Inr [7]"
  "read_file demo_curl_host ''/host-proc/uptime'' = ''5''"
  "read_file demo_curl_host (HOST_PROC demo_config @ ''/'' @ str_of_int 7 @ ''/cmdline'') = ''curl'' @ [nul] @ ''--token='' @ ''s3cret'' @ [nul]"
  "text_over nonspace ''s3cret''" "nul \<notin> set ''s3cret''"
  by code_simp+


end
