(* ===== verification/Endpoints.thy ===== *)
theory Endpoints
  imports Aggregates Node Devices Sensors Containers Processes Warnings
begin

text \<open>
  \<open>app/routers/overview.py\<close>, \<open>sections.py\<close>, \<open>hardware.py\<close> and the checked endpoint of
  \<open>storage.py\<close>: what they make of the results of the collectors. A request takes one result of
  each collector, which may be an exception; how a model is dumped is a parameter. The lemmas say
  that a failing collector never fails more than its own field or section.
\<close>

section \<open>Results and answers\<close>

text \<open>The results of all collectors during one request.\<close>

record dashboard =
  db_node :: "node_summary result"
  db_cpu :: "cpu_info result"
  db_memory :: "memory_info result"
  db_pci :: "pci_device list result"
  db_usb :: "usb_device list result"
  db_nics :: "nic list result"
  db_sensors :: "sensor_reading list result"
  db_gpus :: "gpu_info list result"
  db_storage :: "storage_overview result"
  db_efi :: "efi_info result"
  db_connectivity :: "connectivity result"
  db_k8s :: "kubernetes_overview result"
  db_talos :: "talos_overview result"
  db_containers :: "containers_overview result"
  db_processes :: "processes_overview result"
  db_warnings :: "node_warning list result"
  db_cluster_nodes :: "cluster_node list result"

datatype model =
    M_node node_summary | M_cpu cpu_info | M_memory memory_info | M_pci pci_device | M_usb usb_device
  | M_nic nic | M_sensor sensor_reading | M_gpu gpu_info | M_storage storage_overview | M_efi efi_info
  | M_k8s kubernetes_overview | M_talos talos_overview | M_containers containers_overview
  | M_processes processes_overview | M_warning node_warning | M_cluster_node cluster_node
  | M_disk disk | M_smart smart_health | M_usage disk_usage | M_k8s_node node_info | M_certificate cert_info
  | M_component component | M_config machine_config | M_container container

text \<open>The connectivity check returns a plain dict.\<close>

definition connectivity_dict :: "connectivity \<Rightarrow> json" where
  "connectivity_dict c = JObj
     [(''dns_servers'', JList (map JStr (cy_servers c))), (''dns_ok'', JBool (dns_ok (cy_dns c))),
      (''dns_result'', JStr (dns_result (cy_dns c))), (''dns_failed_servers'', JList (map JStr (dns_failed (cy_dns c)))),
      (''internet_ok'', JBool (cy_internet c)), (''kubernetes_api_ok'', JBool (cy_kubernetes c)),
      (''default_gateway'', JStr (cy_gateway c))]"

text \<open>A result as the dynamic value a router handles.\<close>

definition one :: "('a \<Rightarrow> model) \<Rightarrow> 'a result \<Rightarrow> model pyval result" where
  "one m r = rbind r (\<lambda>x. Inr (Model (m x)))"

definition many :: "('a \<Rightarrow> model) \<Rightarrow> 'a list result \<Rightarrow> model pyval result" where
  "many m r = rbind r (\<lambda>xs. Inr (Items (map (\<lambda>x. Model (m x)) xs)))"

definition plain_dict :: "connectivity result \<Rightarrow> model pyval result" where
  "plain_dict r = rbind r (\<lambda>c. Inr (Plain (connectivity_dict c)))"

text \<open>\<open>r[name]\<close>; a section that failed is None.\<close>

definition section_of :: "(string, model pyval option) dict \<Rightarrow> string \<Rightarrow> model pyval" where
  "section_of r name = (case dget r name of Some (Some v) \<Rightarrow> v | _ \<Rightarrow> Plain JNull)"

datatype response = R_value "model pyval" | R_object "(string \<times> response) list" | R_names "string list"

datatype answer = Served response | Http_exception int string | Raised exn

section \<open>The overview\<close>

definition overview_sections :: "dashboard \<Rightarrow> (string \<times> model pyval result) list" where
  "overview_sections d =
     [(''node'', one M_node (db_node d)), (''cpu'', one M_cpu (db_cpu d)), (''memory'', one M_memory (db_memory d)),
      (''pci'', many M_pci (db_pci d)), (''usb'', many M_usb (db_usb d)), (''nics'', many M_nic (db_nics d)),
      (''sensors'', many M_sensor (db_sensors d)), (''gpus'', many M_gpu (db_gpus d)),
      (''storage'', one M_storage (db_storage d)), (''efi'', one M_efi (db_efi d)),
      (''connectivity'', plain_dict (db_connectivity d)), (''k8s'', one M_k8s (db_k8s d)),
      (''talos'', one M_talos (db_talos d)), (''containers'', one M_containers (db_containers d)),
      (''processes'', one M_processes (db_processes d)), (''warnings'', many M_warning (db_warnings d))]"

definition hardware_fields :: "(model \<Rightarrow> json) \<Rightarrow> (string, model pyval option) dict \<Rightarrow> (string \<times> response) list" where
  "hardware_fields md r =
     [(''cpu'', R_value (dump md (section_of r ''cpu''))), (''memory'', R_value (dump md (section_of r ''memory''))),
      (''pci_devices'', R_value (dump_list md (section_of r ''pci''))),
      (''usb_devices'', R_value (dump_list md (section_of r ''usb''))),
      (''nics'', R_value (dump_list md (section_of r ''nics''))),
      (''sensors'', R_value (dump_list md (section_of r ''sensors''))),
      (''gpus'', R_value (dump_list md (section_of r ''gpus'')))]"

definition get_overview :: "(model \<Rightarrow> json) \<Rightarrow> dashboard \<Rightarrow> (string \<times> response) list result" where
  "get_overview md d = rbind (gather_sections (overview_sections d)) (\<lambda>(r, failed). Inr
     [(''node'', R_value (dump md (section_of r ''node''))),
      (''hardware'', R_object (hardware_fields md r)),
      (''storage'', R_value (dump md (section_of r ''storage''))),
      (''system'', R_object [(''efi'', R_value (dump md (section_of r ''efi'')))]),
      (''network'', R_object [(''interfaces'', R_value (dump_list md (section_of r ''nics''))),
         (''connectivity'', R_value (section_of r ''connectivity''))]),
      (''kubernetes'', R_value (dump md (section_of r ''k8s''))),
      (''talos'', R_value (dump md (section_of r ''talos''))),
      (''containers'', R_value (dump md (section_of r ''containers''))),
      (''processes'', R_value (dump md (section_of r ''processes''))),
      (''warnings'', R_value (dump_list md (section_of r ''warnings''))),
      (''errors'', R_names failed)])"

section \<open>Single sections\<close>

definition collect_hardware :: "(model \<Rightarrow> json) \<Rightarrow> dashboard \<Rightarrow> response result" where
  "collect_hardware md d = rbind (gather_sections
     [(''cpu'', one M_cpu (db_cpu d)), (''memory'', one M_memory (db_memory d)), (''pci'', many M_pci (db_pci d)),
      (''usb'', many M_usb (db_usb d)), (''nics'', many M_nic (db_nics d)),
      (''sensors'', many M_sensor (db_sensors d)), (''gpus'', many M_gpu (db_gpus d))])
     (\<lambda>(r, failed). Inr (R_object (hardware_fields md r @ [(''errors'', R_names failed)])))"

definition collect_system :: "(model \<Rightarrow> json) \<Rightarrow> dashboard \<Rightarrow> response result" where
  "collect_system md d = rbind (db_efi d) (\<lambda>e. Inr (R_object [(''efi'', R_value (Plain (md (M_efi e))))]))"

definition value_result :: "model pyval result \<Rightarrow> response result" where
  "value_result r = rbind r (\<lambda>v. Inr (R_value v))"

definition section_map :: "(model \<Rightarrow> json) \<Rightarrow> dashboard \<Rightarrow> (string \<times> response result) list" where
  "section_map md d =
     [(''node'', value_result (one M_node (db_node d))), (''hardware'', collect_hardware md d),
      (''storage'', value_result (one M_storage (db_storage d))), (''system'', collect_system md d),
      (''kubernetes'', value_result (one M_k8s (db_k8s d))), (''talos'', value_result (one M_talos (db_talos d))),
      (''containers'', value_result (one M_containers (db_containers d))),
      (''processes'', value_result (one M_processes (db_processes d))),
      (''warnings'', value_result (many M_warning (db_warnings d))),
      (''cluster_nodes'', value_result (many M_cluster_node (db_cluster_nodes d)))]"

text \<open>\<open>dump\<close> leaves a dict as it is.\<close>

definition dump_response :: "(model \<Rightarrow> json) \<Rightarrow> response \<Rightarrow> response" where
  "dump_response md v = (case v of R_value x \<Rightarrow> R_value (dump md x) | _ \<Rightarrow> v)"

definition network_section :: "(model \<Rightarrow> json) \<Rightarrow> dashboard \<Rightarrow> answer" where
  "network_section md d =
     (case gather_sections [(''nics'', many M_nic (db_nics d)), (''connectivity'', plain_dict (db_connectivity d))] of
        Inl e \<Rightarrow> Raised e
      | Inr (r, failed) \<Rightarrow> Served (R_object [(''interfaces'', R_value (dump_list md (section_of r ''nics''))),
          (''connectivity'', R_value (section_of r ''connectivity'')), (''errors'', R_names failed)]))"

definition get_section :: "(model \<Rightarrow> json) \<Rightarrow> dashboard \<Rightarrow> string \<Rightarrow> answer" where
  "get_section md d name =
     (if name = ''network'' then network_section md d
      else (case dget (section_map md d) name of
          None \<Rightarrow> Http_exception 404 (''Unknown section: '' @ name)
        | Some (Inr v) \<Rightarrow> Served (dump_response md v)
        | Some (Inl e) \<Rightarrow> if is_exception e then Http_exception 503 (''Section '' @ name @ '' could not be collected'')
            else Raised e))"

section \<open>Hardware and storage\<close>

definition hardware_sections :: "dashboard \<Rightarrow> (string \<times> model pyval result) list" where
  "hardware_sections d =
     [(''cpu'', one M_cpu (db_cpu d)), (''memory'', one M_memory (db_memory d)),
      (''pci_devices'', many M_pci (db_pci d)), (''usb_devices'', many M_usb (db_usb d)),
      (''nics'', many M_nic (db_nics d)), (''sensors'', many M_sensor (db_sensors d)), (''gpus'', many M_gpu (db_gpus d))]"

definition get_hardware :: "dashboard \<Rightarrow> answer" where
  "get_hardware d = (case gather_sections (hardware_sections d) of
     Inl e \<Rightarrow> Raised e
   | Inr (r, failed) \<Rightarrow>
       if section_of r ''cpu'' = Plain JNull \<or> section_of r ''memory'' = Plain JNull
       then Http_exception 503 (''Could not collect: '' @ join '', '' failed)
       else Served (R_object (map (\<lambda>kv. (fst kv, R_value (opt_default (Items []) (snd kv)))) r)))"

datatype smart_answer = Smart_report smart_health | Smart_exception int string | Smart_raised exn

definition get_smart :: "pyd \<Rightarrow> host \<Rightarrow> string \<Rightarrow> smart_answer" where
  "get_smart pd h device =
     (if \<not> str_isalnum (replace_char CHR ''/'' [] device) then Smart_exception 400 ''Invalid device name''
      else (case collect_smart_for_device pd h device of
          Inl e \<Rightarrow> Smart_raised e
        | Inr None \<Rightarrow> Smart_exception 404 (''Device '' @ device @ '' not found or SMART unavailable'')
        | Inr (Some report) \<Rightarrow> Smart_report report))"

section \<open>Lemmas\<close>

text \<open>What a field shows of its collector's result.\<close>

definition shown_one :: "(model \<Rightarrow> json) \<Rightarrow> ('a \<Rightarrow> model) \<Rightarrow> 'a result \<Rightarrow> response" where
  "shown_one md m r = R_value (Plain (case r of Inl e \<Rightarrow> JNull | Inr x \<Rightarrow> md (m x)))"

definition shown_many :: "(model \<Rightarrow> json) \<Rightarrow> ('a \<Rightarrow> model) \<Rightarrow> 'a list result \<Rightarrow> response" where
  "shown_many md m r = R_value (Items (case r of Inl e \<Rightarrow> [] | Inr xs \<Rightarrow> map (\<lambda>x. Plain (md (m x))) xs))"

definition shown_dict :: "connectivity result \<Rightarrow> response" where
  "shown_dict r = R_value (Plain (case r of Inl e \<Rightarrow> JNull | Inr c \<Rightarrow> connectivity_dict c))"

text \<open>The value of a section behind \<open>r[name]\<close> when it is the result of a collector.\<close>

definition result_value :: "model pyval result \<Rightarrow> model pyval" where
  "result_value r = (case r of Inl e \<Rightarrow> Plain JNull | Inr v \<Rightarrow> v)"

lemma dget_sections:
  "dget (map (\<lambda>s. (fst s, section_value (snd s))) ss) k = map_option section_value (dget ss k)"
  by (induction ss) (simp_all add: dget_def)

lemma section_of_gathered:
  "dget ss k = Some r \<Longrightarrow> section_of (map (\<lambda>s. (fst s, section_value (snd s))) ss) k = result_value r"
  by (cases r) (simp_all add: section_of_def dget_sections result_value_def)

lemma dump_one: "R_value (dump md (result_value (one m r))) = shown_one md m r"
  by (simp add: one_def rbind_def result_value_def dump_def dump_item_def shown_one_def split: sum.split)

lemma dump_many: "R_value (dump_list md (result_value (many m r))) = shown_many md m r"
  by (simp add: many_def rbind_def result_value_def dump_list_def dump_def dump_item_def shown_many_def split: sum.split)

lemma value_dict: "R_value (result_value (plain_dict r)) = shown_dict r"
  by (simp add: plain_dict_def rbind_def result_value_def shown_dict_def split: sum.split)

lemma isl_dynamic [simp]: "isl (one m r) = isl r" "isl (many k rs) = isl rs" "isl (plain_dict c) = isl c"
  by (simp_all add: one_def many_def plain_dict_def rbind_def split: sum.splits)

lemma dget_hit: "dget ((k, v) # ss) k = Some v"
  by (simp add: dget_def)

lemma dget_miss: "k' \<noteq> k \<Longrightarrow> dget ((k', v) # ss) k = dget ss k"
  by (simp add: dget_def)

lemma sections_distinct: "distinct (map fst (overview_sections d))" "distinct (map fst (hardware_sections d))"
  by (simp_all add: overview_sections_def hardware_sections_def)

section \<open>Properties\<close>

text \<open>
  C9: A failing collector costs the overview its own field and no other. Unless a collector was
  cancelled the overview answers, with the dump of each result at its place, null or an empty
  list at the place of each collector that failed, and the names of exactly those as errors.
\<close>

theorem overview_isolates_failures:
  assumes "only_exceptions (overview_sections d)"
  shows "get_overview md d = Inr
     [(''node'', shown_one md M_node (db_node d)),
      (''hardware'', R_object
         [(''cpu'', shown_one md M_cpu (db_cpu d)), (''memory'', shown_one md M_memory (db_memory d)),
          (''pci_devices'', shown_many md M_pci (db_pci d)), (''usb_devices'', shown_many md M_usb (db_usb d)),
          (''nics'', shown_many md M_nic (db_nics d)), (''sensors'', shown_many md M_sensor (db_sensors d)),
          (''gpus'', shown_many md M_gpu (db_gpus d))]),
      (''storage'', shown_one md M_storage (db_storage d)),
      (''system'', R_object [(''efi'', shown_one md M_efi (db_efi d))]),
      (''network'', R_object [(''interfaces'', shown_many md M_nic (db_nics d)),
         (''connectivity'', shown_dict (db_connectivity d))]),
      (''kubernetes'', shown_one md M_k8s (db_k8s d)), (''talos'', shown_one md M_talos (db_talos d)),
      (''containers'', shown_one md M_containers (db_containers d)),
      (''processes'', shown_one md M_processes (db_processes d)),
      (''warnings'', shown_many md M_warning (db_warnings d)),
      (''errors'', R_names (failed_names (overview_sections d)))]"
proof -
  let ?r = "map (\<lambda>s. (fst s, section_value (snd s))) (overview_sections d)"
  have get: "section_of ?r k = result_value v" if "dget (overview_sections d) k = Some v" for k v
    using section_of_gathered [OF that] .
  have vals: "section_of ?r ''node'' = result_value (one M_node (db_node d))"
    "section_of ?r ''cpu'' = result_value (one M_cpu (db_cpu d))"
    "section_of ?r ''memory'' = result_value (one M_memory (db_memory d))"
    "section_of ?r ''pci'' = result_value (many M_pci (db_pci d))"
    "section_of ?r ''usb'' = result_value (many M_usb (db_usb d))"
    "section_of ?r ''nics'' = result_value (many M_nic (db_nics d))"
    "section_of ?r ''sensors'' = result_value (many M_sensor (db_sensors d))"
    "section_of ?r ''gpus'' = result_value (many M_gpu (db_gpus d))"
    "section_of ?r ''storage'' = result_value (one M_storage (db_storage d))"
    "section_of ?r ''efi'' = result_value (one M_efi (db_efi d))"
    "section_of ?r ''connectivity'' = result_value (plain_dict (db_connectivity d))"
    "section_of ?r ''k8s'' = result_value (one M_k8s (db_k8s d))"
    "section_of ?r ''talos'' = result_value (one M_talos (db_talos d))"
    "section_of ?r ''containers'' = result_value (one M_containers (db_containers d))"
    "section_of ?r ''processes'' = result_value (one M_processes (db_processes d))"
    "section_of ?r ''warnings'' = result_value (many M_warning (db_warnings d))"
    by (rule get, simp add: overview_sections_def dget_hit dget_miss)+
  show ?thesis
    unfolding get_overview_def gather_sections_result [OF assms sections_distinct(1)] rbind_simps prod.case
      hardware_fields_def vals dump_one dump_many value_dict ..
qed

definition demo_dashboard :: "dashboard" where
  "demo_dashboard = (let e = Exn ValueError ''x'' in
     \<lparr>db_node = Inl e, db_cpu = Inr (collect_cpu demo_config null_host), db_memory = Inl e, db_pci = Inr [],
      db_usb = Inl e, db_nics = Inr [], db_sensors = Inr [], db_gpus = Inr [], db_storage = Inl e, db_efi = Inl e,
      db_connectivity = Inl e, db_k8s = Inl e, db_talos = Inl e,
      db_containers = Inr \<lparr>cv_system = [], cv_workloads = []\<rparr>, db_processes = Inl e, db_warnings = Inr [],
      db_cluster_nodes = Inr []\<rparr>)"

lemma demo_dashboard_exceptions: "only_exceptions (overview_sections demo_dashboard)"
  by (simp add: only_exceptions_def overview_sections_def demo_dashboard_def Let_def one_def many_def plain_dict_def is_exception_def)

theorem overview_isolates_failures_witness:
  "\<exists>fields. get_overview (\<lambda>_. JBool True) demo_dashboard = Inr fields
     \<and> dget fields ''containers'' = Some (R_value (Plain (JBool True)))
     \<and> dget fields ''storage'' = Some (R_value (Plain JNull))
     \<and> dget fields ''warnings'' = Some (R_value (Items []))"
proof -
  have "db_containers demo_dashboard = Inr \<lparr>cv_system = [], cv_workloads = []\<rparr>"
    "db_storage demo_dashboard = Inl (Exn ValueError ''x'')" "db_warnings demo_dashboard = Inr []"
    by (simp_all add: demo_dashboard_def Let_def)
  then show ?thesis
    unfolding overview_isolates_failures [OF demo_dashboard_exceptions] by (simp add: dget_def shown_one_def shown_many_def)
qed

text \<open>The sections with a single collector behind them, and whether it failed.\<close>

definition single_failures :: "dashboard \<Rightarrow> (string \<times> bool) list" where
  "single_failures d =
     [(''node'', isl (db_node d)), (''storage'', isl (db_storage d)), (''system'', isl (db_efi d)),
      (''kubernetes'', isl (db_k8s d)), (''talos'', isl (db_talos d)), (''containers'', isl (db_containers d)),
      (''processes'', isl (db_processes d)), (''warnings'', isl (db_warnings d)),
      (''cluster_nodes'', isl (db_cluster_nodes d))]"

definition all_sections :: "dashboard \<Rightarrow> (string \<times> model pyval result) list" where
  "all_sections d = overview_sections d @ [(''cluster_nodes'', many M_cluster_node (db_cluster_nodes d))]"

lemma only_exceptions_subset: "only_exceptions ss \<Longrightarrow> snd ` set ts \<subseteq> snd ` set ss \<Longrightarrow> only_exceptions ts"
  unfolding only_exceptions_def by (metis image_eqI imageE subsetD)

lemma collect_hardware_answers:
  assumes "only_exceptions (all_sections d)"
  shows "\<exists>fields. collect_hardware md d = Inr (R_object fields)"
proof -
  let ?ss = "[(''cpu'', one M_cpu (db_cpu d)), (''memory'', one M_memory (db_memory d)), (''pci'', many M_pci (db_pci d)),
      (''usb'', many M_usb (db_usb d)), (''nics'', many M_nic (db_nics d)),
      (''sensors'', many M_sensor (db_sensors d)), (''gpus'', many M_gpu (db_gpus d))]"
  have "only_exceptions ?ss"
    by (rule only_exceptions_subset [OF assms]) (simp add: all_sections_def overview_sections_def)
  then show ?thesis using gather_sections_result [of ?ss] by (simp add: collect_hardware_def)
qed

lemma network_answers:
  assumes "only_exceptions (all_sections d)"
  shows "\<exists>v. network_section md d = Served v"
proof -
  let ?ss = "[(''nics'', many M_nic (db_nics d)), (''connectivity'', plain_dict (db_connectivity d))]"
  have "only_exceptions ?ss"
    by (rule only_exceptions_subset [OF assms]) (simp add: all_sections_def overview_sections_def)
  then show ?thesis using gather_sections_result [of ?ss] by (simp add: network_section_def)
qed

text \<open>A section with one collector behind it is served unless that collector failed.\<close>

definition section_answers :: "(model \<Rightarrow> json) \<Rightarrow> dashboard \<Rightarrow> string \<Rightarrow> bool \<Rightarrow> bool" where
  "section_answers md d name failed =
     (if failed then get_section md d name = Http_exception 503 (''Section '' @ name @ '' could not be collected'')
      else \<exists>v. get_section md d name = Served v)"

lemma single_section:
  assumes "only_exceptions (all_sections d)" "v \<in> snd ` set (all_sections d)"
    "dget (section_map md d) name = Some (rbind v k)" "name \<noteq> ''network''" "\<And>x. \<exists>y. k x = Inr y"
  shows "section_answers md d name (isl v)"
proof (cases v)
  case (Inl e)
  then have "is_exception e" using assms(1,2) unfolding only_exceptions_def by fastforce
  then show ?thesis using Inl assms(3,4) by (simp add: get_section_def section_answers_def)
next
  case (Inr x)
  obtain y where "k x = Inr y" using assms(5) by blast
  then show ?thesis using Inr assms(3,4) by (simp add: get_section_def section_answers_def)
qed

lemma collect_system_one:
  "collect_system md d = rbind (one M_efi (db_efi d)) (\<lambda>v. Inr (R_object [(''efi'', R_value (dump md v))]))"
  by (cases "db_efi d") (simp_all add: collect_system_def one_def dump_def dump_item_def)

lemma single_value:
  assumes "only_exceptions (all_sections d)" "v \<in> snd ` set (all_sections d)"
    "dget (section_map md d) name = Some (value_result v)" "name \<noteq> ''network''"
  shows "section_answers md d name (isl v)"
  using single_section [OF assms(1,2) assms(3) [unfolded value_result_def] assms(4)] by simp

lemma section_map_entries:
  "dget (section_map md d) ''node'' = Some (value_result (one M_node (db_node d)))"
  "dget (section_map md d) ''storage'' = Some (value_result (one M_storage (db_storage d)))"
  "dget (section_map md d) ''system'' = Some (collect_system md d)"
  "dget (section_map md d) ''kubernetes'' = Some (value_result (one M_k8s (db_k8s d)))"
  "dget (section_map md d) ''talos'' = Some (value_result (one M_talos (db_talos d)))"
  "dget (section_map md d) ''containers'' = Some (value_result (one M_containers (db_containers d)))"
  "dget (section_map md d) ''processes'' = Some (value_result (one M_processes (db_processes d)))"
  "dget (section_map md d) ''warnings'' = Some (value_result (many M_warning (db_warnings d)))"
  "dget (section_map md d) ''cluster_nodes'' = Some (value_result (many M_cluster_node (db_cluster_nodes d)))"
  by (simp_all add: section_map_def dget_hit dget_miss)

lemma section_members:
  "one M_node (db_node d) \<in> snd ` set (all_sections d)"
  "one M_storage (db_storage d) \<in> snd ` set (all_sections d)"
  "one M_efi (db_efi d) \<in> snd ` set (all_sections d)"
  "one M_k8s (db_k8s d) \<in> snd ` set (all_sections d)"
  "one M_talos (db_talos d) \<in> snd ` set (all_sections d)"
  "one M_containers (db_containers d) \<in> snd ` set (all_sections d)"
  "one M_processes (db_processes d) \<in> snd ` set (all_sections d)"
  "many M_warning (db_warnings d) \<in> snd ` set (all_sections d)"
  "many M_cluster_node (db_cluster_nodes d) \<in> snd ` set (all_sections d)"
  by (simp_all add: all_sections_def overview_sections_def)

lemma single_sections:
  assumes "only_exceptions (all_sections d)" "(name, failed) \<in> set (single_failures d)"
  shows "section_answers md d name failed"
proof -
  have "section_answers md d ''node'' (isl (db_node d))"
    "section_answers md d ''storage'' (isl (db_storage d))"
    "section_answers md d ''kubernetes'' (isl (db_k8s d))"
    "section_answers md d ''talos'' (isl (db_talos d))"
    "section_answers md d ''containers'' (isl (db_containers d))"
    "section_answers md d ''processes'' (isl (db_processes d))"
    "section_answers md d ''warnings'' (isl (db_warnings d))"
    "section_answers md d ''cluster_nodes'' (isl (db_cluster_nodes d))"
    using single_value [OF assms(1) section_members(1) section_map_entries(1), of md]
      single_value [OF assms(1) section_members(2) section_map_entries(2), of md]
      single_value [OF assms(1) section_members(4) section_map_entries(4), of md]
      single_value [OF assms(1) section_members(5) section_map_entries(5), of md]
      single_value [OF assms(1) section_members(6) section_map_entries(6), of md]
      single_value [OF assms(1) section_members(7) section_map_entries(7), of md]
      single_value [OF assms(1) section_members(8) section_map_entries(8), of md]
      single_value [OF assms(1) section_members(9) section_map_entries(9), of md]
    by simp_all
  moreover have "section_answers md d ''system'' (isl (db_efi d))"
    using single_section [OF assms(1) section_members(3) section_map_entries(3) [unfolded collect_system_one], of md] by simp
  ultimately show ?thesis using assms(2) unfolding single_failures_def by auto
qed

lemma known_sections: "set (map fst (section_map md d)) = set (''hardware'' # map fst (single_failures d))"
  unfolding section_map_def single_failures_def by auto

lemma dget_None: "dget m k = None \<longleftrightarrow> k \<notin> set (map fst m)"
  by (induction m) (auto simp: dget_def)

text \<open>
  C20: Every section of the dashboard is served, or refused with the reason. Unless a collector was
  cancelled, a section with a single collector is served exactly when that collector did not
  fail and is answered with 503 otherwise; the hardware and network sections are served whatever
  failed; any other name is answered with 404. No request raises.
\<close>

theorem sections_answer:
  assumes "only_exceptions (all_sections d)"
  shows "case dget (single_failures d) name of
      Some failed \<Rightarrow> (if failed
        then get_section md d name = Http_exception 503 (''Section '' @ name @ '' could not be collected'')
        else \<exists>v. get_section md d name = Served v)
    | None \<Rightarrow> (if name = ''hardware'' \<or> name = ''network'' then \<exists>fields. get_section md d name = Served fields
        else get_section md d name = Http_exception 404 (''Unknown section: '' @ name))"
proof (cases "dget (single_failures d) name")
  case (Some failed)
  then show ?thesis using single_sections [OF assms dget_mem [OF Some], of md] by (simp add: section_answers_def)
next
  case None
  then have "name \<notin> set (map fst (single_failures d))" using dget_None by metis
  then have unknown: "name \<noteq> ''hardware'' \<Longrightarrow> dget (section_map md d) name = None"
    using dget_None [of "section_map md d" name] known_sections [of md d] by simp
  obtain fields where hw: "collect_hardware md d = Inr (R_object fields)" using collect_hardware_answers [OF assms] by blast
  have "dget (section_map md d) ''hardware'' = Some (collect_hardware md d)"
    by (simp add: section_map_def dget_hit dget_miss)
  then have "get_section md d ''hardware'' = Served (R_object fields)" using hw by (simp add: get_section_def dump_response_def)
  moreover obtain v where "network_section md d = Served v" using network_answers [OF assms] by blast
  ultimately show ?thesis using None unknown by (auto simp: get_section_def)
qed

lemma demo_all_exceptions: "only_exceptions (all_sections demo_dashboard)"
  by (simp add: only_exceptions_def all_sections_def overview_sections_def demo_dashboard_def Let_def one_def many_def
      plain_dict_def is_exception_def)

theorem sections_answer_witness:
  "get_section (\<lambda>_. JBool True) demo_dashboard ''storage'' = Http_exception 503 ''Section storage could not be collected''
   \<and> (\<exists>v. get_section (\<lambda>_. JBool True) demo_dashboard ''hardware'' = Served v)
   \<and> get_section (\<lambda>_. JBool True) demo_dashboard ''disks'' = Http_exception 404 ''Unknown section: disks''"
  using sections_answer [OF demo_all_exceptions, of "''storage''" "\<lambda>_. JBool True"]
    sections_answer [OF demo_all_exceptions, of "''hardware''" "\<lambda>_. JBool True"]
    sections_answer [OF demo_all_exceptions, of "''disks''" "\<lambda>_. JBool True"]
  by (simp add: single_failures_def demo_dashboard_def Let_def dget_def)

text \<open>The hardware endpoint needs the processor and the memory; the lists degrade.\<close>

lemma result_value_null: "result_value (one m r) = Plain JNull \<longleftrightarrow> isl r"
  by (cases r) (simp_all add: one_def result_value_def)

lemma hardware_503:
  assumes "only_exceptions (hardware_sections d)"
  shows "(\<exists>code detail. get_hardware d = Http_exception code detail) \<longleftrightarrow> isl (db_cpu d) \<or> isl (db_memory d)"
proof -
  let ?r = "map (\<lambda>s. (fst s, section_value (snd s))) (hardware_sections d)"
  have "section_of ?r ''cpu'' = result_value (one M_cpu (db_cpu d))"
    "section_of ?r ''memory'' = result_value (one M_memory (db_memory d))"
    by (rule section_of_gathered, simp add: hardware_sections_def dget_hit dget_miss)+
  then show ?thesis
    by (simp add: result_value_null get_hardware_def gather_sections_result [OF assms sections_distinct(2)])
qed


end
