(* ===== verification/Logs.thy ===== *)
theory Logs
  imports Containers
begin

text \<open>
  The log stream of \<open>app/routers/containers.py\<close>: the handshake of the WebSocket with its checks
  of origin, container and path, and the two tasks that serve the stream until either side ends.
  The handshake is a list of acts with the exception that ended it, if any; the stream is a step
  relation. The lemmas show that only pod logs of a fully named container are ever followed, and
  that the process that follows them never outlives the handler.
\<close>

section \<open>The origin of a request\<close>

record ws_request =
  wr_headers :: "(string \<times> string) list"
  wr_container :: string

text \<open>\<open>websocket.headers.get(name)\<close>: the server has lowered the names already.\<close>

definition ws_header :: "ws_request \<Rightarrow> string \<Rightarrow> string option" where
  "ws_header rq name = map_option snd (List.find (\<lambda>kv. fst kv = name) (wr_headers rq))"

text \<open>
  \<open>urlsplit(url).netloc\<close> on a Latin-1 text. White space and control characters in front and
  every tab and line break are dropped first; what stands in brackets has to be an address literal,
  which the standard library checks (\<open>ip_literal\<close>).
\<close>

definition url_text :: "string \<Rightarrow> string" where
  "url_text url = filter (\<lambda>c. c \<noteq> tab \<and> c \<noteq> CHR 0x0D \<and> c \<noteq> nl) (dropWhile (\<lambda>c. cp c \<le> 32) url)"

definition ascii_letter :: "char \<Rightarrow> bool" where
  "ascii_letter c = (in_range CHR ''a'' CHR ''z'' c \<or> in_range CHR ''A'' CHR ''Z'' c)"

definition scheme_char :: "char \<Rightarrow> bool" where
  "scheme_char c = (ascii_letter c \<or> in_range CHR ''0'' CHR ''9'' c \<or> c \<in> {CHR ''+'', CHR ''-'', CHR ''.''})"

definition after_scheme :: "string \<Rightarrow> string" where
  "after_scheme url = (case partition_char CHR '':'' url of (scheme, found, rest) \<Rightarrow>
     if found \<and> scheme \<noteq> [] \<and> ascii_letter (hd scheme) \<and> list_all scheme_char scheme then rest else url)"

definition ends_netloc :: "char \<Rightarrow> bool" where
  "ends_netloc c = (c = CHR ''/'' \<or> c = CHR ''?'' \<or> c = CHR ''#'')"

definition netloc :: "(string \<Rightarrow> bool) \<Rightarrow> string \<Rightarrow> string result" where
  "netloc ip_literal url = (let u = after_scheme (url_text url) in
     if \<not> startswith u ''//'' then Inr []
     else (let n = takeWhile (\<lambda>c. \<not> ends_netloc c) (drop 2 u); l = CHR ''['' \<in> set n; r = CHR '']'' \<in> set n in
       if l \<noteq> r then Inl (Exn ValueError ''Invalid IPv6 URL'')
       else if l \<and> \<not> ip_literal n then Inl (Exn ValueError ''does not appear to be an IPv4 or IPv6 address'')
       else Inr n))"

text \<open>A request without an origin does not come from a browser.\<close>

definition same_origin :: "(string \<Rightarrow> bool) \<Rightarrow> ws_request \<Rightarrow> bool result" where
  "same_origin ip_literal rq = (case ws_header rq ''origin'' of
     None \<Rightarrow> Inr True
   | Some origin \<Rightarrow> rbind (netloc ip_literal origin) (\<lambda>n.
       Inr (lower n = lower (opt_default [] (ws_header rq ''host'')))))"

section \<open>The handshake\<close>

definition container_id_re :: regex where
  "container_id_re = rtimes 64 (RSet False [CRange CHR ''0'' CHR ''9'', CRange CHR ''a'' CHR ''f''])"

datatype ws_act =
    Ws_accept | Ws_refuse int string | Ws_end | Ws_send string | Run_crictl "string list" | Follow string

definition get_container_log_path :: "config \<Rightarrow> host \<Rightarrow> string \<Rightarrow> string option result" where
  "get_container_log_path cf h cid = (case crictl_json cf h [''inspect'', cid] of
     None \<Rightarrow> Inr None
   | Some data \<Rightarrow> rbind (jget2 data ''status'' ''logPath'' (JStr [])) (\<lambda>log_path.
       Inr (if truthy log_path then Some (HOST_ROOT cf @ json_str log_path) else None)))"

definition pod_logs :: "config \<Rightarrow> string" where
  "pod_logs cf = HOST_ROOT cf @ ''/var/log/pods''"

text \<open>From the path to the process: \<open>realpath\<close> resolves the links of the file system and may
  fail; only its OSError is caught, and only for the log itself.\<close>

definition follow_log :: "config \<Rightarrow> (string \<Rightarrow> string result) \<Rightarrow> string \<Rightarrow> ws_act list \<times> exn option" where
  "follow_log cf realpath log_path =
     (case realpath (pod_logs cf) of
        Inl e \<Rightarrow> ([], Some e)
      | Inr allowed_root \<Rightarrow>
          (case (case realpath log_path of Inl e \<Rightarrow> if is_os_error e then Inr [] else Inl e | Inr p \<Rightarrow> Inr p) of
             Inl e \<Rightarrow> ([], Some e)
           | Inr resolved \<Rightarrow>
               if \<not> startswith resolved (allowed_root @ ''/'')
               then ([Ws_send (''[Error: log path outside allowed pod log tree]'' @ [nl]), Ws_end], None)
               else ([Follow resolved], None)))"

definition open_stream :: "config \<Rightarrow> host \<Rightarrow> (string \<Rightarrow> string result) \<Rightarrow> string \<Rightarrow> ws_act list \<times> exn option" where
  "open_stream cf h realpath cid =
     (case get_container_log_path cf h cid of
        Inl e \<Rightarrow> ([], Some e)
      | Inr p \<Rightarrow>
          (if opt_default [] p = []
           then ([Ws_send (''[Error: could not find log path for container]'' @ [nl]), Ws_end], None)
           else follow_log cf realpath (opt_default [] p)))"

definition container_logs ::
  "config \<Rightarrow> host \<Rightarrow> (string \<Rightarrow> string result) \<Rightarrow> (string \<Rightarrow> bool) \<Rightarrow> ws_request \<Rightarrow> ws_act list \<times> exn option" where
  "container_logs cf h realpath ip_literal rq =
     (case same_origin ip_literal rq of
        Inl e \<Rightarrow> ([], Some e)
      | Inr ok \<Rightarrow>
          (if \<not> ok then ([Ws_refuse 1008 ''Cross-origin request refused''], None)
           else if \<not> re_fullmatch False container_id_re (wr_container rq)
           then ([Ws_refuse 1008 ''Invalid container ID''], None)
           else (case open_stream cf h realpath (wr_container rq) of (acts, e) \<Rightarrow>
             ([Ws_accept, Run_crictl (crictl cf [''inspect'', wr_container rq])] @ acts, e))))"

text \<open>The pattern of a container identifier takes 64 lower-case hexadecimal digits.\<close>

definition hex_char :: "char \<Rightarrow> bool" where
  "hex_char c = (in_range CHR ''0'' CHR ''9'' c \<or> in_range CHR ''a'' CHR ''f'' c)"

definition full_id :: "string \<Rightarrow> bool" where
  "full_id s = (length s = 64 \<and> list_all hex_char s)"

lemma hex_class: "in_set False False [CRange CHR ''0'' CHR ''9'', CRange CHR ''a'' CHR ''f''] = hex_char"
  by (simp add: fun_eq_iff in_set_def hex_char_def)

lemma fullmatch_rtimes:
  "list_ex (\<lambda>st. fst (snd st) = []) (mt False (rtimes n (RSet False cs)) (b, s, g))
    \<longleftrightarrow> length s = n \<and> list_all (in_set False False cs) s"
proof (induction n arbitrary: b s)
  case (Suc n)
  show ?case
  proof (cases s)
    case (Cons c t)
    show ?thesis using Suc.IH [of "b @ [c]" t] Suc.IH [of "c # b" t] by (simp add: Cons set_step_def)
  qed (simp add: set_step_def)
qed auto

lemma fullmatch_id: "re_fullmatch False container_id_re s \<longleftrightarrow> full_id s"
  using fullmatch_rtimes [of 64 "[CRange CHR ''0'' CHR ''9'', CRange CHR ''a'' CHR ''f'']" "[]" s "[]"]
  unfolding re_fullmatch_def container_id_re_def full_id_def hex_class by simp


section \<open>Who may follow what\<close>

lemma follow_log_acts:
  assumes "follow_log cf realpath p = (acts, e)" "a \<in> set acts"
  shows "(\<exists>t. a = Ws_send t) \<or> a = Ws_end
    \<or> (\<exists>q allowed. a = Follow q \<and> realpath (pod_logs cf) = Inr allowed \<and> startswith q (allowed @ ''/''))"
  using assms by (auto simp: follow_log_def split: sum.splits if_splits)

lemma open_stream_acts:
  assumes "open_stream cf h realpath cid = (acts, e)" "a \<in> set acts"
  shows "(\<exists>t. a = Ws_send t) \<or> a = Ws_end
    \<or> (\<exists>q allowed. a = Follow q \<and> realpath (pod_logs cf) = Inr allowed \<and> startswith q (allowed @ ''/''))"
proof (cases "a = Ws_end \<or> (\<exists>t. a = Ws_send t)")
  case False
  then obtain p where "follow_log cf realpath p = (acts, e)"
    using assms by (auto simp: open_stream_def split: sum.splits if_splits)
  then show ?thesis using assms(2) follow_log_acts by blast
qed blast

lemma same_origin_cases:
  assumes "same_origin ip rq = Inr True"
  shows "ws_header rq ''origin'' = None \<or> (\<exists>origin n. ws_header rq ''origin'' = Some origin
    \<and> netloc ip origin = Inr n \<and> lower n = lower (opt_default [] (ws_header rq ''host'')))"
  using assms by (auto simp: same_origin_def rbind_Inr_iff split: option.splits)


definition demo_id :: string where
  "demo_id = replicate 64 CHR ''a''"

definition demo_inspect :: "string list \<Rightarrow> string \<times> string \<times> int" where
  "demo_inspect cmd = (replace_char CHR ''~'' [dquote] ''{~status~: {~logPath~: ~/var/log/pods/x/0.log~}}'', [], 0)"

definition demo_request :: ws_request where
  "demo_request = \<lparr>wr_headers = [(''host'', ''node:8080''), (''origin'', ''http://Node:8080'')], wr_container = demo_id\<rparr>"

lemma demo_stream: "container_logs demo_config (null_host\<lparr>h_run := demo_inspect\<rparr>) Inr (\<lambda>_. True) demo_request
  = ([Ws_accept, Run_crictl (crictl demo_config [''inspect'', demo_id]), Follow ''/host/var/log/pods/x/0.log''], None)"
  by code_simp


section \<open>The stream\<close>

text \<open>
  Two tasks share a cancel scope: one sends what \<open>tail\<close> prints, the other reads until the
  client disconnects; the end of either cancels the scope, and so does the cancellation of the
  handler, for instance at shutdown. The group is left when both tasks have ended; then the process
  is killed if it still runs, and waited for, which no cancellation interrupts. A task that is
  cancelled ends at its next wait, so it may still take a step.
\<close>

datatype phase = Streaming | Waiting | Ended

record stream =
  st_phase :: phase
  st_pumping :: bool
  st_listening :: bool
  st_cancelled :: bool
  st_exited :: bool
  st_killed :: bool
  st_sent :: "string list"

datatype stream_event =
    Line string | Pump_ends | Message | Listener_ends | Handler_cancelled | Tail_exits | Leave | Reaped

definition stream_start :: stream where
  "stream_start = \<lparr>st_phase = Streaming, st_pumping = True, st_listening = True, st_cancelled = False,
     st_exited = False, st_killed = False, st_sent = []\<rparr>"

inductive stream_step :: "stream \<Rightarrow> stream_event \<Rightarrow> stream \<Rightarrow> bool" where
  line: "st_pumping s \<Longrightarrow> stream_step s (Line t) (s\<lparr>st_sent := st_sent s @ [t]\<rparr>)"
| pump_ends: "st_pumping s \<Longrightarrow> stream_step s Pump_ends (s\<lparr>st_pumping := False, st_cancelled := True\<rparr>)"
| message: "st_listening s \<Longrightarrow> stream_step s Message s"
| listener_ends: "st_listening s \<Longrightarrow> stream_step s Listener_ends (s\<lparr>st_listening := False, st_cancelled := True\<rparr>)"
| handler_cancelled: "stream_step s Handler_cancelled (s\<lparr>st_cancelled := True\<rparr>)"
| tail_exits: "stream_step s Tail_exits (s\<lparr>st_exited := True\<rparr>)"
| leave: "st_phase s = Streaming \<Longrightarrow> \<not> st_pumping s \<Longrightarrow> \<not> st_listening s
    \<Longrightarrow> stream_step s Leave (s\<lparr>st_phase := Waiting, st_killed := \<not> st_exited s\<rparr>)"
| reaped: "st_phase s = Waiting \<Longrightarrow> st_exited s \<Longrightarrow> stream_step s Reaped (s\<lparr>st_phase := Ended\<rparr>)"

inductive_cases stream_stepE: "stream_step s ev s'"

inductive stream_run :: "stream_event list \<Rightarrow> stream \<Rightarrow> bool" where
  start: "stream_run [] stream_start"
| more: "stream_run evs s \<Longrightarrow> stream_step s ev s' \<Longrightarrow> stream_run (evs @ [ev]) s'"

definition stream_inv :: "stream \<Rightarrow> bool" where
  "stream_inv s = ((st_pumping s \<and> st_listening s \<or> st_cancelled s)
     \<and> (st_phase s = Streaming \<or> \<not> st_pumping s \<and> \<not> st_listening s \<and> (st_killed s \<or> st_exited s))
     \<and> (st_phase s = Ended \<longrightarrow> st_exited s))"

lemma stream_step_inv: "stream_step s ev s' \<Longrightarrow> stream_inv s \<Longrightarrow> stream_inv s'"
  by (erule stream_stepE) (auto simp: stream_inv_def)

lemma stream_run_inv: "stream_run evs s \<Longrightarrow> stream_inv s"
  by (induction rule: stream_run.induct) (simp add: stream_inv_def stream_start_def, blast intro: stream_step_inv)

lemma stream_run_sent: "stream_run evs s \<Longrightarrow> st_sent s = List.map_filter (\<lambda>ev. case ev of Line t \<Rightarrow> Some t | _ \<Rightarrow> None) evs"
  by (induction rule: stream_run.induct)
    (auto simp: stream_start_def map_filter_def elim!: stream_stepE)

text \<open>What may happen to a stream from a state on, whoever acts.\<close>

inductive stream_steps :: "stream \<Rightarrow> stream_event list \<Rightarrow> stream \<Rightarrow> bool" where
  refl: "stream_steps s [] s"
| step: "stream_step s ev s' \<Longrightarrow> stream_steps s' evs s'' \<Longrightarrow> stream_steps s (ev # evs) s''"

lemma stream_steps_inv: "stream_steps s evs s' \<Longrightarrow> stream_inv s \<Longrightarrow> stream_inv s'"
  by (induction rule: stream_steps.induct) (auto dest: stream_step_inv)

text \<open>The tasks end one after the other, the group is left, the killed process exits and is reaped.\<close>

lemma stop_pump: "\<exists>evs s'. stream_steps s evs s' \<and> set evs \<subseteq> {Pump_ends} \<and> \<not> st_pumping s'
    \<and> st_listening s' = st_listening s \<and> st_phase s' = st_phase s"
proof (cases "st_pumping s")
  case True
  then have "stream_steps s [Pump_ends] (s\<lparr>st_pumping := False, st_cancelled := True\<rparr>)"
    by (auto intro: stream_steps.intros stream_step.intros)
  then show ?thesis by force
next
  case False
  then show ?thesis by (intro exI [of _ "[]"] exI [of _ s]) (simp add: stream_steps.refl)
qed

lemma stop_listener: "\<exists>evs s'. stream_steps s evs s' \<and> set evs \<subseteq> {Listener_ends} \<and> \<not> st_listening s'
    \<and> st_pumping s' = st_pumping s \<and> st_phase s' = st_phase s"
proof (cases "st_listening s")
  case True
  then have "stream_steps s [Listener_ends] (s\<lparr>st_listening := False, st_cancelled := True\<rparr>)"
    by (auto intro: stream_steps.intros stream_step.intros)
  then show ?thesis by force
next
  case False
  then show ?thesis by (intro exI [of _ "[]"] exI [of _ s]) (simp add: stream_steps.refl)
qed

lemma stream_steps_trans: "stream_steps s evs s' \<Longrightarrow> stream_steps s' evs' s'' \<Longrightarrow> stream_steps s (evs @ evs') s''"
  by (induction rule: stream_steps.induct) (auto intro: stream_steps.step)

lemma reap_tail:
  assumes "st_phase s \<noteq> Ended" "\<not> st_pumping s" "\<not> st_listening s"
  shows "\<exists>evs s'. stream_steps s evs s' \<and> set evs \<subseteq> {Leave, Tail_exits, Reaped} \<and> st_phase s' = Ended"
proof -
  obtain evs w where w: "stream_steps s evs w" "set evs \<subseteq> {Leave, Tail_exits, Reaped}" "st_phase w = Waiting"
  proof (cases "st_phase s")
    case Streaming
    then have "stream_steps s [Leave] (s\<lparr>st_phase := Waiting, st_killed := \<not> st_exited s\<rparr>)"
      using assms by (auto intro: stream_steps.intros stream_step.intros)
    then show ?thesis using that by force
  next
    case Waiting
    then show ?thesis using that [OF stream_steps.refl] by simp
  qed (use assms in simp)
  let ?e = "w\<lparr>st_exited := True\<rparr>"
  have "stream_steps w [Tail_exits, Reaped] (?e\<lparr>st_phase := Ended\<rparr>)"
    
    by (rule stream_steps.step [OF stream_step.tail_exits stream_steps.step [OF stream_step.reaped stream_steps.refl]])
      (simp_all add: w(3))
  from stream_steps_trans [OF w(1) this] show ?thesis using w(2) by force
qed


lemma demo_disconnect:
  "stream_run ([] @ [Line ''x''] @ [Listener_ends]) (stream_start\<lparr>st_sent := [''x''], st_listening := False, st_cancelled := True\<rparr>)"
proof -
  have a: "stream_run ([] @ [Line ''x'']) (stream_start\<lparr>st_sent := [''x'']\<rparr>)"
    using stream_run.more [OF stream_run.start stream_step.line [of stream_start "''x''"]] by (simp add: stream_start_def)
  show ?thesis
    using stream_run.more [OF a stream_step.listener_ends] by (simp add: stream_start_def)
qed


end
