(* ===== verification/Routes.thy ===== *)
theory Routes
  imports App Endpoints Logs
begin

text \<open>
  \<open>app/main.py\<close> and the decorators of \<open>app/routers\<close>: which request reaches which endpoint. The
  matching of a path against a pattern is the web framework's, hence a parameter with its
  documented behaviour as a hypothesis; that a request goes to the first route that matches is
  documented, too. Every endpoint takes GET only, which the model takes for granted. The lemmas say
  that no route hides another, and that the application shows a request without credentials
  nothing but its health.
\<close>

section \<open>The endpoints\<close>

text \<open>What the collectors return during one request, and what the checked endpoints need.\<close>

record api =
  ap_results :: dashboard
  ap_disks :: "disk list result"
  ap_smart :: "smart_health list result"
  ap_usage :: "disk_usage list result"
  ap_node_info :: "node_info result"
  ap_certificates :: "cert_info list result"
  ap_components :: "component list result"
  ap_machine_config :: "machine_config result"
  ap_talos_certificates :: "cert_info list result"
  ap_system_containers :: "container list result"
  ap_workloads :: "container list result"
  ap_dump :: "model \<Rightarrow> json"
  ap_pydantic :: pyd
  ap_config :: config
  ap_host :: host
  ap_realpath :: "string \<Rightarrow> string result"
  ap_ip_literal :: "string \<Rightarrow> bool"

datatype reply = Answer answer | Stream "ws_act list \<times> exn option" | Static_files

text \<open>\<open>return await collect()\<close>\<close>

definition returned :: "model pyval result \<Rightarrow> reply" where
  "returned r = Answer (case r of Inl e \<Rightarrow> Raised e | Inr v \<Rightarrow> Served (R_value v))"

definition health_reply :: reply where
  "health_reply = Answer (Served (R_value (Plain (JObj [(''status'', JStr ''ok'')]))))"

text \<open>A route: the type of its scopes, its pattern, and its endpoint, which takes the scope and
  the value of the path parameter.\<close>

type_synonym endpoint = "scope \<Rightarrow> string \<Rightarrow> reply"
type_synonym route = "string \<times> string \<times> endpoint"

definition get :: "string \<Rightarrow> (string \<Rightarrow> reply) \<Rightarrow> route" where
  "get pattern f = (''http'', pattern, \<lambda>_. f)"

section \<open>The routers\<close>

definition node_router :: "api \<Rightarrow> route list" where
  "node_router a = [get ''/node'' (\<lambda>_. returned (one M_node (db_node (ap_results a))))]"

definition hardware_router :: "api \<Rightarrow> route list" where
  "hardware_router a = (let d = ap_results a in
     [get '''' (\<lambda>_. Answer (get_hardware d)),
      get ''/cpu'' (\<lambda>_. returned (one M_cpu (db_cpu d))),
      get ''/memory'' (\<lambda>_. returned (one M_memory (db_memory d))),
      get ''/pci'' (\<lambda>_. returned (many M_pci (db_pci d))),
      get ''/usb'' (\<lambda>_. returned (many M_usb (db_usb d))),
      get ''/nics'' (\<lambda>_. returned (many M_nic (db_nics d))),
      get ''/sensors'' (\<lambda>_. returned (many M_sensor (db_sensors d))),
      get ''/gpus'' (\<lambda>_. returned (many M_gpu (db_gpus d)))])"

definition smart_reply :: "smart_answer \<Rightarrow> reply" where
  "smart_reply r = Answer (case r of Smart_report h \<Rightarrow> Served (R_value (Model (M_smart h)))
     | Smart_exception code detail \<Rightarrow> Http_exception code detail | Smart_raised e \<Rightarrow> Raised e)"

definition storage_router :: "api \<Rightarrow> route list" where
  "storage_router a =
     [get '''' (\<lambda>_. returned (one M_storage (db_storage (ap_results a)))),
      get ''/disks'' (\<lambda>_. returned (many M_disk (ap_disks a))),
      get ''/smart'' (\<lambda>_. returned (many M_smart (ap_smart a))),
      get ''/smart/{device}'' (\<lambda>device. smart_reply (get_smart (ap_pydantic a) (ap_host a) device)),
      get ''/usage'' (\<lambda>_. returned (many M_usage (ap_usage a)))]"

definition network_router :: "api \<Rightarrow> route list" where
  "network_router a =
     [get '''' (\<lambda>_. returned (many M_nic (db_nics (ap_results a)))),
      get ''/connectivity'' (\<lambda>_. returned (plain_dict (db_connectivity (ap_results a))))]"

definition system_router :: "api \<Rightarrow> route list" where
  "system_router a = [get ''/efi'' (\<lambda>_. returned (one M_efi (db_efi (ap_results a))))]"

definition kubernetes_router :: "api \<Rightarrow> route list" where
  "kubernetes_router a =
     [get '''' (\<lambda>_. returned (one M_k8s (db_k8s (ap_results a)))),
      get ''/node-info'' (\<lambda>_. returned (one M_k8s_node (ap_node_info a))),
      get ''/certificates'' (\<lambda>_. returned (many M_certificate (ap_certificates a))),
      get ''/components'' (\<lambda>_. returned (many M_component (ap_components a)))]"

definition talos_router :: "api \<Rightarrow> route list" where
  "talos_router a =
     [get '''' (\<lambda>_. returned (one M_talos (db_talos (ap_results a)))),
      get ''/config'' (\<lambda>_. returned (one M_config (ap_machine_config a))),
      get ''/certificates'' (\<lambda>_. returned (many M_certificate (ap_talos_certificates a)))]"

definition log_stream :: "api \<Rightarrow> scope \<Rightarrow> string \<Rightarrow> reply" where
  "log_stream a sc cid = Stream (container_logs (ap_config a) (ap_host a) (ap_realpath a) (ap_ip_literal a)
     \<lparr>wr_headers = s_headers sc, wr_container = cid\<rparr>)"

definition containers_router :: "api \<Rightarrow> route list" where
  "containers_router a =
     [get '''' (\<lambda>_. returned (one M_containers (db_containers (ap_results a)))),
      get ''/system'' (\<lambda>_. returned (many M_container (ap_system_containers a))),
      get ''/workloads'' (\<lambda>_. returned (many M_container (ap_workloads a))),
      (''websocket'', ''/{container_id}/logs'', log_stream a)]"

definition processes_router :: "api \<Rightarrow> route list" where
  "processes_router a = [get '''' (\<lambda>_. returned (one M_processes (db_processes (ap_results a))))]"

definition sections_router :: "api \<Rightarrow> route list" where
  "sections_router a = [get ''/{section_name}'' (\<lambda>name. Answer (get_section (ap_dump a) (ap_results a) name))]"

definition warnings_router :: "api \<Rightarrow> route list" where
  "warnings_router a = [get ''/warnings'' (\<lambda>_. returned (many M_warning (db_warnings (ap_results a))))]"

definition overview_router :: "api \<Rightarrow> route list" where
  "overview_router a = [get ''/overview'' (\<lambda>_. Answer (case get_overview (ap_dump a) (ap_results a) of
     Inl e \<Rightarrow> Raised e | Inr fs \<Rightarrow> Served (R_object fs)))]"

section \<open>The application\<close>

definition include_router :: "string \<Rightarrow> route list \<Rightarrow> route list" where
  "include_router prefix rs = map (\<lambda>(ty, pattern, f). (ty, prefix @ pattern, f)) rs"

definition routes :: "api \<Rightarrow> route list" where
  "routes a =
     include_router ''/api'' (node_router a) @ include_router ''/api/hardware'' (hardware_router a)
     @ include_router ''/api/storage'' (storage_router a) @ include_router ''/api/network'' (network_router a)
     @ include_router ''/api/system'' (system_router a) @ include_router ''/api/kubernetes'' (kubernetes_router a)
     @ include_router ''/api/talos'' (talos_router a) @ include_router ''/api/containers'' (containers_router a)
     @ include_router ''/api/processes'' (processes_router a) @ include_router ''/api/sections'' (sections_router a)
     @ include_router ''/api'' (warnings_router a) @ include_router ''/api'' (overview_router a)
     @ [get ''/api/health'' (\<lambda>_. health_reply)]"

text \<open>\<open>m pattern path\<close> is the value of the path parameter (empty without one) when the pattern
  matches. The mount of the static files is the last route and takes every path.\<close>

type_synonym matcher = "string \<Rightarrow> string \<Rightarrow> string option"

definition dispatch :: "matcher \<Rightarrow> api \<Rightarrow> scope \<Rightarrow> string \<Rightarrow> reply" where
  "dispatch m a sc path =
     (case List.find (\<lambda>(ty, pattern, f). ty = s_type sc \<and> m pattern path \<noteq> None) (routes a) of
        Some (ty, pattern, f) \<Rightarrow> f sc (the (m pattern path))
      | None \<Rightarrow> Static_files)"

datatype reaction = Refused asgi_out | Replied reply

definition application :: "auth_config \<Rightarrow> matcher \<Rightarrow> api \<Rightarrow> scope \<Rightarrow> string \<Rightarrow> reaction result" where
  "application ac m a sc path = rbind (middleware ac (sc\<lparr>s_path := Some path\<rparr>)) (\<lambda>out. Inr (case out of
     Forwarded \<Rightarrow> Replied (dispatch m a sc path) | _ \<Rightarrow> Refused out))"

section \<open>Matching\<close>

text \<open>
  The documented behaviour: a pattern without a parameter matches itself only; a parameter takes
  any text but the empty one and ones with a slash.
\<close>

definition param_pattern :: "string \<Rightarrow> string \<Rightarrow> string \<Rightarrow> string" where
  "param_pattern pre name post = pre @ CHR ''{'' # name @ CHR ''}'' # post"

definition no_braces :: "string \<Rightarrow> bool" where
  "no_braces s = (CHR ''{'' \<notin> set s \<and> CHR ''}'' \<notin> set s)"

definition documented_matching :: "matcher \<Rightarrow> bool" where
  "documented_matching m =
     ((\<forall>pattern path. CHR ''{'' \<notin> set pattern \<longrightarrow> m pattern path = (if path = pattern then Some [] else None))
      \<and> (\<forall>pre name post path v. no_braces (pre @ name @ post) \<longrightarrow>
           (m (param_pattern pre name post) path = Some v \<longleftrightarrow> path = pre @ v @ post \<and> v \<noteq> [] \<and> CHR ''/'' \<notin> set v)))"

lemma plain_match:
  "documented_matching m \<Longrightarrow> CHR ''{'' \<notin> set pattern \<Longrightarrow> m pattern path = (if path = pattern then Some [] else None)"
  by (simp add: documented_matching_def)

lemma param_match:
  "documented_matching m \<Longrightarrow> no_braces (pre @ name @ post) \<Longrightarrow>
     m (param_pattern pre name post) path = Some v \<longleftrightarrow> path = pre @ v @ post \<and> v \<noteq> [] \<and> CHR ''/'' \<notin> set v"
  unfolding documented_matching_def by blast

text \<open>The three patterns with a parameter.\<close>

lemma param_patterns:
  "''/api/storage/smart/{device}'' = param_pattern ''/api/storage/smart/'' ''device'' ''''"
  "''/api/containers/{container_id}/logs'' = param_pattern ''/api/containers/'' ''container_id'' ''/logs''"
  "''/api/sections/{section_name}'' = param_pattern ''/api/sections/'' ''section_name'' ''''"
  by (simp_all add: param_pattern_def)

lemma smart_match: "documented_matching m \<Longrightarrow> m ''/api/storage/smart/{device}'' path = Some v
    \<longleftrightarrow> path = ''/api/storage/smart/'' @ v @ [] \<and> v \<noteq> [] \<and> CHR ''/'' \<notin> set v"
  unfolding param_patterns by (rule param_match) (assumption, simp add: no_braces_def)

lemma logs_match: "documented_matching m \<Longrightarrow> m ''/api/containers/{container_id}/logs'' path = Some v
    \<longleftrightarrow> path = ''/api/containers/'' @ v @ ''/logs'' \<and> v \<noteq> [] \<and> CHR ''/'' \<notin> set v"
  unfolding param_patterns by (rule param_match) (assumption, simp add: no_braces_def)

lemma section_match: "documented_matching m \<Longrightarrow> m ''/api/sections/{section_name}'' path = Some v
    \<longleftrightarrow> path = ''/api/sections/'' @ v @ [] \<and> v \<noteq> [] \<and> CHR ''/'' \<notin> set v"
  unfolding param_patterns by (rule param_match) (assumption, simp add: no_braces_def)

section \<open>No route hides another\<close>

text \<open>The table without the endpoints.\<close>

definition route_table :: "(string \<times> string) list" where
  "route_table =
     [(''http'', ''/api/node''), (''http'', ''/api/hardware''), (''http'', ''/api/hardware/cpu''),
      (''http'', ''/api/hardware/memory''), (''http'', ''/api/hardware/pci''), (''http'', ''/api/hardware/usb''),
      (''http'', ''/api/hardware/nics''), (''http'', ''/api/hardware/sensors''), (''http'', ''/api/hardware/gpus''),
      (''http'', ''/api/storage''), (''http'', ''/api/storage/disks''), (''http'', ''/api/storage/smart''),
      (''http'', ''/api/storage/smart/{device}''), (''http'', ''/api/storage/usage''), (''http'', ''/api/network''),
      (''http'', ''/api/network/connectivity''), (''http'', ''/api/system/efi''), (''http'', ''/api/kubernetes''),
      (''http'', ''/api/kubernetes/node-info''), (''http'', ''/api/kubernetes/certificates''), (''http'', ''/api/kubernetes/components''),
      (''http'', ''/api/talos''), (''http'', ''/api/talos/config''), (''http'', ''/api/talos/certificates''),
      (''http'', ''/api/containers''), (''http'', ''/api/containers/system''), (''http'', ''/api/containers/workloads''),
      (''websocket'', ''/api/containers/{container_id}/logs''), (''http'', ''/api/processes''), (''http'', ''/api/sections/{section_name}''),
      (''http'', ''/api/warnings''), (''http'', ''/api/overview''), (''http'', ''/api/health'')]"

lemma routes_table: "map (\<lambda>r. (fst r, fst (snd r))) (routes a) = route_table"
  by (simp add: routes_def include_router_def get_def node_router_def hardware_router_def storage_router_def
      network_router_def system_router_def kubernetes_router_def talos_router_def containers_router_def
      processes_router_def sections_router_def warnings_router_def overview_router_def route_table_def Let_def)

definition plain_pattern :: "string \<Rightarrow> bool" where
  "plain_pattern pattern = (CHR ''{'' \<notin> set pattern)"

text \<open>What one look at the table shows: the patterns are distinct, three have a parameter, and no
  other pattern begins like one of these (and ends like it).\<close>

definition param_table :: "string list" where
  "param_table = [''/api/storage/smart/{device}'', ''/api/containers/{container_id}/logs'', ''/api/sections/{section_name}'']"

lemma table_distinct: "distinct (map snd route_table)"
  by code_simp

lemma table_params: "list_all (\<lambda>(ty, p). plain_pattern p \<or> p \<in> set param_table) route_table"
  by code_simp

text \<open>The beginning and the end of a path a parameter route takes.\<close>

definition param_form :: "string \<Rightarrow> bool" where
  "param_form p = (startswith p ''/api/storage/smart/'' \<or> startswith p ''/api/sections/''
     \<or> startswith p ''/api/containers/'' \<and> startswith (rev p) ''sgol/'')"

lemma table_plain: "list_all (\<lambda>(ty, p). plain_pattern p \<longrightarrow> \<not> param_form p) route_table"
  by code_simp

lemma param_table_heads: "distinct (map (take 8) param_table)"
  by code_simp

lemma param_takes:
  assumes "documented_matching m" "q \<in> set param_table" "m q path = Some v"
  shows "param_form path \<and> take 8 path = take 8 q"
proof -
  consider "q = ''/api/storage/smart/{device}''" | "q = ''/api/containers/{container_id}/logs''"
    | "q = ''/api/sections/{section_name}''" using assms(2) unfolding param_table_def by auto
  then show ?thesis
  proof cases
    case 1
    then have "path = ''/api/storage/smart/'' @ (v @ [])" using assms(3) smart_match [OF assms(1)] by simp
    then show ?thesis unfolding 1 param_form_def by simp
  next
    case 2
    then have p: "path = ''/api/containers/'' @ (v @ ''/logs'')" using assms(3) logs_match [OF assms(1)] by simp
    then have "rev path = ''sgol/'' @ rev (''/api/containers/'' @ v)" by simp
    then have "startswith (rev path) ''sgol/''" by (simp only: startswith_append)
    then show ?thesis using p unfolding 2 param_form_def by simp
  next
    case 3
    then have "path = ''/api/sections/'' @ (v @ [])" using assms(3) section_match [OF assms(1)] by simp
    then show ?thesis unfolding 3 param_form_def by simp
  qed
qed

lemma table_pattern:
  assumes "q \<in> snd ` set route_table"
  shows "if plain_pattern q then \<not> param_form q else q \<in> set param_table"
proof -
  obtain ty where mem: "(ty, q) \<in> set route_table" using assms by force
  have "plain_pattern q \<or> q \<in> set param_table" "plain_pattern q \<longrightarrow> \<not> param_form q"
    using bspec [OF table_params [unfolded list_all_iff] mem] bspec [OF table_plain [unfolded list_all_iff] mem]
    by (simp_all only: prod.case)
  then show ?thesis by auto
qed

lemma param_patterns_apart:
  assumes "documented_matching m" "q \<in> set param_table" "q' \<in> set param_table" "m q path = Some v" "m q' path = Some v'"
  shows "q = q'"
proof -
  have "take 8 q = take 8 q'"
    using param_takes [OF assms(1,2,4)] param_takes [OF assms(1,3,5)] by simp
  then show ?thesis using param_table_heads assms(2,3) unfolding distinct_map inj_on_def by blast
qed

lemma match_unique:
  assumes "documented_matching m" "q \<in> snd ` set route_table" "q' \<in> snd ` set route_table"
    "m q path = Some v" "m q' path = Some v'"
  shows "q = q'"
proof -
  have plain: "path = p" if "plain_pattern p" "m p path = Some w" for p w
    using that plain_match [OF assms(1), of p path] by (simp add: plain_pattern_def split: if_splits)
  have mixed: False if "plain_pattern p" "p \<in> snd ` set route_table" "m p path = Some w"
      "\<not> plain_pattern p'" "p' \<in> snd ` set route_table" "m p' path = Some w'" for p p' w w'
    using plain [OF that(1,3)] table_pattern [OF that(2)] table_pattern [OF that(5)] that(1,4)
      param_takes [OF assms(1) _ that(6)] by (simp split: if_splits)
  show ?thesis
  proof (cases "plain_pattern q \<longleftrightarrow> plain_pattern q'")
    case True
    show ?thesis
    proof (cases "plain_pattern q")
      case plain_q: True
      then have "plain_pattern q'" using True by blast
      then show ?thesis using plain [OF plain_q assms(4)] plain [OF _ assms(5)] by blast
    next
      case False
      then show ?thesis
        using True table_pattern [OF assms(2)] table_pattern [OF assms(3)] param_patterns_apart [OF assms(1) _ _ assms(4,5)] by simp
    qed
  next
    case False
    then show ?thesis using mixed [OF _ assms(2,4) _ assms(3,5)] mixed [OF _ assms(3,5) _ assms(2,4)] by blast
  qed
qed

lemma routes_in_table: "(ty, q, f) \<in> set (routes a) \<Longrightarrow> q \<in> snd ` set route_table"
  unfolding routes_table [of a, symmetric] by force

lemma find_unique:
  assumes "distinct (map g xs)" "x \<in> set xs" "P x" "\<And>y. y \<in> set xs \<Longrightarrow> P y \<Longrightarrow> g y = g x"
  shows "List.find P xs = Some x"
  using assms
proof (induction xs)
  case (Cons y ys)
  show ?case
  proof (cases "P y")
    case True
    then have "g y = g x" using Cons.prems(4) by simp
    have "x \<notin> set ys"
    proof
      assume "x \<in> set ys"
      then have "g y \<in> set (map g ys)" unfolding \<open>g y = g x\<close> by simp
      then show False using Cons.prems(1) by simp
    qed
    then have "x = y" using Cons.prems(2) by simp
    then show ?thesis using True by simp
  next
    case False
    then have "x \<in> set ys" using Cons.prems(2,3) by auto
    moreover have "distinct (map g ys)" using Cons.prems(1) by simp
    moreover have "g z = g x" if "z \<in> set ys" "P z" for z using Cons.prems(4) that by (meson list.set_intros(2))
    ultimately have "List.find P ys = Some x" using Cons.IH Cons.prems(3) by blast
    then show ?thesis using False by simp
  qed
qed simp

lemma dispatch_route:
  assumes "documented_matching m" "(ty, q, f) \<in> set (routes a)" "s_type sc = ty" "m q path = Some v"
  shows "dispatch m a sc path = f sc v"
proof -
  have "map (\<lambda>r. fst (snd r)) (routes a) = map snd route_table"
    using arg_cong [OF routes_table [of a], of "map snd"] by (simp add: comp_def)
  then have d: "distinct (map (\<lambda>r. fst (snd r)) (routes a))" using table_distinct by simp
  have "List.find (\<lambda>(ty, pattern, f). ty = s_type sc \<and> m pattern path \<noteq> None) (routes a) = Some (ty, q, f)"
  proof (rule find_unique [OF d assms(2)])
    fix r assume r: "r \<in> set (routes a)" "case r of (ty, pattern, f) \<Rightarrow> ty = s_type sc \<and> m pattern path \<noteq> None"
    obtain ty' q' f' where r': "r = (ty', q', f')" by (cases r)
    then obtain v' where "m q' path = Some v'" using r(2) by auto
    then have "q' = q" using match_unique [OF assms(1) routes_in_table routes_in_table [OF assms(2)] _ assms(4)] r(1) r' by blast
    then show "fst (snd r) = fst (snd (ty, q, f))" using r' by simp
  qed (use assms(3,4) in simp)
  then show ?thesis using assms(4) by (simp add: dispatch_def)
qed

text \<open>
  C27: No endpoint is out of reach: whatever path a route of the application matches, a request of
  the type of the route for that path gets the answer of that route's endpoint. No route hides
  another, in whatever order the routers are included.
\<close>

theorem every_route_answers:
  assumes "documented_matching m" "(ty, pattern, f) \<in> set (routes a)" "s_type sc = ty" "m pattern path = Some v"
  shows "dispatch m a sc path = f sc v
    \<and> {pattern' \<in> snd ` set route_table. m pattern' path \<noteq> None} = {pattern}"
proof -
  note mem = routes_in_table [OF assms(2)]
  have "pattern' = pattern" if "pattern' \<in> snd ` set route_table" "m pattern' path \<noteq> None" for pattern'
    using match_unique [OF assms(1) that(1) mem _ assms(4)] that(2) by blast
  moreover have "m pattern path \<noteq> None" using assms(4) by simp
  ultimately show ?thesis using dispatch_route [OF assms] mem by blast
qed

text \<open>A matcher that behaves as documented.\<close>

definition demo_match :: matcher where
  "demo_match pattern path =
     (if CHR ''{'' \<notin> set pattern then if path = pattern then Some [] else None
      else (let pre = takeWhile (\<lambda>c. c \<noteq> CHR ''{'') pattern;
                post = tl (dropWhile (\<lambda>c. c \<noteq> CHR ''}'') pattern);
                v = take (length path - length pre - length post) (drop (length pre) path)
            in if path = pre @ v @ post \<and> v \<noteq> [] \<and> CHR ''/'' \<notin> set v then Some v else None))"

lemma demo_match_param:
  assumes "no_braces (pre @ name @ post)"
  shows "demo_match (param_pattern pre name post) path = Some v
    \<longleftrightarrow> path = pre @ v @ post \<and> v \<noteq> [] \<and> CHR ''/'' \<notin> set v"
proof -
  have pre: "takeWhile (\<lambda>c. c \<noteq> CHR ''{'') (param_pattern pre name post) = pre"
    using assms by (auto simp: param_pattern_def takeWhile_append no_braces_def)
  have post: "tl (dropWhile (\<lambda>c. c \<noteq> CHR ''}'') (param_pattern pre name post)) = post"
    using assms by (auto simp: param_pattern_def dropWhile_append no_braces_def)
  have open_brace: "CHR ''{'' \<in> set (param_pattern pre name post)" by (simp add: param_pattern_def)
  define w where "w = take (length path - length pre - length post) (drop (length pre) path)"
  have "demo_match (param_pattern pre name post) path
      = (if path = pre @ w @ post \<and> w \<noteq> [] \<and> CHR ''/'' \<notin> set w then Some w else None)"
    using open_brace by (simp add: demo_match_def Let_def pre post w_def)
  moreover have "path = pre @ v @ post \<Longrightarrow> w = v" by (simp add: w_def)
  ultimately show ?thesis by auto
qed

lemma demo_matching: "documented_matching demo_match"
proof -
  have "demo_match pattern path = (if path = pattern then Some [] else None)" if "CHR ''{'' \<notin> set pattern" for pattern path
    using that by (simp add: demo_match_def)
  then show ?thesis using demo_match_param unfolding documented_matching_def by blast
qed

definition demo_http :: scope where
  "demo_http = \<lparr>s_type = ''http'', s_path = None, s_headers = []\<rparr>"

lemma section_route: "(''http'', ''/api/sections/{section_name}'', \<lambda>_ name. Answer (get_section (ap_dump a) (ap_results a) name)) \<in> set (routes a)"
  by (simp add: routes_def include_router_def get_def sections_router_def)

theorem every_route_answers_witness:
  "\<forall>a. dispatch demo_match a demo_http ''/api/sections/talos'' = Answer (get_section (ap_dump a) (ap_results a) ''talos'')"
proof
  fix a
  have "demo_match ''/api/sections/{section_name}'' ''/api/sections/talos'' = Some ''talos''" by code_simp
  from every_route_answers [OF demo_matching section_route _ this, of demo_http a]
  show "dispatch demo_match a demo_http ''/api/sections/talos'' = Answer (get_section (ap_dump a) (ap_results a) ''talos'')"
    by (simp add: demo_http_def)
qed

section \<open>Behind the middleware\<close>

lemma dispatch_nothing:
  assumes "\<And>q. q \<in> snd ` set route_table \<Longrightarrow> (ty, q) \<in> set route_table \<Longrightarrow> m q path = None" "s_type sc = ty"
  shows "dispatch m a sc path = Static_files"
proof -
  have "List.find (\<lambda>(ty, pattern, f). ty = s_type sc \<and> m pattern path \<noteq> None) (routes a) = None"
    unfolding find_None_iff
  proof
    assume "\<exists>r. r \<in> set (routes a) \<and> (case r of (ty, pattern, f) \<Rightarrow> ty = s_type sc \<and> m pattern path \<noteq> None)"
    then obtain q f where r: "(s_type sc, q, f) \<in> set (routes a)" "m q path \<noteq> None" by auto
    then have "(fst (s_type sc, q, f), fst (snd (s_type sc, q, f))) \<in> set route_table"
      unfolding routes_table [of a, symmetric] set_map by (rule_tac imageI)
    then show False using assms r routes_in_table [OF r(1)] by simp
  qed
  then show ?thesis by (simp add: dispatch_def)
qed

lemma health_route: "(''http'', ''/api/health'', \<lambda>_ _. health_reply) \<in> set (routes a)"
  by (simp add: routes_def get_def)

lemma health_http_only: "list_all (\<lambda>(ty, p). p = ''/api/health'' \<longrightarrow> ty = ''http'') route_table"
  by code_simp

lemma health_path_plain: "plain_pattern ''/api/health''"
  by code_simp

lemma health_dispatch:
  assumes "documented_matching m" "s_type sc \<in> {''http'', ''websocket''}"
  shows "dispatch m a sc ''/api/health'' = (if s_type sc = ''http'' then health_reply else Static_files)"
proof -
  have m: "m ''/api/health'' ''/api/health'' = Some []"
    using plain_match [OF assms(1), of "''/api/health''"] by simp
  show ?thesis
  proof (cases "s_type sc = ''http''")
    case True
    then show ?thesis using dispatch_route [OF assms(1) health_route _ m] by simp
  next
    case False
    have "dispatch m a sc ''/api/health'' = Static_files"
    proof (rule dispatch_nothing [OF _ HOL.refl])
      fix q assume q: "q \<in> snd ` set route_table" "(s_type sc, q) \<in> set route_table"
      have "q \<noteq> ''/api/health''" using bspec [OF health_http_only [unfolded list_all_iff] q(2)] False by auto
      then show "m q ''/api/health'' = None"
        using match_unique [OF assms(1) q(1) routes_in_table [OF health_route] _ m] by (cases "m q ''/api/health''") auto
    qed
    then show ?thesis using False by simp
  qed
qed

text \<open>
  C2: The application shows its health and nothing else to whoever has no credentials: when a
  token or password is configured, the reply to a request or handshake whose \<open>authorization\<close>
  header holds neither is the constant answer of the health endpoint, and for a WebSocket not
  even that. No collector's result, log or file of the frontend is in any other reply.
\<close>

theorem only_health_is_open:
  assumes "wf_credentials ac" "auth_configured ac" "documented_matching m" "s_type sc \<in> {''http'', ''websocket''}"
    "application ac m a sc path = Inr (Replied reply)"
    "\<not> holds_token ac (scope_header sc ''authorization'')" "\<not> holds_password ac (scope_header sc ''authorization'')"
  shows "path = ''/api/health'' \<and> reply = (if s_type sc = ''http'' then health_reply else Static_files)"
proof -
  let ?sc = "sc\<lparr>s_path := Some path\<rparr>"
  obtain x where x: "middleware ac ?sc = Inr x"
      "(case x of Forwarded \<Rightarrow> Replied (dispatch m a sc path) | _ \<Rightarrow> Refused x) = Replied reply"
    using assms(5) unfolding application_def rbind_Inr_iff by blast
  then have out: "middleware ac ?sc = Inr Forwarded" "reply = dispatch m a sc path"
    by (cases x; simp)+
  have same: "scope_header ?sc ''authorization'' = scope_header sc ''authorization''" by (simp add: scope_header_def)
  have "path = ''/api/health''"
  proof (rule ccontr)
    assume "path \<noteq> ''/api/health''"
    then show False using forwarded_holds [OF assms(1,2), of ?sc] assms(4,6,7) out(1) same by simp
  qed
  then show ?thesis using health_dispatch [OF assms(3,4)] out(2) by simp
qed

lemma demo_http_empty: "scope_header demo_http ''authorization'' = []"
  by (simp add: demo_http_def scope_header_def)

lemma demo_no_credentials: "\<not> holds_token demo_auth []" "\<not> holds_password demo_auth []"
  by (simp_all add: holds_token_def holds_password_def carries_def demo_auth_def)

theorem only_health_is_open_witness:
  "\<forall>a. application demo_auth demo_match a demo_http ''/api/health'' = Inr (Replied health_reply)"
proof
  fix a
  have "middleware demo_auth (demo_http\<lparr>s_path := Some ''/api/health''\<rparr>) = Inr Forwarded"
    by (simp add: middleware_def demo_http_def)
  then have app: "application demo_auth demo_match a demo_http ''/api/health'' = Inr (Replied (dispatch demo_match a demo_http ''/api/health''))"
    by (simp add: application_def)
  then show "application demo_auth demo_match a demo_http ''/api/health'' = Inr (Replied health_reply)"
    using only_health_is_open [OF demo_auth_facts(1,2) demo_matching _ app] demo_no_credentials
    by (simp add: demo_http_empty) (simp add: demo_http_def)
qed

end
