(* ===== verification/Spec2Isabelle.thy ===== *)
theory Spec2Isabelle
  imports CacheLive CertWarnings Outage Routes
begin

text \<open>
  \<^bold>\<open>The program.\<close> The node debug dashboard (\<open>src/app\<close>, Python) runs as a pod on a Kubernetes
  node under Talos Linux and shows what the node's hardware, kernel, containers and cluster
  components report. A request passes the authentication (\<open>auth.py\<close>) and reaches an endpoint of
  \<open>routers/\<close>; an endpoint awaits one collector of \<open>collectors/\<close> or gathers several; a collector
  runs commands on the host, reads files of its \<open>/proc\<close>, \<open>/sys\<close> and root directory, or asks an
  HTTP service through a shared client (\<open>httpclient.py\<close>), and parses what it got into a model of
  \<open>models/\<close>. Collectors are cached and de-duplicated by \<open>ttl_cache\<close> of \<open>collectors/base.py\<close>. Three
  modules keep state between requests: the caches, the pool of HTTP clients, and the counters and
  samples from which the warnings and the process table compute changes.

  \<^bold>\<open>How code became definitions.\<close> A function of the source is a definition of the same name (with
  a suffix or prefix where the name is taken), a pydantic model or dataclass a record, an
  exception an \<open>exn\<close> in the left half of \<open>'a result = exn + 'a\<close>, so that every raise, every
  caught class of exceptions and every early return is a branch. Python's integers are \<open>int\<close>, a
  dict is an association list in order of insertion, floats are rationals rounded to 53 bits
  (\<open>fl\<close>) with infinities and not-a-number apart, strings are lists of Latin-1 characters and,
  where UTF-8 is decoded, lists of code points. What lies outside the repository is an argument: \<open>host\<close>
  (commands, files, globs, clocks), \<open>kenv\<close> (the answers of HTTP services), \<open>pyd\<close> (the
  conversions of pydantic), \<open>realpath\<close>, the matching of routes. Loops are structural recursions
  or folds. The one bound is that of the repetition in a regular expression, the characters that
  are left; an iteration takes one at least, so more change nothing (\<open>star_m_bound\<close>).

  \<^bold>\<open>The library.\<close>
  \<^item> \<open>Prelude\<close>: exceptions and results, the locales \<open>py_dict\<close> (insertion-ordered dictionaries),
    \<open>stable_sort\<close> (\<open>sorted\<close>) and \<open>threshold_scale\<close> (the severities of a rising value), with their
    interpretations; severities are a \<open>linorder\<close>.
  \<^item> \<open>PyStr\<close>, \<open>PyFloat\<close>, \<open>PyJson\<close>, \<open>PyDate\<close>, \<open>Regex\<close>, \<open>Codec\<close>: what the source uses of Python's \<open>str\<close>,
    \<open>float\<close> and \<open>round\<close>, \<open>json\<close>, \<open>datetime\<close>, \<open>re\<close>, UTF-8 and Base64 (locale \<open>codec\<close>). \<open>Pydantic\<close>: validation
    as a parameter with its documented laws \<open>pyd_ok\<close>.
  \<^item> \<open>Blocks\<close>: the locale \<open>block_stream\<close> of the tools that print one block of lines per device,
    interpreted in \<open>Devices\<close> and \<open>Memory\<close>.

  \<^bold>\<open>The base.\<close>
  \<^item> \<open>Config\<close> is \<open>config.py\<close>. \<open>Base\<close> is \<open>run_command\<close>, \<open>read_file\<close> and the network namespace of
    \<open>collectors/base.py\<close>. \<open>Auth\<close> is \<open>auth.py\<close>: what the middleware forwards, who is let in, and a
    kind of token that never is. \<open>HttpClient\<close> is \<open>httpclient.py\<close>: the pool under any history of
    requests and rotations of certificates (\<open>pool_run\<close>).
  \<^item> \<open>Cache\<close> is \<open>ttl_cache\<close> as a step relation \<open>cstep\<close> over concurrent callers; \<open>creach\<close> are the
    reachable states. Single flight, freshness, shared failures and bounds are invariants by rule
    induction; two theorems show where the guarantees end. \<open>CacheLive\<close> adds that no caller is stuck
    and every call ends: the bound on the remaining steps is two for each unfinished caller.
    \<open>Outage\<close> puts the caches around the collectors that ask the API server and shows that what an
    outage left in them is gone after ten seconds.

  \<^bold>\<open>The collectors.\<close>
  \<^item> \<open>Smart\<close> and \<open>Mounts\<close>: the two halves of \<open>storage.py\<close>. \<open>Dmesg\<close>, \<open>Lscpu\<close> (\<open>cpu.py\<close>), \<open>Memory\<close>,
    \<open>Devices\<close> (\<open>pci.py\<close>, \<open>usb.py\<close>, \<open>efi.py\<close>, \<open>gpu.py\<close>), \<open>Sensors\<close>, \<open>Node\<close>.
  \<^item> \<open>Processes\<close> and \<open>Redact\<close>: \<open>processes.py\<close>, the table and the masking of secrets in it.
  \<^item> \<open>Containers\<close>: \<open>containers.py\<close>. \<open>Logs\<close>: the log stream of \<open>routers/containers.py\<close>, the handshake as a
    function to a list of acts, the two tasks of an open stream as a step relation.
  \<^item> \<open>Certs\<close>: both certificate collectors. \<open>Etcd\<close> and \<open>Kube\<close>: the rest of \<open>kubernetes.py\<close>. \<open>Talos\<close>:
    \<open>talos.py\<close>. \<open>Network\<close>: \<open>network.py\<close>. \<open>Aggregates\<close>: the collectors that gather others, as calls
    over the pool of clients.

  \<^bold>\<open>The endpoints.\<close>
  \<^item> \<open>Degrade\<close>: \<open>gather_sections\<close> and \<open>dump\<close> of \<open>routers/degrade.py\<close>. \<open>Warnings\<close>: \<open>routers/warnings.py\<close>, with
    the counters under any history of readings (\<open>counter_run\<close>) and a refinement from requests to
    that history. \<open>Endpoints\<close>: \<open>overview.py\<close>, \<open>sections.py\<close>, \<open>hardware.py\<close> and the checked endpoint of
    \<open>storage.py\<close>.
  \<^item> \<open>App\<close> and \<open>Routes\<close>: \<open>main.py\<close> and the decorators of all routers, the application a request meets.

  \<^bold>\<open>What is shown.\<close>
  \<^item> Confidentiality: only \<open>/api/health\<close> is open without credentials; the service account token is sent to
    the API server under its own CA only, by every collector and aggregate; credentials on
    command lines are masked, in the patterns and in the table as a whole; only logs below
    \<open>/var/log/pods\<close> are streamed; \<open>smartctl\<close> runs on plainly named devices only.
  \<^item> Isolation of failures: a failing collector costs its own field of the overview, section or
    source of the warnings, and the rest is as it would have been.
  \<^item> Nothing important is hidden: every drive has a report and reads as healthy on the word of
    \<open>smartctl\<close> only; failing drives, rising counters and expiring certificates page; no heavy
    process falls to the cut; every container is listed once; every route can be reached.
  \<^item> Concurrency and resources: one computation for a key at a time, its end shared; every call
    ends; every stream's process is reaped; every client is closed at shutdown; the samples do not grow.
  \<^item> Parsing: the scan of the kernel log against its meaning, the mount table's escapes as an
    inverse, exactness of the uptime, the float arithmetic of the etcd quota.

  \<^bold>\<open>Not modelled.\<close>
  \<^item> The web framework: the matching of a path and a method, the validation of responses, the
    documentation pages it adds, the serving of static files. Response models are not applied a
    second time.
  \<^item> The JavaScript frontend (\<open>app/static\<close>), the shell scripts (\<open>entrypoint.sh\<close> and the diagnostic
    tools), the SSH server, the charts, docs and tests: no Python of the dashboard.
  \<^item> The process side of \<open>run_command\<close> beyond its three outcomes (start failure, time-out, exit):
    the kernel's process groups and pipes.
  \<^item> Strings outside Latin-1 in the output of tools; the limit of 4300 digits in \<open>int(text)\<close>; float
    exponents are unbounded, so a quotient or product never overflows; an uptime that is not
    finite stops the model of the process table.
  \<^item> Gathered coroutines run in the order of the arguments, and of several exceptions the first in
    that order is raised; the cache alone is modelled with all interleavings.
\<close>

end
